theory Spec2Isabelle
  imports Main "HOL-Library.Word" "HOL-Library.Monad_Syntax"
begin

unbundle bit_operations_syntax

section \<open>vcap: capturing one video frame and saving it as a JPEG file\<close>

text \<open>
  A shallow embedding of \<^verbatim>\<open>vcap.c\<close>. The kernel (the V4L2 capture device, the file
  system, the allocator) and the JPEG library are collaborators of the program: every call
  the program makes to them is recorded, in order, in a trace, and the answer to a call is
  given by an environment, a function of the trace so far and of the call. Everything the
  program prints is recorded in the same trace. A call into the JPEG library may not
  return: the library's standard error handler, the one the program installs, ends the
  process.
\<close>

subsection \<open>Machine types\<close>

type_synonym byte = "8 word"
type_synonym u32 = "32 word"
type_synonym size_t = "64 word"

text \<open>A C \<^verbatim>\<open>int\<close>: 32 bits, read in two's complement with \<^const>\<open>sint\<close>.\<close>

type_synonym cint = "32 word"

subsection \<open>Pixel conversion: the loops of \<^verbatim>\<open>YUYV2JPEG\<close>\<close>

text \<open>The macro \<^verbatim>\<open>CLAMP(_val, _min, _max)\<close>.\<close>

definition CLAMP :: "int \<Rightarrow> int \<Rightarrow> int \<Rightarrow> int" where
  "CLAMP val mn mx = (if val < mn then mn else if val > mx then mx else val)"

text \<open>
  \<^verbatim>\<open>yuyv[i]\<close>, where \<^verbatim>\<open>yuyv\<close> points \<open>p\<close> bytes into the mapped buffer \<open>buf\<close>: an
  \<^verbatim>\<open>unsigned char\<close> promoted to \<^verbatim>\<open>int\<close>. A read outside the mapping has no defined
  result: \<open>None\<close>.
\<close>

definition yuyv_at :: "byte list \<Rightarrow> nat \<Rightarrow> nat \<Rightarrow> int option" where
  "yuyv_at buf p i = (if p + i < length buf then Some (uint (buf ! (p + i))) else None)"

text \<open>
  The three bytes stored through \<^verbatim>\<open>ptr\<close> for the values \<open>y\<close>, \<open>u\<close>, \<open>v\<close> of one
  pixel. The values are small (\<open>y\<close> is below \<open>2^16\<close>, \<open>u\<close> and \<open>v\<close> within \<open>\<plusminus>128\<close>), so no
  32-bit operation overflows; the right shift of a negative \<^verbatim>\<open>int\<close> is the arithmetic
  one, \<^term>\<open>drop_bit 8 :: int \<Rightarrow> int\<close>.
\<close>

definition rgb_of :: "int \<Rightarrow> int \<Rightarrow> int \<Rightarrow> byte list" where
  "rgb_of y u v =
     (let r = drop_bit 8 (y + (359 * v));
          g = drop_bit 8 (y - (88 * u) - (183 * v));
          b = drop_bit 8 (y + (454 * u))
      in [word_of_int (CLAMP r 0 255), word_of_int (CLAMP g 0 255),
          word_of_int (CLAMP b 0 255)])"

text \<open>
  The body of the \<^verbatim>\<open>for\<close> loop: one output pixel. The state is \<open>z\<close> (which luma byte
  of the current group is next) and \<open>p\<close> (the offset of \<^verbatim>\<open>yuyv\<close> into the buffer);
  \<^verbatim>\<open>if (z++) { z = 0; yuyv += 4; }\<close> tests the old \<open>z\<close>.
\<close>

definition pixel_step :: "byte list \<Rightarrow> int \<times> nat \<Rightarrow> (byte list \<times> int \<times> nat) option" where
  "pixel_step buf s =
     (case s of (z, p) \<Rightarrow>
      (case (if z = 0 then yuyv_at buf p 0 else yuyv_at buf p 2) of
         None \<Rightarrow> None
       | Some y0 \<Rightarrow>
      (case yuyv_at buf p 1 of
         None \<Rightarrow> None
       | Some u0 \<Rightarrow>
      (case yuyv_at buf p 3 of
         None \<Rightarrow> None
       | Some v0 \<Rightarrow>
           Some (rgb_of (push_bit 8 y0) (u0 - 128) (v0 - 128),
                 (if z \<noteq> 0 then (0, p + 4) else (z + 1, p)))))))"

text \<open>
  \<^verbatim>\<open>for (x = 0; x < vi->width; x++)\<close>: fills the row buffer from its start; \<open>row\<close> is
  what has been stored through \<^verbatim>\<open>ptr\<close> so far.
\<close>

function row_loop ::
  "byte list \<Rightarrow> int \<Rightarrow> int \<Rightarrow> byte list \<Rightarrow> int \<times> nat \<Rightarrow> (byte list \<times> int \<times> nat) option" where
  "row_loop buf w x row s =
     (if x < w then
        (case pixel_step buf s of
           None \<Rightarrow> None
         | Some (px, s') \<Rightarrow> row_loop buf w (x + 1) (row @ px) s')
      else Some (row, s))"
  by pat_completeness auto
termination
  by (relation "measure (\<lambda>(buf, w, x, row, s). nat (w - x))") auto

text \<open>
  \<^verbatim>\<open>while (jpgInfo.next_scanline < jpgInfo.image_height)\<close>: each turn converts one row
  and hands it to \<^verbatim>\<open>jpeg_write_scanlines\<close>, which takes the one row and advances
  \<^verbatim>\<open>next_scanline\<close> by one. \<open>z\<close> and \<^verbatim>\<open>yuyv\<close> are set once, before the loop, and
  carry over from row to row. The result is the list of rows handed over, in order. This is
  the loop as far as the pixels go, with a compressor that takes every row; the loop with
  the compressor's answers is \<open>write_loop\<close> below, which hands over the same rows for as
  long as the compressor takes them.
\<close>

function scanline_loop ::
  "byte list \<Rightarrow> int \<Rightarrow> nat \<Rightarrow> nat \<Rightarrow> byte list list \<Rightarrow> int \<times> nat \<Rightarrow> byte list list option" where
  "scanline_loop buf w image_height next_scanline rows s =
     (if next_scanline < image_height then
        (case row_loop buf w 0 [] s of
           None \<Rightarrow> None
         | Some (row, s') \<Rightarrow>
             scanline_loop buf w image_height (next_scanline + 1) (rows @ [row]) s')
      else Some rows)"
  by pat_completeness auto
termination
  by (relation "measure (\<lambda>(buf, w, h, n, rows, s). h - n)") auto

text \<open>
  The conversion as \<^verbatim>\<open>YUYV2JPEG\<close> runs it on a session of width \<open>w\<close> (a signed
  \<^verbatim>\<open>int\<close>) and height \<open>h\<close> (stored into the unsigned \<^verbatim>\<open>image_height\<close>): \<open>z = 0\<close>,
  \<^verbatim>\<open>yuyv\<close> at the start of the buffer.
\<close>

definition convert :: "byte list \<Rightarrow> cint \<Rightarrow> cint \<Rightarrow> byte list list option" where
  "convert buf w h = scanline_loop buf (sint w) (unat h) 0 [] (0, 0)"

declare row_loop.simps [simp del] scanline_loop.simps [simp del]

subsection \<open>The environment: calls, replies and the trace\<close>

text \<open>
  The \<^verbatim>\<open>ioctl\<close> requests the program issues. \<^verbatim>\<open>VIDIOC_S_FMT\<close> carries the
  \<^verbatim>\<open>pix.width\<close> and \<^verbatim>\<open>pix.height\<close> of its argument; the buffer type
  (\<^verbatim>\<open>V4L2_BUF_TYPE_VIDEO_CAPTURE\<close>), pixel format (\<^verbatim>\<open>V4L2_PIX_FMT_YUYV\<close>), field
  (\<^verbatim>\<open>V4L2_FIELD_ANY\<close>), memory kind (\<^verbatim>\<open>V4L2_MEMORY_MMAP\<close>), buffer count (1) and
  buffer index (0) of the arguments are the same in every call and are left out.
\<close>

datatype request =
    VIDIOC_QUERYCAP
  | VIDIOC_S_FMT u32 u32
  | VIDIOC_G_FMT
  | VIDIOC_REQBUFS
  | VIDIOC_QUERYBUF
  | VIDIOC_QBUF
  | VIDIOC_STREAMON
  | VIDIOC_DQBUF
  | VIDIOC_STREAMOFF

text \<open>
  The calls into the kernel and the C library: \<^verbatim>\<open>open(path, O_RDWR)\<close>,
  \<^verbatim>\<open>close(fd)\<close>, \<^verbatim>\<open>ioctl(fd, request, argp)\<close>, \<^verbatim>\<open>mmap(NULL, length, \<dots>, fd, offset)\<close>,
  \<^verbatim>\<open>munmap(addr, length)\<close>, \<^verbatim>\<open>select(fd + 1, \<dots>)\<close> on the one descriptor with the
  timeout in seconds, \<^verbatim>\<open>fopen(path, "wb")\<close>, \<^verbatim>\<open>fclose\<close>, \<^verbatim>\<open>calloc(n, 1)\<close>,
  \<^verbatim>\<open>free\<close>; \<open>Read_buffer addr length\<close>, the program reading the memory it has
  mapped, whose contents the device decides; and the calls into the JPEG library, on the
  one compressor the program creates: \<^verbatim>\<open>jpeg_create_compress\<close>, \<^verbatim>\<open>jpeg_stdio_dest\<close>
  on the output file, \<^verbatim>\<open>jpeg_set_defaults\<close> (for 3 components, \<^verbatim>\<open>JCS_RGB\<close>),
  \<^verbatim>\<open>jpeg_set_quality\<close> with the quality, \<^verbatim>\<open>jpeg_start_compress\<close> with the
  \<^verbatim>\<open>image_width\<close> and \<^verbatim>\<open>image_height\<close> stored in the compressor,
  \<^verbatim>\<open>jpeg_write_scanlines\<close> with the one row it is given, \<^verbatim>\<open>jpeg_finish_compress\<close>
  and \<^verbatim>\<open>jpeg_destroy_compress\<close>.
\<close>

datatype call =
    Open string
  | Close int
  | Ioctl int request
  | Mmap u32 int u32
  | Munmap int size_t
  | Select int nat
  | Fopen string
  | Fclose
  | Calloc size_t
  | Free
  | Read_buffer int size_t
  | Jpeg_create_compress
  | Jpeg_stdio_dest
  | Jpeg_set_defaults
  | Jpeg_set_quality int
  | Jpeg_start_compress u32 u32
  | Jpeg_write_scanlines "byte list"
  | Jpeg_finish_compress
  | Jpeg_destroy_compress

text \<open>
  The answer to a call: the value returned (for a call that returns a pointer, the address,
  \<open>0\<close> for \<^verbatim>\<open>NULL\<close>), \<^verbatim>\<open>errno\<close> after the call, and what the kernel stores in
  the argument of a successful \<^verbatim>\<open>ioctl\<close> (the fields of \<^verbatim>\<open>v4l2_capability\<close>,
  \<^verbatim>\<open>v4l2_format\<close> and \<^verbatim>\<open>v4l2_buffer\<close> the program reads); \<open>frame\<close> is the
  contents of the mapped buffer, for \<open>Read_buffer\<close>. For a call into the JPEG library,
  a negative value says that the library met an error (an image of no or too many pixels,
  no memory, a write to the output file that failed) and called its error handler; any
  other value, that the call returned.
\<close>

record reply =
  rv :: int
  err :: int
  cap_driver :: string
  cap_card :: string
  cap_capabilities :: u32
  pix_width :: u32
  pix_height :: u32
  buf_length :: u32
  buf_offset :: u32
  frame :: "byte list"

datatype arg = I int | S string

text \<open>
  What a run leaves behind, in order: the calls with their answers, and the messages of the
  program (\<^verbatim>\<open>perror\<close> with the value of \<^verbatim>\<open>errno\<close> it reports,
  \<^verbatim>\<open>fprintf(stderr, \<dots>)\<close> and \<^verbatim>\<open>printf\<close> with format and arguments).
\<close>

datatype event =
    Sys call reply
  | Perror string int
  | Stderr string "arg list"
  | Stdout string "arg list"

type_synonym env = "event list \<Rightarrow> call \<Rightarrow> reply"

record world =
  trace :: "event list"
  errno :: int

definition emit :: "world \<Rightarrow> event \<Rightarrow> world" where
  "emit w e = w\<lparr>trace := trace w @ [e]\<rparr>"

definition perror :: "world \<Rightarrow> string \<Rightarrow> world" where
  "perror w s = emit w (Perror s (errno w))"

definition sys :: "env \<Rightarrow> world \<Rightarrow> call \<Rightarrow> reply \<times> world" where
  "sys env w c = (let r = env (trace w) c in (r, (emit w (Sys c r))\<lparr>errno := err r\<rparr>))"

subsection \<open>Constants\<close>

definition DEFAULT_VIDEODEV :: string where "DEFAULT_VIDEODEV = ''/dev/video0''"
definition DEFAULT_OUTPUTFILE :: string where "DEFAULT_OUTPUTFILE = ''vcap.jpg''"
definition DEFAULT_WIDTH :: cint where "DEFAULT_WIDTH = 640"
definition DEFAULT_HEIGHT :: cint where "DEFAULT_HEIGHT = 480"
definition DEFAULT_JPEG_QUALITY :: int where "DEFAULT_JPEG_QUALITY = 95"

text \<open>
  Modelled from the spec: the two required capability flags, "supports capture" and
  "supports streaming I/O", the error codes "interrupted by a signal" and "invalid
  argument", and the non-zero exit status of a failure. The repository takes them from
  \<^verbatim>\<open>linux/videodev2.h\<close>, \<^verbatim>\<open>errno.h\<close>, \<^verbatim>\<open>sys/mman.h\<close> and \<^verbatim>\<open>stdlib.h\<close>, which
  are not part of it; the values are Linux's.
\<close>

definition V4L2_CAP_VIDEO_CAPTURE :: u32 where "V4L2_CAP_VIDEO_CAPTURE = 0x00000001"
definition V4L2_CAP_STREAMING :: u32 where "V4L2_CAP_STREAMING = 0x04000000"
definition EINTR :: int where "EINTR = 4"
definition EINVAL :: int where "EINVAL = 22"
definition MAP_FAILED :: int where "MAP_FAILED = - 1"
definition EXIT_FAILURE :: int where "EXIT_FAILURE = 1"

subsection \<open>The session: \<^verbatim>\<open>videoInfo_t\<close>\<close>

record videoInfo =
  width :: cint
  height :: cint
  fd :: int
  caps_driver :: string
  caps_card :: string
  caps_capabilities :: u32
  fmt_pix_width :: u32
  fmt_pix_height :: u32
  buffer :: int
  buffer_len :: size_t
  verbose :: bool

subsection \<open>\<^verbatim>\<open>xioctl\<close>\<close>

text \<open>
  \<^verbatim>\<open>do r = ioctl(fd, request, argp); while (-1 == r && EINTR == errno);\<close> A device that
  answers \<^verbatim>\<open>EINTR\<close> for ever keeps the loop running: the result is then \<open>None\<close>.
\<close>

partial_function (option) xioctl :: "env \<Rightarrow> world \<Rightarrow> int \<Rightarrow> request \<Rightarrow> (reply \<times> world) option" where
  "xioctl env w fdes request =
     (case sys env w (Ioctl fdes request) of
        (r, w') \<Rightarrow>
          if - 1 = rv r \<and> EINTR = errno w' then xioctl env w' fdes request
          else Some (r, w'))"

declare xioctl.simps [code]

subsection \<open>Capabilities, format, buffer\<close>

definition checkCapabilities :: "env \<Rightarrow> videoInfo \<Rightarrow> world \<Rightarrow> (bool \<times> videoInfo \<times> world) option" where
  "checkCapabilities env vi w = do {
     (r, w1) \<leftarrow> xioctl env w (fd vi) VIDIOC_QUERYCAP;
     if rv r < 0 then Some (False, vi, perror w1 ''ioctl(VIDIOC_QUERYCAP)'')
     else do {
       let vi1 = vi\<lparr>caps_driver := cap_driver r, caps_card := cap_card r,
                     caps_capabilities := cap_capabilities r\<rparr>;
       let w2 = (if verbose vi1 then
                   emit (emit (emit w1
                     (Stdout ''Driver: %s\<newline>'' [S (caps_driver vi1)]))
                     (Stdout ''Device: %s\<newline>'' [S (caps_card vi1)]))
                     (Stdout ''Caps  : %08x\<newline>'' [I (uint (caps_capabilities vi1))])
                 else w1);
       if caps_capabilities vi1 AND V4L2_CAP_VIDEO_CAPTURE = 0 then
         Some (False, vi1, emit w2 (Stderr ''Device does not support video capture\<newline>'' []))
       else if caps_capabilities vi1 AND V4L2_CAP_STREAMING = 0 then
         Some (False, vi1, emit w2 (Stderr ''Device does not support streaming i/o\<newline>'' []))
       else Some (True, vi1, w2)
     }
   }"

text \<open>
  \<^verbatim>\<open>vi->width\<close> is an \<^verbatim>\<open>int\<close> and \<^verbatim>\<open>pix.width\<close> a \<^verbatim>\<open>__u32\<close>: the assignments
  between them keep the 32 bits, and \<^verbatim>\<open>!=\<close> compares them as unsigned values.
\<close>

definition setFormat :: "env \<Rightarrow> videoInfo \<Rightarrow> world \<Rightarrow> (bool \<times> videoInfo \<times> world) option" where
  "setFormat env vi w = do {
     let vi1 = vi\<lparr>fmt_pix_width := width vi, fmt_pix_height := height vi\<rparr>;
     (r, w1) \<leftarrow> xioctl env w (fd vi1) (VIDIOC_S_FMT (fmt_pix_width vi1) (fmt_pix_height vi1));
     if rv r < 0 then Some (False, vi1, perror w1 ''ioctl(VIDIOC_S_FMT)'')
     else do {
       let vi2 = vi1\<lparr>fmt_pix_width := pix_width r, fmt_pix_height := pix_height r\<rparr>;
       (r', w2) \<leftarrow> xioctl env w1 (fd vi2) VIDIOC_G_FMT;
       if rv r' < 0 then Some (False, vi2, perror w2 ''ioctl(VIDIOC_C_FMT)'')
       else do {
         let vi3 = vi2\<lparr>fmt_pix_width := pix_width r', fmt_pix_height := pix_height r'\<rparr>;
         let (vi4, w3) =
           (if fmt_pix_width vi3 \<noteq> width vi3 then
              (vi3\<lparr>width := fmt_pix_width vi3\<rparr>,
               emit w2 (Stderr ''Warning: Selected width (%d) adjusted by driver to %d\<newline>''
                          [I (sint (width vi3)), I (sint (fmt_pix_width vi3))]))
            else (vi3, w2));
         let (vi5, w4) =
           (if fmt_pix_height vi4 \<noteq> height vi4 then
              (vi4\<lparr>height := fmt_pix_height vi4\<rparr>,
               emit w3 (Stderr ''Warning: Selected height (%d) adjusted by driver to %d\<newline>''
                          [I (sint (height vi4)), I (sint (fmt_pix_height vi4))]))
            else (vi4, w3));
         Some (True, vi5, w4)
       }
     }
   }"

definition allocBuffer :: "env \<Rightarrow> videoInfo \<Rightarrow> world \<Rightarrow> (bool \<times> videoInfo \<times> world) option" where
  "allocBuffer env vi w = do {
     (r, w1) \<leftarrow> xioctl env w (fd vi) VIDIOC_REQBUFS;
     if rv r < 0 then do {
       let w2 = (if errno w1 = EINVAL then
                   emit w1 (Stderr ''Capture device does not support mmapped buffers\<newline>'' [])
                 else w1);
       Some (False, vi, perror w2 ''ioctl(VIDIOC_REQBUFS)'')
     }
     else do {
       (mbuf, w2) \<leftarrow> xioctl env w1 (fd vi) VIDIOC_QUERYBUF;
       if rv mbuf < 0 then Some (False, vi, perror w2 ''ioctl(VIDIOC_QUERYBUF)'')
       else do {
         let (m, w3) = sys env w2 (Mmap (buf_length mbuf) (fd vi) (buf_offset mbuf));
         let vi1 = vi\<lparr>buffer := rv m\<rparr>;
         if buffer vi1 = MAP_FAILED then Some (False, vi1, perror w3 ''mmap()'')
         else Some (True, vi1\<lparr>buffer_len := ucast (buf_length mbuf)\<rparr>, w3)
       }
     }
   }"

definition releaseBuffer :: "env \<Rightarrow> videoInfo \<Rightarrow> world \<Rightarrow> world" where
  "releaseBuffer env vi w = snd (sys env w (Munmap (buffer vi) (buffer_len vi)))"

subsection \<open>Encoding and saving\<close>

text \<open>
  How a function ends: it returns a value, or the process is ended from inside it, with
  an exit status.
\<close>

datatype 'a outcome = Returns 'a | Exits int

text \<open>
  Calls into the JPEG library, one after the other. \<^verbatim>\<open>YUYV2JPEG\<close> installs the
  library's standard error handler (\<^verbatim>\<open>jpgInfo.err = jpeg_std_error(&jerr)\<close>) and sets no
  return point of its own: when a call meets an error, the handler prints the library's
  message and calls \<^verbatim>\<open>exit(EXIT_FAILURE)\<close>, so that the call does not return and
  nothing after it is run.
\<close>

fun jpeg_calls :: "env \<Rightarrow> world \<Rightarrow> call list \<Rightarrow> unit outcome \<times> world" where
  "jpeg_calls env w [] = (Returns (), w)"
| "jpeg_calls env w (c # cs) =
     (case sys env w c of
        (r, w1) \<Rightarrow> if rv r < 0 then (Exits EXIT_FAILURE, w1) else jpeg_calls env w1 cs)"

text \<open>
  \<^verbatim>\<open>while (jpgInfo.next_scanline < jpgInfo.image_height)\<close> with the compressor's
  answers: each turn converts one row with \<^const>\<open>row_loop\<close> (from the start of the
  row buffer) and hands it to \<^verbatim>\<open>jpeg_write_scanlines\<close>, which ends the process or
  takes the row and advances \<^verbatim>\<open>next_scanline\<close> by one (the compressor writes to a
  file and never asks to be called again with the same row).
\<close>

function write_loop ::
  "env \<Rightarrow> byte list \<Rightarrow> int \<Rightarrow> nat \<Rightarrow> nat \<Rightarrow> int \<times> nat \<Rightarrow> world \<Rightarrow> (unit outcome \<times> world) option" where
  "write_loop env buf w image_height next_scanline s wld =
     (if next_scanline < image_height then
        (case row_loop buf w 0 [] s of
           None \<Rightarrow> None
         | Some (row, s') \<Rightarrow>
             (case sys env wld (Jpeg_write_scanlines row) of
                (r, wld1) \<Rightarrow>
                  if rv r < 0 then Some (Exits EXIT_FAILURE, wld1)
                  else write_loop env buf w image_height (next_scanline + 1) s' wld1))
      else Some (Returns (), wld))"
  by pat_completeness auto
termination
  by (relation "measure (\<lambda>(env, buf, w, h, n, s, wld). h - n)") auto

declare write_loop.simps [simp del]

text \<open>
  \<^verbatim>\<open>YUYV2JPEG\<close>. The row buffer has \<^verbatim>\<open>vi->width * 3\<close> bytes (an \<^verbatim>\<open>int\<close> product,
  converted to \<^verbatim>\<open>size_t\<close>). The compressor takes the image's width and height as
  unsigned values. The bytes the loops read are those of the mapping,
  \<^verbatim>\<open>vi->buffer_len\<close> of them at most; a read outside it has no defined result, and the
  function then has none (\<open>None\<close>). \<^verbatim>\<open>z\<close> is 0 and \<^verbatim>\<open>yuyv\<close> at the start of the
  buffer when the loop starts, as in \<^const>\<open>convert\<close>.
\<close>

definition YUYV2JPEG :: "env \<Rightarrow> videoInfo \<Rightarrow> world \<Rightarrow> (bool outcome \<times> world) option" where
  "YUYV2JPEG env vi w =
     (let (row_buffer, w1) = sys env w (Calloc (scast (width vi * 3))) in
      if rv row_buffer = 0 then
        Some (Returns False, emit w1 (Stderr ''Line buffer allocation failed\<newline>'' []))
      else
        (case jpeg_calls env w1
                [Jpeg_create_compress, Jpeg_stdio_dest, Jpeg_set_defaults,
                 Jpeg_set_quality DEFAULT_JPEG_QUALITY,
                 Jpeg_start_compress (width vi) (height vi)] of
           (Exits status, w2) \<Rightarrow> Some (Exits status, w2)
         | (Returns started, w2) \<Rightarrow>
             (let (mem, w3) = sys env w2 (Read_buffer (buffer vi) (buffer_len vi));
                  yuyv = take (unat (buffer_len vi)) (frame mem)
              in case write_loop env yuyv (sint (width vi)) (unat (height vi)) 0 (0, 0) w3 of
                   None \<Rightarrow> None
                 | Some (Exits status, w4) \<Rightarrow> Some (Exits status, w4)
                 | Some (Returns written, w4) \<Rightarrow>
                     (case jpeg_calls env w4 [Jpeg_finish_compress, Jpeg_destroy_compress] of
                        (Exits status, w5) \<Rightarrow> Some (Exits status, w5)
                      | (Returns finished, w5) \<Rightarrow>
                          Some (Returns True, snd (sys env w5 Free))))))"

text \<open>
  \<^verbatim>\<open>saveImage\<close>: the value \<^verbatim>\<open>YUYV2JPEG\<close> returns is not looked at; when the process
  is ended inside \<^verbatim>\<open>YUYV2JPEG\<close>, nothing more is done.
\<close>

definition saveImage :: "env \<Rightarrow> string \<Rightarrow> videoInfo \<Rightarrow> world \<Rightarrow> (bool outcome \<times> world) option" where
  "saveImage env fname vi w =
     (let (file, w1) = sys env w (Fopen fname) in
      if rv file = 0 then Some (Returns False, perror w1 ''fopen()'')
      else
        (case YUYV2JPEG env vi w1 of
           None \<Rightarrow> None
         | Some (Exits status, w2) \<Rightarrow> Some (Exits status, w2)
         | Some (Returns encoded, w2) \<Rightarrow>
             (let w3 = snd (sys env w2 Fclose)
              in Some (Returns True, emit w3 (Stdout ''Saved image to %s\<newline>'' [S fname])))))"

subsection \<open>The capture cycle\<close>

definition captureImage :: "env \<Rightarrow> videoInfo \<Rightarrow> world \<Rightarrow> (bool \<times> world) option" where
  "captureImage env vi w = do {
     (q, w1) \<leftarrow> xioctl env w (fd vi) VIDIOC_QBUF;
     if rv q < 0 then Some (False, perror w1 ''ioctl(VIDIOC_QBUF)'')
     else do {
       (on, w2) \<leftarrow> xioctl env w1 (fd vi) VIDIOC_STREAMON;
       if rv on < 0 then Some (False, perror w2 ''ioctl(VIDIOC_STREAMON)'')
       else do {
         let (sel, w3) = sys env w2 (Select (fd vi) 5);
         if rv sel < 0 then Some (False, perror w3 ''select'')
         else if rv sel = 0 then
           Some (False, emit w3 (Stderr ''Timed out waiting for frame\<newline>'' []))
         else do {
           (dq, w4) \<leftarrow> xioctl env w3 (fd vi) VIDIOC_DQBUF;
           if rv dq < 0 then Some (False, perror w4 ''ioctl(VIDIOC_DQBUF)'')
           else do {
             (off, w5) \<leftarrow> xioctl env w4 (fd vi) VIDIOC_STREAMOFF;
             if rv off < 0 then Some (False, perror w5 ''ioctl(VIDIOC_STREAMOFF)'')
             else Some (True, w5)
           }
         }
       }
     }
   }"

subsection \<open>Opening the device\<close>

definition initVideoDevice ::
  "env \<Rightarrow> videoInfo \<Rightarrow> string option \<Rightarrow> world \<Rightarrow> (bool \<times> videoInfo \<times> world) option" where
  "initVideoDevice env vi vdev w =
     (case vdev of
        None \<Rightarrow> Some (False, vi, w)
      | Some path \<Rightarrow> do {
          let (opened, w1) = sys env w (Open path);
          let vi1 = vi\<lparr>fd := rv opened\<rparr>;
          if fd vi1 < 0 then Some (False, vi1, perror w1 ''open()'')
          else do {
            (ok, vi2, w2) \<leftarrow> checkCapabilities env vi1 w1;
            if \<not> ok then do {
              let w3 = snd (sys env w2 (Close (fd vi2)));
              Some (False, vi2\<lparr>fd := - 1\<rparr>, w3)
            }
            else Some (True, vi2, w2)
          }
        })"

subsection \<open>\<^verbatim>\<open>main\<close>\<close>

definition printUsage :: "world \<Rightarrow> world" where
  "printUsage w =
     foldl emit w
       [Stdout ''Usage: vcap [-d path ] [-o path ] [ -w width ]\<newline>'' [],
        Stdout ''            [ -h height ] [ -v ]\<newline>\<newline>'' [],
        Stdout ''    -d <path>        video device, default: %s\<newline>'' [S DEFAULT_VIDEODEV],
        Stdout ''    -o <path>        image output file, default: %s\<newline>''
          [S DEFAULT_OUTPUTFILE],
        Stdout ''    -w width         image width, default: 640\<newline>'' [],
        Stdout ''    -h height        image height, default: 480\<newline>'' [],
        Stdout ''    -v               be verbose.\<newline>'' []]"

text \<open>
  The option loop. Its input is what the successive calls of
  \<^verbatim>\<open>getopt(argc, argv, "d:o:w:h:v")\<close> return before \<^verbatim>\<open>EOF\<close>: each an option character
  with the value of \<^verbatim>\<open>optarg\<close>. \<^verbatim>\<open>atoi\<close> is the C library's and is a parameter. The
  result is \<open>Inl\<close> when \<^verbatim>\<open>main\<close> returns 1 from the \<^verbatim>\<open>default\<close> branch.
\<close>

fun getopt_loop ::
  "(string \<Rightarrow> cint) \<Rightarrow> (char \<times> string) list \<Rightarrow> videoInfo \<times> string \<times> string \<times> world \<Rightarrow>
   world + videoInfo \<times> string \<times> string \<times> world" where
  "getopt_loop atoi [] st = Inr st"
| "getopt_loop atoi ((i, optarg) # rest) (VI, videoDevice, outputFile, w) =
     (if i = CHR ''d'' then getopt_loop atoi rest (VI, optarg, outputFile, w)
      else if i = CHR ''o'' then getopt_loop atoi rest (VI, videoDevice, optarg, w)
      else if i = CHR ''w'' then
        (let VI1 = VI\<lparr>width := atoi optarg\<rparr> in
         if width VI1 = 0 then
           getopt_loop atoi rest
             (VI1\<lparr>width := DEFAULT_WIDTH\<rparr>, videoDevice, outputFile,
              emit w (Stderr ''Invalid width, using default\<newline>'' []))
         else getopt_loop atoi rest (VI1, videoDevice, outputFile, w))
      else if i = CHR ''h'' then
        (let VI1 = VI\<lparr>height := atoi optarg\<rparr> in
         if height VI1 = 0 then
           getopt_loop atoi rest
             (VI1\<lparr>height := DEFAULT_HEIGHT\<rparr>, videoDevice, outputFile,
              emit w (Stderr ''Invalid height, using default\<newline>'' []))
         else getopt_loop atoi rest (VI1, videoDevice, outputFile, w))
      else if i = CHR ''v'' then
        getopt_loop atoi rest (VI\<lparr>verbose := True\<rparr>, videoDevice, outputFile, w)
      else Inl (printUsage w))"

text \<open>The session and the world as \<^verbatim>\<open>main\<close> starts.\<close>

definition VI_init :: videoInfo where
  "VI_init =
     \<lparr>width = DEFAULT_WIDTH, height = DEFAULT_HEIGHT, fd = - 1, caps_driver = [],
      caps_card = [], caps_capabilities = 0, fmt_pix_width = 0, fmt_pix_height = 0,
      buffer = 0, buffer_len = 0, verbose = False\<rparr>"

definition world_init :: world where
  "world_init = \<lparr>trace = [], errno = 0\<rparr>"

text \<open>
  \<^verbatim>\<open>main\<close>: the exit status of the process and the world it leaves. The status is
  what \<^verbatim>\<open>main\<close> returns, or the one the process was ended with inside
  \<^verbatim>\<open>saveImage\<close>.
\<close>

definition main :: "env \<Rightarrow> (string \<Rightarrow> cint) \<Rightarrow> (char \<times> string) list \<Rightarrow> (int \<times> world) option" where
  "main env atoi opts =
     (case getopt_loop atoi opts (VI_init, DEFAULT_VIDEODEV, DEFAULT_OUTPUTFILE, world_init) of
        Inl w \<Rightarrow> Some (1, w)
      | Inr (VI, videoDevice, outputFile, w) \<Rightarrow> do {
          (ok, VI, w) \<leftarrow> initVideoDevice env VI (Some videoDevice) w;
          if \<not> ok then Some (1, w)
          else do {
            (ok, VI, w) \<leftarrow> setFormat env VI w;
            if \<not> ok then Some (1, snd (sys env w (Close (fd VI))))
            else do {
              (ok, VI, w) \<leftarrow> allocBuffer env VI w;
              if \<not> ok then Some (1, snd (sys env w (Close (fd VI))))
              else do {
                (ok, w) \<leftarrow> captureImage env VI w;
                if \<not> ok then do {
                  let w = emit w (Stderr ''Error capturing initial frame, exiting\<newline>'' []);
                  let w = releaseBuffer env VI w;
                  Some (1, snd (sys env w (Close (fd VI))))
                }
                else do {
                  (ok, w) \<leftarrow> captureImage env VI w;
                  if ok then
                    (case saveImage env outputFile VI w of
                       None \<Rightarrow> None
                     | Some (Exits status, w) \<Rightarrow> Some (status, w)
                     | Some (Returns saved, w) \<Rightarrow> do {
                         let w = releaseBuffer env VI w;
                         Some (0, snd (sys env w (Close (fd VI))))
                       })
                  else do {
                    let w = releaseBuffer env VI w;
                    Some (0, snd (sys env w (Close (fd VI))))
                  }
                }
              }
            }
          }
        })"

subsection \<open>The conversion as the specification words it\<close>

text \<open>
  The specification gives the conversion per pair of horizontally adjacent pixels, packed
  as the 4 bytes \<open>Y0, U, Y1, V\<close>: \<open>y0 = Y0 << 8\<close>, \<open>y1 = Y1 << 8\<close>, \<open>u = U - 128\<close>,
  \<open>v = V - 128\<close>, and for each of the two output pixels, with its own \<open>y\<close> and the shared
  \<open>u\<close>, \<open>v\<close>: \<open>r = (y + 359*v) >> 8\<close>, \<open>g = (y - 88*u - 183*v) >> 8\<close>,
  \<open>b = (y + 454*u) >> 8\<close>, each clamped to \<open>[0, 255]\<close>.
\<close>

definition spec_clamp :: "int \<Rightarrow> int" where
  "spec_clamp c = max 0 (min 255 c)"

definition spec_rgb :: "int \<Rightarrow> int \<Rightarrow> int \<Rightarrow> byte list" where
  "spec_rgb y u v =
     [word_of_int (spec_clamp (drop_bit 8 (y + 359 * v))),
      word_of_int (spec_clamp (drop_bit 8 (y - 88 * u - 183 * v))),
      word_of_int (spec_clamp (drop_bit 8 (y + 454 * u)))]"

definition spec_pair :: "byte \<Rightarrow> byte \<Rightarrow> byte \<Rightarrow> byte \<Rightarrow> byte list" where
  "spec_pair Y0 U Y1 V =
     (let y0 = push_bit 8 (uint Y0); y1 = push_bit 8 (uint Y1);
          u = uint U - 128; v = uint V - 128
      in spec_rgb y0 u v @ spec_rgb y1 u v)"

text \<open>The six output bytes the specification gives for the group of 4 bytes at offset \<open>q\<close>.\<close>

definition group_at :: "byte list \<Rightarrow> nat \<Rightarrow> byte list" where
  "group_at buf q = spec_pair (buf ! q) (buf ! (q + 1)) (buf ! (q + 2)) (buf ! (q + 3))"

subsection \<open>Example buffers\<close>

text \<open>The specification's fixture: a 2\<times>2 image, luma 16 and chroma 128 throughout.\<close>

definition fixture :: "byte list" where
  "fixture = [16, 128, 16, 128, 16, 128, 16, 128]"

text \<open>A 2\<times>2 image whose first row clamps at both ends of the range.\<close>

definition sample :: "byte list" where
  "sample = [76, 84, 255, 255, 0, 128, 200, 16]"

subsection \<open>Reading a trace\<close>

text \<open>
  The part of the run an event belongs to: opening and closing the device, the capability
  query, format negotiation, the buffer (request, query, map, unmap), the capture cycle,
  saving (the output file, the row buffer, the compressor), or a message.
\<close>

datatype phase = Opening | Closing | Capabilities | Format | Buffer | Capture | Saving | Message

fun request_phase :: "request \<Rightarrow> phase" where
  "request_phase VIDIOC_QUERYCAP = Capabilities"
| "request_phase (VIDIOC_S_FMT rw rh) = Format"
| "request_phase VIDIOC_G_FMT = Format"
| "request_phase VIDIOC_REQBUFS = Buffer"
| "request_phase VIDIOC_QUERYBUF = Buffer"
| "request_phase VIDIOC_QBUF = Capture"
| "request_phase VIDIOC_STREAMON = Capture"
| "request_phase VIDIOC_DQBUF = Capture"
| "request_phase VIDIOC_STREAMOFF = Capture"

fun call_phase :: "call \<Rightarrow> phase" where
  "call_phase (Open path) = Opening"
| "call_phase (Close fdes) = Closing"
| "call_phase (Ioctl fdes req) = request_phase req"
| "call_phase (Mmap len fdes off) = Buffer"
| "call_phase (Munmap addr len) = Buffer"
| "call_phase (Select fdes secs) = Capture"
| "call_phase (Fopen path) = Saving"
| "call_phase Fclose = Saving"
| "call_phase (Calloc n) = Saving"
| "call_phase Free = Saving"
| "call_phase (Read_buffer addr len) = Saving"
| "call_phase Jpeg_create_compress = Saving"
| "call_phase Jpeg_stdio_dest = Saving"
| "call_phase Jpeg_set_defaults = Saving"
| "call_phase (Jpeg_set_quality q) = Saving"
| "call_phase (Jpeg_start_compress iw ih) = Saving"
| "call_phase (Jpeg_write_scanlines row) = Saving"
| "call_phase Jpeg_finish_compress = Saving"
| "call_phase Jpeg_destroy_compress = Saving"

fun phase_of :: "event \<Rightarrow> phase" where
  "phase_of (Sys c r) = call_phase c"
| "phase_of (Perror s n) = Message"
| "phase_of (Stderr s a) = Message"
| "phase_of (Stdout s a) = Message"

definition is_perror :: "event \<Rightarrow> bool" where
  "is_perror e = (case e of Perror s n \<Rightarrow> True | _ \<Rightarrow> False)"

text \<open>
  The calls of a trace, without their answers; its messages; the scanlines handed to the
  compressor.
\<close>

definition calls :: "event list \<Rightarrow> call list" where
  "calls tr = concat (map (\<lambda>e. case e of Sys c r \<Rightarrow> [c] | _ \<Rightarrow> []) tr)"

definition messages :: "event list \<Rightarrow> event list" where
  "messages tr = filter (\<lambda>e. phase_of e = Message) tr"

definition scanlines :: "event list \<Rightarrow> byte list list" where
  "scanlines tr =
     concat (map (\<lambda>e. case e of Sys (Jpeg_write_scanlines row) r \<Rightarrow> [row] | _ \<Rightarrow> []) tr)"

text \<open>A call into the JPEG library that met an error, and so did not return.\<close>

definition is_jpeg :: "call \<Rightarrow> bool" where
  "is_jpeg c \<longleftrightarrow>
     (case c of
        Jpeg_create_compress \<Rightarrow> True | Jpeg_stdio_dest \<Rightarrow> True | Jpeg_set_defaults \<Rightarrow> True
      | Jpeg_set_quality q \<Rightarrow> True | Jpeg_start_compress iw ih \<Rightarrow> True
      | Jpeg_write_scanlines row \<Rightarrow> True | Jpeg_finish_compress \<Rightarrow> True
      | Jpeg_destroy_compress \<Rightarrow> True | _ \<Rightarrow> False)"

definition jpeg_failed :: "event \<Rightarrow> bool" where
  "jpeg_failed e = (case e of Sys c r \<Rightarrow> is_jpeg c \<and> rv r < 0 | _ \<Rightarrow> False)"

text \<open>What was added to the trace between the worlds \<open>w\<close> and \<open>w'\<close>.\<close>

definition added :: "world \<Rightarrow> world \<Rightarrow> event list" where
  "added w w' = drop (length (trace w)) (trace w')"

text \<open>
  When \<^verbatim>\<open>xioctl\<close> returns, it has issued the request some number of times, each but the
  last answered \<open>-1\<close> with \<^verbatim>\<open>EINTR\<close>, and returns the last answer, which is not that.
\<close>

definition xioctl_post :: "world \<Rightarrow> int \<Rightarrow> request \<Rightarrow> reply \<times> world \<Rightarrow> bool" where
  "xioctl_post w fdes req y \<longleftrightarrow>
     (\<exists>rs. trace (snd y) =
             trace w @ map (Sys (Ioctl fdes req)) rs @ [Sys (Ioctl fdes req) (fst y)]
      \<and> (\<forall>x\<in>set rs. rv x = - 1 \<and> err x = EINTR)
      \<and> \<not> (rv (fst y) = - 1 \<and> err (fst y) = EINTR) \<and> errno (snd y) = err (fst y))"

text \<open>Both required capability flags are present in the answer to the query.\<close>

definition caps_ok :: "reply \<Rightarrow> bool" where
  "caps_ok r \<longleftrightarrow> cap_capabilities r AND V4L2_CAP_VIDEO_CAPTURE \<noteq> 0
     \<and> cap_capabilities r AND V4L2_CAP_STREAMING \<noteq> 0"

text \<open>The messages the theorems are about.\<close>

abbreviation no_capture_msg :: event where
  "no_capture_msg \<equiv> Stderr ''Device does not support video capture\<newline>'' []"

abbreviation no_streaming_msg :: event where
  "no_streaming_msg \<equiv> Stderr ''Device does not support streaming i/o\<newline>'' []"

abbreviation timed_out_msg :: event where
  "timed_out_msg \<equiv> Stderr ''Timed out waiting for frame\<newline>'' []"

abbreviation saved_msg :: "string \<Rightarrow> event" where
  "saved_msg fname \<equiv> Stdout ''Saved image to %s\<newline>'' [S fname]"

abbreviation invalid_width_msg :: event where
  "invalid_width_msg \<equiv> Stderr ''Invalid width, using default\<newline>'' []"

abbreviation invalid_height_msg :: event where
  "invalid_height_msg \<equiv> Stderr ''Invalid height, using default\<newline>'' []"

abbreviation width_adjusted_msg :: "cint \<Rightarrow> u32 \<Rightarrow> event" where
  "width_adjusted_msg req got \<equiv>
     Stderr ''Warning: Selected width (%d) adjusted by driver to %d\<newline>''
       [I (sint req), I (sint got)]"

abbreviation height_adjusted_msg :: "cint \<Rightarrow> u32 \<Rightarrow> event" where
  "height_adjusted_msg req got \<equiv>
     Stderr ''Warning: Selected height (%d) adjusted by driver to %d\<newline>''
       [I (sint req), I (sint got)]"

text \<open>
  Modelled from the spec: the device's side of the capture cycle, which is the kernel's and
  not the repository's. Enabling streaming succeeds: the device streams; disabling it
  succeeds, or the device is closed: it is idle again.
\<close>

fun streaming_step :: "bool \<Rightarrow> event \<Rightarrow> bool" where
  "streaming_step s (Sys (Ioctl fdes VIDIOC_STREAMON) r) = (if 0 \<le> rv r then True else s)"
| "streaming_step s (Sys (Ioctl fdes VIDIOC_STREAMOFF) r) = (if 0 \<le> rv r then False else s)"
| "streaming_step s (Sys (Close fdes) r) = (if 0 \<le> rv r then False else s)"
| "streaming_step s e = s"

definition streaming :: "event list \<Rightarrow> bool" where
  "streaming tr = foldl streaming_step False tr"

subsection \<open>The options as the interface describes them\<close>

text \<open>
  The width (option \<open>w\<close>) or height (option \<open>h\<close>) a command line asks for: the last such
  option decides, by its numeric parse if that is not 0, else by the default; with no such
  option it is the default.
\<close>

definition requested :: "(string \<Rightarrow> cint) \<Rightarrow> char \<Rightarrow> cint \<Rightarrow> (char \<times> string) list \<Rightarrow> cint" where
  "requested atoi c dflt opts =
     (case rev (filter (\<lambda>(i, a). i = c) opts) of
        [] \<Rightarrow> dflt
      | (i, a) # earlier \<Rightarrow> if atoi a = 0 then dflt else atoi a)"

text \<open>The warning an option causes.\<close>

definition option_warning :: "(string \<Rightarrow> cint) \<Rightarrow> char \<times> string \<Rightarrow> event list" where
  "option_warning atoi opt =
     (case opt of (i, a) \<Rightarrow>
        if i = CHR ''w'' \<and> atoi a = 0 then [invalid_width_msg]
        else if i = CHR ''h'' \<and> atoi a = 0 then [invalid_height_msg]
        else [])"

text \<open>The warnings of a command line, in order.\<close>

definition option_warnings :: "(string \<Rightarrow> cint) \<Rightarrow> (char \<times> string) list \<Rightarrow> event list" where
  "option_warnings atoi opts = concat (map (option_warning atoi) opts)"

text \<open>Every option character is one \<^verbatim>\<open>main\<close> knows.\<close>

definition known_options :: "(char \<times> string) list \<Rightarrow> bool" where
  "known_options opts = list_all (\<lambda>(i, a). i \<in> set ''dowhv'') opts"

subsection \<open>Example environments\<close>

text \<open>
  A decimal parse in the way of the C library's \<^verbatim>\<open>atoi\<close>: leading white space, an
  optional sign, then digits up to the first character that is none, and 0 when there is
  no digit. It serves the examples; the theorems hold for any parse.
\<close>

definition is_space :: "char \<Rightarrow> bool" where
  "is_space c \<longleftrightarrow> c \<in> set [CHR '' '', CHR 0x09, CHR 0x0A, CHR 0x0B, CHR 0x0C, CHR 0x0D]"

fun digits :: "int \<Rightarrow> string \<Rightarrow> int" where
  "digits acc [] = acc"
| "digits acc (c # cs) =
     (if 48 \<le> (of_char c :: nat) \<and> (of_char c :: nat) \<le> 57
      then digits (acc * 10 + (of_char c - 48)) cs else acc)"

definition atoi_dec :: "string \<Rightarrow> cint" where
  "atoi_dec s =
     (case dropWhile is_space s of
        [] \<Rightarrow> 0
      | c # cs \<Rightarrow>
          if c = CHR ''-'' then word_of_int (- digits 0 cs)
          else if c = CHR ''+'' then word_of_int (digits 0 cs)
          else word_of_int (digits 0 (c # cs)))"

text \<open>
  A camera of 2\<times>2 pixels that works: every call succeeds, the device has both capability
  flags, confirms the format as 2\<times>2 whatever was asked, has a buffer of 8 bytes and
  delivers the frame \<^const>\<open>sample\<close>.
\<close>

definition answer :: reply where
  "answer = \<lparr>rv = 0, err = 0, cap_driver = ''uvcvideo'', cap_card = ''camera'',
     cap_capabilities = 0x04000001, pix_width = 2, pix_height = 2, buf_length = 8,
     buf_offset = 0, frame = sample\<rparr>"

definition camera :: env where
  "camera tr c =
     (case c of
        Open path \<Rightarrow> answer\<lparr>rv := 3\<rparr>
      | Mmap len fdes off \<Rightarrow> answer\<lparr>rv := 4096\<rparr>
      | Select fdes secs \<Rightarrow> answer\<lparr>rv := 1\<rparr>
      | Fopen path \<Rightarrow> answer\<lparr>rv := 8192\<rparr>
      | Calloc n \<Rightarrow> answer\<lparr>rv := 12288\<rparr>
      | _ \<Rightarrow> answer)"

text \<open>The same camera, but no frame is ever ready: every wait expires.\<close>

definition camera_asleep :: env where
  "camera_asleep tr c = (case c of Select fdes secs \<Rightarrow> answer | _ \<Rightarrow> camera tr c)"

text \<open>The same camera, but only the first wait finds a frame: every later one expires.\<close>

definition camera_late :: env where
  "camera_late tr c =
     (case c of
        Select fdes secs \<Rightarrow>
          if Select fdes secs \<in> set (calls tr) then answer else answer\<lparr>rv := 1\<rparr>
      | _ \<Rightarrow> camera tr c)"

text \<open>The same camera, but the device lacks the streaming flag.\<close>

definition camera_no_streaming :: env where
  "camera_no_streaming tr c =
     (case c of
        Ioctl fdes req \<Rightarrow>
          if req = VIDIOC_QUERYCAP then answer\<lparr>cap_capabilities := 0x00000001\<rparr> else answer
      | _ \<Rightarrow> camera tr c)"

text \<open>The same camera, but \<^verbatim>\<open>calloc\<close> has no memory to give.\<close>

definition camera_no_memory :: env where
  "camera_no_memory tr c = (case c of Calloc n \<Rightarrow> answer | _ \<Rightarrow> camera tr c)"

text \<open>
  The same camera, but the output file cannot be written (as \<^verbatim>\<open>/dev/full\<close>): the
  compressor meets the error when it flushes its output at the end of the image.
\<close>

definition camera_disk_full :: env where
  "camera_disk_full tr c =
     (case c of Jpeg_finish_compress \<Rightarrow> answer\<lparr>rv := - 1\<rparr> | _ \<Rightarrow> camera tr c)"

text \<open>
  A camera of 4\<times>1 pixels that works: as \<^const>\<open>camera\<close>, but it confirms the format
  as 4\<times>1 whatever was asked; the 8 bytes of \<^const>\<open>sample\<close> are its one row.
\<close>

definition camera_wide :: env where
  "camera_wide tr c = (camera tr c)\<lparr>pix_width := 4, pix_height := 1\<rparr>"

text \<open>The same camera, but every \<^verbatim>\<open>ioctl\<close> is interrupted by a signal once before it is answered.\<close>

definition camera_interrupted :: env where
  "camera_interrupted tr c =
     (case c of
        Ioctl fdes req \<Rightarrow>
          if tr \<noteq> [] \<and> last tr = Sys c (answer\<lparr>rv := - 1, err := EINTR\<rparr>) then answer
          else answer\<lparr>rv := - 1, err := EINTR\<rparr>
      | _ \<Rightarrow> camera tr c)"

text \<open>A session on descriptor 3 with the 2\<times>2 format and the buffer mapped.\<close>

definition VI_ready :: videoInfo where
  "VI_ready = VI_init\<lparr>width := 2, height := 2, fd := 3, buffer := 4096, buffer_len := 8\<rparr>"

text \<open>The command line \<^verbatim>\<open>-w 2 -h 2\<close>.\<close>

definition opts_2x2 :: "(char \<times> string) list" where
  "opts_2x2 = [(CHR ''w'', ''2''), (CHR ''h'', ''2'')]"

text \<open>The command line \<^verbatim>\<open>-w -5 -h abc\<close>.\<close>

definition opts_minus5 :: "(char \<times> string) list" where
  "opts_minus5 = [(CHR ''w'', ''-5''), (CHR ''h'', ''abc'')]"

subsection \<open>What the functions do, in words of the trace\<close>

text \<open>The effect of one option on the session.\<close>

definition apply_option :: "(string \<Rightarrow> cint) \<Rightarrow> char \<times> string \<Rightarrow> videoInfo \<Rightarrow> videoInfo" where
  "apply_option atoi opt VI =
     (case opt of (i, a) \<Rightarrow>
        if i = CHR ''w'' then VI\<lparr>width := (if atoi a = 0 then DEFAULT_WIDTH else atoi a)\<rparr>
        else if i = CHR ''h'' then VI\<lparr>height := (if atoi a = 0 then DEFAULT_HEIGHT else atoi a)\<rparr>
        else if i = CHR ''v'' then VI\<lparr>verbose := True\<rparr>
        else VI)"

text \<open>
  The value the last option \<open>c\<close> of a command line leaves, starting from \<open>cur\<close>.
\<close>

definition last_option :: "(string \<Rightarrow> cint) \<Rightarrow> char \<Rightarrow> cint \<Rightarrow> cint \<Rightarrow> (char \<times> string) list \<Rightarrow> cint" where
  "last_option atoi c dflt cur opts =
     (case rev (filter (\<lambda>(i, a). i = c) opts) of
        [] \<Rightarrow> cur
      | (i, a) # earlier \<Rightarrow> if atoi a = 0 then dflt else atoi a)"

text \<open>
  What \<^verbatim>\<open>checkCapabilities\<close> prints once the query is answered: the three lines of the
  verbose mode, then the complaint about the first missing flag.
\<close>

definition caps_messages :: "videoInfo \<Rightarrow> reply \<Rightarrow> event list" where
  "caps_messages vi r =
     (if verbose vi then
        [Stdout ''Driver: %s\<newline>'' [S (cap_driver r)],
         Stdout ''Device: %s\<newline>'' [S (cap_card r)],
         Stdout ''Caps  : %08x\<newline>'' [I (uint (cap_capabilities r))]]
      else []) @
     (if cap_capabilities r AND V4L2_CAP_VIDEO_CAPTURE = 0 then [no_capture_msg]
      else if cap_capabilities r AND V4L2_CAP_STREAMING = 0 then [no_streaming_msg]
      else [])"

text \<open>
  What \<^verbatim>\<open>setFormat\<close> does with the format \<open>r\<close> read back from the driver: the session
  takes its width and height, and each one that differs from the session's is reported.
\<close>

definition format_warnings :: "videoInfo \<Rightarrow> reply \<Rightarrow> event list" where
  "format_warnings vi r =
     (if pix_width r \<noteq> width vi then [width_adjusted_msg (width vi) (pix_width r)] else []) @
     (if pix_height r \<noteq> height vi then [height_adjusted_msg (height vi) (pix_height r)] else [])"

definition format_adopted :: "videoInfo \<Rightarrow> reply \<Rightarrow> videoInfo" where
  "format_adopted vi r =
     vi\<lparr>width := pix_width r, height := pix_height r,
        fmt_pix_width := pix_width r, fmt_pix_height := pix_height r\<rparr>"

text \<open>
  What each part of a run may add to the trace; \<open>b\<close> is what the function returned.
  No part before saving reports an image as saved.
  Opening the device: if the capability query was answered, the result says whether both
  flags are there, nothing was reported through \<^verbatim>\<open>perror\<close>, and a missing flag was
  reported.
\<close>

definition caps_report :: "bool \<Rightarrow> event list \<Rightarrow> bool" where
  "caps_report b evs \<longleftrightarrow>
     (\<forall>fdes r. Sys (Ioctl fdes VIDIOC_QUERYCAP) r \<in> set evs \<longrightarrow> 0 \<le> rv r \<longrightarrow>
        (b \<longleftrightarrow> caps_ok r) \<and> (\<forall>e\<in>set evs. \<not> is_perror e)
        \<and> (cap_capabilities r AND V4L2_CAP_VIDEO_CAPTURE = 0 \<longrightarrow> no_capture_msg \<in> set evs)
        \<and> (cap_capabilities r AND V4L2_CAP_VIDEO_CAPTURE \<noteq> 0 \<longrightarrow>
             cap_capabilities r AND V4L2_CAP_STREAMING = 0 \<longrightarrow> no_streaming_msg \<in> set evs))"

definition init_events :: "bool \<Rightarrow> event list \<Rightarrow> bool" where
  "init_events b evs \<longleftrightarrow>
     (\<forall>e\<in>set evs. phase_of e \<in> {Opening, Closing, Capabilities, Message}
        \<and> (\<forall>f. e \<noteq> saved_msg f))
     \<and> caps_report b evs"

text \<open>
  Format negotiation: the format asked for is \<open>rw \<times> rh\<close>; a format read back makes the
  negotiation succeed and is the session's \<open>W \<times> H\<close> from then on.
\<close>

definition format_events :: "bool \<Rightarrow> cint \<Rightarrow> cint \<Rightarrow> cint \<Rightarrow> cint \<Rightarrow> event list \<Rightarrow> bool" where
  "format_events b rw rh W H evs \<longleftrightarrow>
     (\<forall>e\<in>set evs. phase_of e \<in> {Format, Message} \<and> (\<forall>f. e \<noteq> saved_msg f))
     \<and> (\<forall>fdes x y r. Sys (Ioctl fdes (VIDIOC_S_FMT x y)) r \<in> set evs \<longrightarrow> x = rw \<and> y = rh)
     \<and> (\<forall>fdes r. Sys (Ioctl fdes VIDIOC_G_FMT) r \<in> set evs \<longrightarrow> 0 \<le> rv r \<longrightarrow>
           b \<and> W = pix_width r \<and> H = pix_height r)
     \<and> (b \<longrightarrow> (\<exists>fdes r. Sys (Ioctl fdes VIDIOC_G_FMT) r \<in> set evs \<and> 0 \<le> rv r))"

definition buffer_events :: "event list \<Rightarrow> bool" where
  "buffer_events evs \<longleftrightarrow>
     (\<forall>e\<in>set evs. phase_of e \<in> {Buffer, Message} \<and> (\<forall>f. e \<noteq> saved_msg f))"

text \<open>
  A capture cycle: a wait that expired makes the cycle fail with the time-out message and
  nothing reported through \<^verbatim>\<open>perror\<close>; a cycle that succeeded printed nothing.
\<close>

definition capture_events :: "bool \<Rightarrow> event list \<Rightarrow> bool" where
  "capture_events b evs \<longleftrightarrow>
     (\<forall>e\<in>set evs. phase_of e \<in> {Capture, Message})
     \<and> (\<forall>fdes secs r. Sys (Select fdes secs) r \<in> set evs \<longrightarrow> rv r = 0 \<longrightarrow>
           \<not> b \<and> timed_out_msg \<in> set evs \<and> (\<forall>e\<in>set evs. \<not> is_perror e))
     \<and> (b \<longrightarrow> (\<forall>e\<in>set evs. phase_of e \<noteq> Message))"

text \<open>
  How a part of a run that ended with \<open>res\<close> shows in its events: if it returned, no
  call into the JPEG library met an error; if the process was ended, it was with the status
  of a failure, and the one call that met an error is the last event.
\<close>

definition ends :: "'a outcome \<Rightarrow> event list \<Rightarrow> bool" where
  "ends res evs \<longleftrightarrow>
     (case res of
        Returns x \<Rightarrow> \<forall>e\<in>set evs. \<not> jpeg_failed e
      | Exits status \<Rightarrow>
          status = EXIT_FAILURE \<and> evs \<noteq> [] \<and> jpeg_failed (last evs)
          \<and> (\<forall>e\<in>set (butlast evs). \<not> jpeg_failed e))"

text \<open>The calls that set the compressor up, in the order \<^verbatim>\<open>YUYV2JPEG\<close> makes them.\<close>

abbreviation jpeg_setup :: "videoInfo \<Rightarrow> call list" where
  "jpeg_setup vi \<equiv>
     [Jpeg_create_compress, Jpeg_stdio_dest, Jpeg_set_defaults,
      Jpeg_set_quality DEFAULT_JPEG_QUALITY, Jpeg_start_compress (width vi) (height vi)]"

text \<open>
  What \<^verbatim>\<open>YUYV2JPEG\<close> adds, for a session of \<open>W \<times> H\<close>: the row buffer has \<open>3 * W\<close>
  bytes and the compressor is given \<open>W \<times> H\<close>; the scanlines handed to the compressor are
  the first rows of the conversion, at width \<open>W\<close>, of the mapped buffer as it was read, and
  all \<open>H\<close> of them when the end of the image is reached; no file is opened and nothing is
  reported as saved.
\<close>

definition encode_events :: "'a outcome \<Rightarrow> cint \<Rightarrow> cint \<Rightarrow> event list \<Rightarrow> bool" where
  "encode_events res W H evs \<longleftrightarrow>
     (\<forall>e\<in>set evs. phase_of e \<in> {Saving, Message})
     \<and> (\<forall>n x. Sys (Calloc n) x \<in> set evs \<longrightarrow> n = scast (W * 3))
     \<and> (\<forall>iw ih x. Sys (Jpeg_start_compress iw ih) x \<in> set evs \<longrightarrow> iw = W \<and> ih = H)
     \<and> (\<forall>addr len mem. Sys (Read_buffer addr len) mem \<in> set evs \<longrightarrow>
           (\<exists>k\<le>unat H. scanline_loop (take (unat len) (frame mem)) (sint W) k 0 [] (0, 0)
                          = Some (scanlines evs))
         \<and> (\<forall>x. Sys Jpeg_finish_compress x \<in> set evs \<longrightarrow>
               convert (take (unat len) (frame mem)) W H = Some (scanlines evs)))
     \<and> ((\<forall>addr len mem. Sys (Read_buffer addr len) mem \<notin> set evs) \<longrightarrow> scanlines evs = [])
     \<and> ends res evs
     \<and> (\<forall>path r. Sys (Fopen path) r \<notin> set evs)
     \<and> (\<forall>f. saved_msg f \<notin> set evs)"

text \<open>
  Saving, for a session of \<open>W \<times> H\<close>; \<open>res\<close> is how \<^verbatim>\<open>saveImage\<close> ended. The same
  holds of the row buffer, the compressor and the scanlines. When the process was ended,
  nothing was reported as saved; when \<^verbatim>\<open>saveImage\<close> returned, an output file that
  could be opened is reported as saved.
\<close>

definition save_events :: "bool outcome \<Rightarrow> string \<Rightarrow> cint \<Rightarrow> cint \<Rightarrow> event list \<Rightarrow> bool" where
  "save_events res fname W H evs \<longleftrightarrow>
     (\<forall>e\<in>set evs. phase_of e \<in> {Saving, Message})
     \<and> (\<forall>n x. Sys (Calloc n) x \<in> set evs \<longrightarrow> n = scast (W * 3))
     \<and> (\<forall>iw ih x. Sys (Jpeg_start_compress iw ih) x \<in> set evs \<longrightarrow> iw = W \<and> ih = H)
     \<and> (\<forall>addr len mem. Sys (Read_buffer addr len) mem \<in> set evs \<longrightarrow>
           (\<exists>k\<le>unat H. scanline_loop (take (unat len) (frame mem)) (sint W) k 0 [] (0, 0)
                          = Some (scanlines evs))
         \<and> (\<forall>x. Sys Jpeg_finish_compress x \<in> set evs \<longrightarrow>
               convert (take (unat len) (frame mem)) W H = Some (scanlines evs)))
     \<and> ((\<forall>addr len mem. Sys (Read_buffer addr len) mem \<notin> set evs) \<longrightarrow> scanlines evs = [])
     \<and> ends res evs
     \<and> (\<forall>status. res = Exits status \<longrightarrow> (\<forall>f. saved_msg f \<notin> set evs))
     \<and> (\<forall>path r. Sys (Fopen path) r \<in> set evs \<longrightarrow> rv r \<noteq> 0 \<longrightarrow>
           path = fname \<and> (\<forall>b. res = Returns b \<longrightarrow> b \<and> saved_msg fname \<in> set evs))"

abbreviation failed_frame_msg :: event where
  "failed_frame_msg \<equiv> Stderr ''Error capturing initial frame, exiting\<newline>'' []"

section \<open>The pixel conversion\<close>

lemma CLAMP_spec: "CLAMP c 0 255 = spec_clamp c"
  by (simp add: CLAMP_def spec_clamp_def max_def min_def)

lemma CLAMP_range: "0 \<le> CLAMP c 0 255 \<and> CLAMP c 0 255 \<le> 255"
  by (simp add: CLAMP_def)

text \<open>Storing a clamped value into an \<^verbatim>\<open>unsigned char\<close> loses nothing.\<close>

lemma CLAMP_stored: "uint (word_of_int (CLAMP c 0 255) :: byte) = CLAMP c 0 255"
proof -
  have "CLAMP c 0 255 mod 256 = CLAMP c 0 255"
    using CLAMP_range[of c] by (intro mod_pos_pos_trivial) auto
  then show ?thesis by (simp add: uint_word_of_int)
qed


lemma rgb_of_spec: "rgb_of y u v = spec_rgb y u v"
  by (simp only: rgb_of_def spec_rgb_def CLAMP_spec Let_def)


lemma pixel_step_even:
  "p + 3 < length buf \<Longrightarrow>
   pixel_step buf (0, p) =
     Some (rgb_of (push_bit 8 (uint (buf ! p))) (uint (buf ! (p + 1)) - 128)
             (uint (buf ! (p + 3)) - 128), (1, p))"
  by (simp add: pixel_step_def yuyv_at_def)

lemma pixel_step_odd:
  "p + 3 < length buf \<Longrightarrow>
   pixel_step buf (1, p) =
     Some (rgb_of (push_bit 8 (uint (buf ! (p + 2)))) (uint (buf ! (p + 1)) - 128)
             (uint (buf ! (p + 3)) - 128), (0, p + 4))"
  by (simp add: pixel_step_def yuyv_at_def)

text \<open>Two turns of the \<^verbatim>\<open>for\<close> loop consume one group of 4 bytes.\<close>

lemma row_loop_pair:
  assumes "p + 3 < length buf" and "x + 1 < w"
  shows "row_loop buf w x row (0, p) =
         row_loop buf w (x + 2) (row @ group_at buf p) (0, p + 4)"
proof -
  have "row_loop buf w x row (0, p) =
      row_loop buf w (x + 1)
        (row @ rgb_of (push_bit 8 (uint (buf ! p))) (uint (buf ! (p + 1)) - 128)
                 (uint (buf ! (p + 3)) - 128)) (1, p)"
    using assms by (subst row_loop.simps) (simp add: pixel_step_even)
  also have "\<dots> = row_loop buf w (x + 2) (row @ group_at buf p) (0, p + 4)"
    using assms
    by (subst row_loop.simps)
      (simp add: pixel_step_odd group_at_def spec_pair_def rgb_of_spec Let_def add.commute)
  finally show ?thesis .
qed

lemma row_loop_pairs:
  "w - x = 2 * int n \<Longrightarrow> p + 4 * n \<le> length buf \<Longrightarrow>
   row_loop buf w x row (0, p) =
     Some (row @ concat (map (\<lambda>k. group_at buf (p + 4 * k)) [0..<n]), (0, p + 4 * n))"
proof (induction n arbitrary: x row p)
  case 0
  then show ?case by (subst row_loop.simps) simp
next
  case (Suc n)
  have "row_loop buf w x row (0, p) =
      row_loop buf w (x + 2) (row @ group_at buf p) (0, p + 4)"
    using Suc.prems by (intro row_loop_pair) auto
  also have "\<dots> =
      Some ((row @ group_at buf p) @
            concat (map (\<lambda>k. group_at buf (p + 4 + 4 * k)) [0..<n]), (0, p + 4 + 4 * n))"
    using Suc.prems by (intro Suc.IH) auto
  also have "concat (map (\<lambda>k. group_at buf (p + 4 + 4 * k)) [0..<n]) =
      concat (map (\<lambda>k. group_at buf (p + 4 * k)) [Suc 0..<Suc n])"
    by (simp add: map_Suc_upt[symmetric] del: upt_Suc) (simp add: comp_def add.assoc)
  finally show ?case by (simp add: upt_conv_Cons del: upt_Suc)
qed

lemma scanline_loop_pairs:
  "w = 2 * int m \<Longrightarrow> h - n = k \<Longrightarrow> p + 4 * m * k \<le> length buf \<Longrightarrow>
   scanline_loop buf w h n rows (0, p) =
     Some (rows @
           map (\<lambda>j. concat (map (\<lambda>i. group_at buf (p + 4 * (j * m + i))) [0..<m])) [0..<k])"
proof (induction k arbitrary: n rows p)
  case 0
  then show ?case by (subst scanline_loop.simps) simp
next
  case (Suc k)
  let ?row = "concat (map (\<lambda>i. group_at buf (p + 4 * i)) [0..<m])"
  have lt: "n < h" using Suc.prems by simp
  have row: "row_loop buf w 0 [] (0, p) = Some ([] @ ?row, (0, p + 4 * m))"
    using Suc.prems by (intro row_loop_pairs) auto
  have "scanline_loop buf w h n rows (0, p) =
      scanline_loop buf w h (n + 1) (rows @ [?row]) (0, p + 4 * m)"
    using lt by (subst scanline_loop.simps) (simp add: row)
  also have "\<dots> = Some ((rows @ [?row]) @
      map (\<lambda>j. concat (map (\<lambda>i. group_at buf (p + 4 * m + 4 * (j * m + i))) [0..<m])) [0..<k])"
    using Suc.prems by (intro Suc.IH) (auto simp: algebra_simps)
  also have
    "map (\<lambda>j. concat (map (\<lambda>i. group_at buf (p + 4 * m + 4 * (j * m + i))) [0..<m])) [0..<k] =
     map (\<lambda>j. concat (map (\<lambda>i. group_at buf (p + 4 * (j * m + i))) [0..<m])) [Suc 0..<Suc k]"
    by (simp add: map_Suc_upt[symmetric] del: upt_Suc) (simp add: comp_def algebra_simps)
  finally show ?case by (simp add: upt_conv_Cons del: upt_Suc)
qed

text \<open>
  The whole conversion, for an even width and a buffer that holds two bytes per pixel: row
  \<open>j\<close> is made of the groups \<open>j * (w div 2) \<dots> (j + 1) * (w div 2) - 1\<close>, each converted
  as the specification says.
\<close>

lemma convert_groups:
  assumes "0 \<le> sint w" and "even (sint w)"
    and "2 * nat (sint w) * unat h \<le> length buf"
  shows "convert buf w h =
    Some (map (\<lambda>j. concat (map (\<lambda>i. group_at buf (4 * (j * (nat (sint w) div 2) + i)))
                 [0..<nat (sint w) div 2])) [0..<unat h])"
proof -
  define m where "m = nat (sint w) div 2"
  have m: "sint w = 2 * int m"
    using assms(1,2) by (auto simp: m_def elim!: evenE)
  have nm: "nat (sint w) = 2 * m"
    using m by simp
  have "scanline_loop buf (sint w) (unat h) 0 [] (0, 0) =
      Some ([] @ map (\<lambda>j. concat (map (\<lambda>i. group_at buf (0 + 4 * (j * m + i))) [0..<m]))
                   [0..<unat h])"
    using assms(3) m nm by (intro scanline_loop_pairs) auto
  then show ?thesis by (simp add: convert_def m_def)
qed

text \<open>
  C3. Every group of 4 bytes \<open>Y0, U, Y1, V\<close> of the input is converted into two output
  pixels by the specification's formulas, with the factors 359, 88, 183, 454 and the shift
  by 8 bits (\<^const>\<open>spec_pair\<close>): the two pixels share \<open>u\<close> and \<open>v\<close> and use their own
  \<open>y\<close>. Stated for the whole image: for an even width and a buffer of two bytes per pixel,
  the rows \<^verbatim>\<open>YUYV2JPEG\<close> writes are the groups of the buffer, in order, each converted
  by \<^const>\<open>spec_pair\<close>.
\<close>

theorem convert_is_spec_pairs:
  assumes "0 \<le> sint w" and "even (sint w)"
    and "2 * nat (sint w) * unat h \<le> length buf"
  shows "convert buf w h =
    Some (map (\<lambda>j. concat (map (\<lambda>i. group_at buf (4 * (j * (nat (sint w) div 2) + i)))
                 [0..<nat (sint w) div 2])) [0..<unat h])"
  using assms by (rule convert_groups)

theorem convert_is_spec_pairs_witness:
  "0 \<le> sint (2 :: cint) \<and> even (sint (2 :: cint)) \<and> 2 * nat (sint (2 :: cint)) * unat (2 :: cint) \<le> length sample
   \<and> convert sample 2 2 = Some [spec_pair 76 84 255 255, spec_pair 0 128 200 16]
   \<and> spec_pair 76 84 255 255 = [254, 0, 0, 255, 179, 176]"
proof -
  have h: "0 \<le> sint (2 :: cint)" "even (sint (2 :: cint))"
    "2 * nat (sint (2 :: cint)) * unat (2 :: cint) \<le> length sample"
    by (simp_all add: sample_def)
  have u: "[0..<2] = [0, Suc 0]" by (simp add: upt_conv_Cons)
  have "convert sample 2 2 = Some [spec_pair 76 84 255 255, spec_pair 0 128 200 16]"
    using convert_is_spec_pairs[OF h] by (simp add: u group_at_def sample_def)
  moreover have "spec_pair 76 84 255 255 = [254, 0, 0, 255, 179, 176]"
    by (simp add: spec_pair_def spec_rgb_def spec_clamp_def Let_def)
  ultimately show ?thesis using h by simp
qed

text \<open>
  C4, as the code has it. The conversion takes luma over the full range \<open>0 \<dots> 255\<close>: with
  chroma 128 a pixel of luma \<open>Y\<close> becomes the grey \<open>(Y, Y, Y)\<close>, so the fixture, whose luma
  is 16, converts to 4 pixels all equal to \<open>(16, 16, 16)\<close>, two rows of two pixels.
\<close>

theorem fixture_converts_to_grey_16:
  "convert fixture 2 2 = Some [[16, 16, 16, 16, 16, 16], [16, 16, 16, 16, 16, 16]]"
  by (simp add: convert_def fixture_def scanline_loop.simps row_loop.simps pixel_step_def
      yuyv_at_def rgb_of_def CLAMP_def)

text \<open>
  C4 as stated fails: the pixels are not \<open>(0, 0, 0)\<close> up to the rounding of the shift, which
  is less than 1.
\<close>

theorem fixture_not_black:
  "\<not> (\<exists>rows. convert fixture 2 2 = Some rows \<and> (\<forall>c \<in> set (concat rows). uint c \<le> 1))"
  by (simp add: convert_def fixture_def scanline_loop.simps row_loop.simps pixel_step_def
      yuyv_at_def rgb_of_def CLAMP_def)

text \<open>One byte per pixel is not enough: the loops read past the end of such a buffer.\<close>

lemma convert_needs_two_bytes_per_pixel: "convert [76, 84, 255, 255] 2 2 = None"
  by (simp add: convert_def scanline_loop.simps row_loop.simps pixel_step_def yuyv_at_def
      rgb_of_def CLAMP_def)



section \<open>What each function adds to the trace\<close>

lemma emit_trace [simp]: "trace (emit w e) = trace w @ [e]"
  by (simp add: emit_def)

lemma emit_errno [simp]: "errno (emit w e) = errno w"
  by (simp add: emit_def)

lemma perror_trace [simp]: "trace (perror w s) = trace w @ [Perror s (errno w)]"
  by (simp add: perror_def)

lemma sys_trace:
  "sys env w c = (r, w') \<Longrightarrow>
   trace w' = trace w @ [Sys c r] \<and> errno w' = err r \<and> r = env (trace w) c"
  by (auto simp: sys_def Let_def)

lemma snd_sys_trace [simp]: "trace (snd (sys env w c)) = trace w @ [Sys c (env (trace w) c)]"
  by (simp add: sys_def Let_def)

lemma added_append: "trace w' = trace w @ evs \<Longrightarrow> added w w' = evs"
  by (simp add: added_def)

subsection \<open>\<^verbatim>\<open>xioctl\<close>\<close>

lemma xioctl_trace_aux:
  assumes "xioctl env w fdes req = Some y"
  shows "xioctl_post w fdes req y"
proof (rule xioctl.raw_induct[where P = "\<lambda>env w fdes req y. xioctl_post w fdes req y", OF _ assms],
    goal_cases)
  case (1 f env w fdes req y)
  obtain r1 w1 where s: "sys env w (Ioctl fdes req) = (r1, w1)"
    by (cases "sys env w (Ioctl fdes req)")
  note t = sys_trace[OF s]
  show ?case
  proof (cases "- 1 = rv r1 \<and> EINTR = errno w1")
    case True
    with 1(2) s have "f env w1 fdes req = Some y" by simp
    from 1(1)[OF this] obtain rs where
      rs: "trace (snd y) =
             trace w1 @ map (Sys (Ioctl fdes req)) rs @ [Sys (Ioctl fdes req) (fst y)]"
        "\<forall>x\<in>set rs. rv x = - 1 \<and> err x = EINTR"
        "\<not> (rv (fst y) = - 1 \<and> err (fst y) = EINTR)" "errno (snd y) = err (fst y)"
      unfolding xioctl_post_def by blast
    show ?thesis unfolding xioctl_post_def
      by (rule exI[of _ "r1 # rs"]) (use rs t True in auto)
  next
    case False
    with 1(2) s have "y = (r1, w1)" by auto
    then show ?thesis unfolding xioctl_post_def
      using t False by (intro exI[of _ "[]"]) auto
  qed
qed

lemma xioctl_trace:
  assumes "xioctl env w fdes req = Some (r, w')"
  shows "\<exists>rs. trace w' = trace w @ map (Sys (Ioctl fdes req)) rs @ [Sys (Ioctl fdes req) r]
      \<and> (\<forall>x\<in>set rs. rv x = - 1 \<and> err x = EINTR)
      \<and> \<not> (rv r = - 1 \<and> err r = EINTR) \<and> errno w' = err r"
  using xioctl_trace_aux[OF assms] by (simp add: xioctl_post_def)

lemma xioctl_ev:
  assumes "xioctl env w fdes req = Some (r, w')"
  shows "\<exists>evs. trace w' = trace w @ evs
     \<and> (\<forall>e\<in>set evs. \<exists>x. e = Sys (Ioctl fdes req) x \<and> (x = r \<or> rv x = - 1))
     \<and> Sys (Ioctl fdes req) r \<in> set evs \<and> errno w' = err r"
proof -
  from xioctl_trace[OF assms] obtain rs where
    rs: "trace w' = trace w @ map (Sys (Ioctl fdes req)) rs @ [Sys (Ioctl fdes req) r]"
      "\<forall>x\<in>set rs. rv x = - 1 \<and> err x = EINTR" "errno w' = err r"
    by blast
  show ?thesis
    by (rule exI[of _ "map (Sys (Ioctl fdes req)) rs @ [Sys (Ioctl fdes req) r]"])
      (use rs in auto)
qed

text \<open>An answer that is not an interruption is returned at once.\<close>

lemma xioctl_answered:
  assumes "sys env w (Ioctl fdes req) = (r, w')" and "\<not> (rv r = - 1 \<and> err r = EINTR)"
  shows "xioctl env w fdes req = Some (r, w')"
  using assms sys_trace[OF assms(1)] by (subst xioctl.simps) auto

subsection \<open>The option loop\<close>

lemma getopt_loop_step:
  "getopt_loop atoi ((i, a) # rest) (VI, vd, ofile, w) =
     (if i \<in> set ''dowhv'' then
        getopt_loop atoi rest
          (apply_option atoi (i, a) VI, (if i = CHR ''d'' then a else vd),
           (if i = CHR ''o'' then a else ofile),
           w\<lparr>trace := trace w @ option_warning atoi (i, a)\<rparr>)
      else Inl (printUsage w))"
  by (simp add: Let_def option_warning_def emit_def apply_option_def)

lemma width_apply_option:
  "width (apply_option atoi (i, a) VI) =
     (if i = CHR ''w'' then (if atoi a = 0 then DEFAULT_WIDTH else atoi a) else width VI)"
  "height (apply_option atoi (i, a) VI) =
     (if i = CHR ''h'' then (if atoi a = 0 then DEFAULT_HEIGHT else atoi a) else height VI)"
  "fd (apply_option atoi (i, a) VI) = fd VI"
  by (simp_all add: apply_option_def)

lemma last_option_Cons:
  "last_option atoi c dflt cur ((i, a) # opts) =
   last_option atoi c dflt (if i = c then (if atoi a = 0 then dflt else atoi a) else cur) opts"
  by (auto simp: last_option_def split: list.splits)

lemma last_option_requested: "last_option atoi c dflt dflt opts = requested atoi c dflt opts"
  by (simp add: last_option_def requested_def)

lemma getopt_loop_Inr_aux:
  "getopt_loop atoi opts (VI, vd, ofile, w) = Inr (VI', vd', ofile', w') \<Longrightarrow>
   trace w' = trace w @ concat (map (option_warning atoi) opts)
   \<and> width VI' = last_option atoi (CHR ''w'') DEFAULT_WIDTH (width VI) opts
   \<and> height VI' = last_option atoi (CHR ''h'') DEFAULT_HEIGHT (height VI) opts
   \<and> fd VI' = fd VI \<and> known_options opts"
proof (induction opts arbitrary: VI vd ofile w)
  case Nil
  then show ?case by (simp add: known_options_def last_option_def)
next
  case (Cons opt opts)
  obtain i a where opt: "opt = (i, a)" by (cases opt)
  have kn: "i \<in> set ''dowhv''"
    using Cons.prems unfolding opt getopt_loop_step by (simp split: if_splits)
  then have step: "getopt_loop atoi opts
          (apply_option atoi (i, a) VI, (if i = CHR ''d'' then a else vd),
           (if i = CHR ''o'' then a else ofile),
           w\<lparr>trace := trace w @ option_warning atoi (i, a)\<rparr>) = Inr (VI', vd', ofile', w')"
    using Cons.prems unfolding opt getopt_loop_step by (simp split: if_splits)
  note IH = Cons.IH[OF step]
  show ?case
    using IH kn unfolding opt last_option_Cons
    by (simp add: width_apply_option known_options_def)
qed

lemma option_warning_events:
  "e \<in> set (option_warning atoi opt) \<Longrightarrow> e = invalid_width_msg \<or> e = invalid_height_msg"
  by (cases opt) (auto simp: option_warning_def split: if_splits)

lemma getopt_loop_Inr:
  assumes "getopt_loop atoi opts (VI_init, vd, ofile, world_init) = Inr (VI', vd', ofile', w')"
  shows "trace w' = concat (map (option_warning atoi) opts)"
    and "width VI' = requested atoi (CHR ''w'') DEFAULT_WIDTH opts"
    and "height VI' = requested atoi (CHR ''h'') DEFAULT_HEIGHT opts"
    and "\<forall>e\<in>set (trace w'). e = invalid_width_msg \<or> e = invalid_height_msg"
proof -
  note a = getopt_loop_Inr_aux[OF assms]
  have i: "width VI_init = DEFAULT_WIDTH" "height VI_init = DEFAULT_HEIGHT"
    by (simp_all add: VI_init_def)
  show t: "trace w' = concat (map (option_warning atoi) opts)"
    using a by (simp add: world_init_def)
  show "width VI' = requested atoi (CHR ''w'') DEFAULT_WIDTH opts"
    using a by (simp add: i last_option_requested)
  show "height VI' = requested atoi (CHR ''h'') DEFAULT_HEIGHT opts"
    using a by (simp add: i last_option_requested)
  show "\<forall>e\<in>set (trace w'). e = invalid_width_msg \<or> e = invalid_height_msg"
    unfolding t using option_warning_events by fastforce
qed

lemma printUsage_trace:
  "\<exists>evs. trace (printUsage w) = trace w @ evs \<and> (\<forall>e\<in>set evs. \<exists>s a. e = Stdout s a)"
  by (simp add: printUsage_def)

lemma getopt_loop_Inl:
  "getopt_loop atoi opts (VI, vd, ofile, w) = Inl w' \<Longrightarrow>
   \<exists>evs. trace w' = trace w @ evs \<and> (\<forall>e\<in>set evs. phase_of e = Message \<and> \<not> is_perror e)"
proof (induction opts arbitrary: VI vd ofile w)
  case Nil
  then show ?case by simp
next
  case (Cons opt opts)
  obtain i a where opt: "opt = (i, a)" by (cases opt)
  show ?case
  proof (cases "i \<in> set ''dowhv''")
    case False
    then have "w' = printUsage w"
      using Cons.prems unfolding opt getopt_loop_step by simp
    then show ?thesis using printUsage_trace[of w] by (fastforce simp: is_perror_def)
  next
    case True
    let ?w1 = "w\<lparr>trace := trace w @ option_warning atoi (i, a)\<rparr>"
    from True have "getopt_loop atoi opts
          (apply_option atoi (i, a) VI, (if i = CHR ''d'' then a else vd),
           (if i = CHR ''o'' then a else ofile), ?w1) = Inl w'"
      using Cons.prems unfolding opt getopt_loop_step by (simp split: if_splits)
    from Cons.IH[OF this] obtain evs where
      evs: "trace w' = trace ?w1 @ evs" "\<forall>e\<in>set evs. phase_of e = Message \<and> \<not> is_perror e"
      by blast
    have "\<forall>e\<in>set (option_warning atoi (i, a)). phase_of e = Message \<and> \<not> is_perror e"
      using option_warning_events[of _ atoi "(i, a)"] by (fastforce simp: is_perror_def)
    then show ?thesis using evs
      by (intro exI[of _ "option_warning atoi (i, a) @ evs"]) auto
  qed
qed

lemma option_warnings_events:
  "e \<in> set (option_warnings atoi opts) \<Longrightarrow> phase_of e = Message \<and> \<not> is_perror e"
  unfolding option_warnings_def
  using option_warning_events[of e atoi] by (fastforce simp: is_perror_def)

subsection \<open>Composing what was added\<close>

lemma xioctl_added:
  assumes "xioctl env w fdes req = Some (r, w')"
  shows "trace w' = trace w @ added w w'"
    and "\<forall>e\<in>set (added w w'). \<exists>x. e = Sys (Ioctl fdes req) x \<and> (x = r \<or> rv x = - 1)"
    and "Sys (Ioctl fdes req) r \<in> set (added w w')"
    and "errno w' = err r"
proof -
  from xioctl_ev[OF assms] obtain evs where
    evs: "trace w' = trace w @ evs"
      "\<forall>e\<in>set evs. \<exists>x. e = Sys (Ioctl fdes req) x \<and> (x = r \<or> rv x = - 1)"
      "Sys (Ioctl fdes req) r \<in> set evs" "errno w' = err r"
    by blast
  have a: "added w w' = evs" using evs(1) by (rule added_append)
  show "trace w' = trace w @ added w w'" "errno w' = err r"
    "\<forall>e\<in>set (added w w'). \<exists>x. e = Sys (Ioctl fdes req) x \<and> (x = r \<or> rv x = - 1)"
    "Sys (Ioctl fdes req) r \<in> set (added w w')"
    using evs unfolding a by auto
qed

lemma added_trans:
  assumes "trace w1 = trace w @ added w w1" and "trace w2 = trace w1 @ added w1 w2"
  shows "trace w2 = trace w @ added w w2" and "added w w2 = added w w1 @ added w1 w2"
proof -
  have "trace w2 = trace w @ (added w w1 @ added w1 w2)"
    using assms by simp
  then show "added w w2 = added w w1 @ added w1 w2" by (rule added_append)
  then show "trace w2 = trace w @ added w w2" using assms by simp
qed

lemma added_emit: "trace w1 = trace w @ added w w1 \<Longrightarrow> added w (emit w1 e) = added w w1 @ [e]"
  by (rule added_append) simp

lemma added_perror:
  "trace w1 = trace w @ added w w1 \<Longrightarrow> added w (perror w1 s) = added w w1 @ [Perror s (errno w1)]"
  by (rule added_append) simp

lemma added_sys:
  assumes "trace w1 = trace w @ added w w1" and "sys env w1 c = (r, w2)"
  shows "added w w2 = added w w1 @ [Sys c r]" and "trace w2 = trace w @ added w w2"
proof -
  have "trace w2 = trace w1 @ [Sys c r]"
    using sys_trace[OF assms(2)] by simp
  then have "trace w2 = trace w @ (added w w1 @ [Sys c r])"
    using assms(1) by simp
  then show "added w w2 = added w w1 @ [Sys c r]" by (rule added_append)
  then show "trace w2 = trace w @ added w w2"
    using \<open>trace w2 = trace w @ (added w w1 @ [Sys c r])\<close> by simp
qed

lemma added_self [simp]: "added w w = []"
  by (simp add: added_def)

subsection \<open>The capture cycle\<close>

lemma captureImage_cases:
  assumes "captureImage env vi w = Some (b, w')"
  obtains
    (qbuf_failed) q w1 where "xioctl env w (fd vi) VIDIOC_QBUF = Some (q, w1)" "rv q < 0"
      "\<not> b" "w' = perror w1 ''ioctl(VIDIOC_QBUF)''"
  | (streamon_failed) q w1 on w2 where
      "xioctl env w (fd vi) VIDIOC_QBUF = Some (q, w1)" "0 \<le> rv q"
      "xioctl env w1 (fd vi) VIDIOC_STREAMON = Some (on, w2)" "rv on < 0"
      "\<not> b" "w' = perror w2 ''ioctl(VIDIOC_STREAMON)''"
  | (select_failed) q w1 on w2 sel w3 where
      "xioctl env w (fd vi) VIDIOC_QBUF = Some (q, w1)" "0 \<le> rv q"
      "xioctl env w1 (fd vi) VIDIOC_STREAMON = Some (on, w2)" "0 \<le> rv on"
      "sys env w2 (Select (fd vi) 5) = (sel, w3)" "rv sel < 0"
      "\<not> b" "w' = perror w3 ''select''"
  | (timed_out) q w1 on w2 sel w3 where
      "xioctl env w (fd vi) VIDIOC_QBUF = Some (q, w1)" "0 \<le> rv q"
      "xioctl env w1 (fd vi) VIDIOC_STREAMON = Some (on, w2)" "0 \<le> rv on"
      "sys env w2 (Select (fd vi) 5) = (sel, w3)" "rv sel = 0"
      "\<not> b" "w' = emit w3 timed_out_msg"
  | (dqbuf_failed) q w1 on w2 sel w3 dq w4 where
      "xioctl env w (fd vi) VIDIOC_QBUF = Some (q, w1)" "0 \<le> rv q"
      "xioctl env w1 (fd vi) VIDIOC_STREAMON = Some (on, w2)" "0 \<le> rv on"
      "sys env w2 (Select (fd vi) 5) = (sel, w3)" "0 < rv sel"
      "xioctl env w3 (fd vi) VIDIOC_DQBUF = Some (dq, w4)" "rv dq < 0"
      "\<not> b" "w' = perror w4 ''ioctl(VIDIOC_DQBUF)''"
  | (streamoff_failed) q w1 on w2 sel w3 dq w4 off w5 where
      "xioctl env w (fd vi) VIDIOC_QBUF = Some (q, w1)" "0 \<le> rv q"
      "xioctl env w1 (fd vi) VIDIOC_STREAMON = Some (on, w2)" "0 \<le> rv on"
      "sys env w2 (Select (fd vi) 5) = (sel, w3)" "0 < rv sel"
      "xioctl env w3 (fd vi) VIDIOC_DQBUF = Some (dq, w4)" "0 \<le> rv dq"
      "xioctl env w4 (fd vi) VIDIOC_STREAMOFF = Some (off, w5)" "rv off < 0"
      "\<not> b" "w' = perror w5 ''ioctl(VIDIOC_STREAMOFF)''"
  | (captured) q w1 on w2 sel w3 dq w4 off where
      "xioctl env w (fd vi) VIDIOC_QBUF = Some (q, w1)" "0 \<le> rv q"
      "xioctl env w1 (fd vi) VIDIOC_STREAMON = Some (on, w2)" "0 \<le> rv on"
      "sys env w2 (Select (fd vi) 5) = (sel, w3)" "0 < rv sel"
      "xioctl env w3 (fd vi) VIDIOC_DQBUF = Some (dq, w4)" "0 \<le> rv dq"
      "xioctl env w4 (fd vi) VIDIOC_STREAMOFF = Some (off, w')" "0 \<le> rv off"
      "b"
proof -
  from assms obtain q w1 where x1: "xioctl env w (fd vi) VIDIOC_QBUF = Some (q, w1)"
    by (auto simp: captureImage_def split: bind_splits)
  show thesis
  proof (cases "rv q < 0")
    case True
    with assms x1 show thesis
      by (intro qbuf_failed[of q w1]) (auto simp: captureImage_def)
  next
    case q_ok: False
    with assms x1 obtain on w2 where x2: "xioctl env w1 (fd vi) VIDIOC_STREAMON = Some (on, w2)"
      by (auto simp: captureImage_def split: bind_splits)
    show thesis
    proof (cases "rv on < 0")
      case True
      with assms x1 x2 q_ok show thesis
        by (intro streamon_failed[of q w1 on w2]) (auto simp: captureImage_def)
    next
      case on_ok: False
      obtain sel w3 where s: "sys env w2 (Select (fd vi) 5) = (sel, w3)"
        by (cases "sys env w2 (Select (fd vi) 5)")
      consider "rv sel < 0" | "rv sel = 0" | "0 < rv sel" by linarith
      then show thesis
      proof cases
        case 1
        with assms x1 x2 q_ok on_ok s show thesis
          by (intro select_failed[of q w1 on w2 sel w3]) (auto simp: captureImage_def)
      next
        case 2
        with assms x1 x2 q_ok on_ok s show thesis
          by (intro timed_out[of q w1 on w2 sel w3]) (auto simp: captureImage_def)
      next
        case 3
        with assms x1 x2 q_ok on_ok s obtain dq w4 where
          x4: "xioctl env w3 (fd vi) VIDIOC_DQBUF = Some (dq, w4)"
          by (auto simp: captureImage_def split: bind_splits)
        show thesis
        proof (cases "rv dq < 0")
          case True
          with assms x1 x2 q_ok on_ok s 3 x4 show thesis
            by (intro dqbuf_failed[of q w1 on w2 sel w3 dq w4]) (auto simp: captureImage_def)
        next
          case dq_ok: False
          with assms x1 x2 q_ok on_ok s 3 x4 obtain off w5 where
            x5: "xioctl env w4 (fd vi) VIDIOC_STREAMOFF = Some (off, w5)"
            by (auto simp: captureImage_def split: bind_splits)
          show thesis
          proof (cases "rv off < 0")
            case True
            with assms x1 x2 q_ok on_ok s 3 x4 dq_ok x5 show thesis
              by (intro streamoff_failed[of q w1 on w2 sel w3 dq w4 off w5])
                (auto simp: captureImage_def)
          next
            case False
            with assms x1 x2 q_ok on_ok s 3 x4 dq_ok x5 show thesis
              by (intro captured[of q w1 on w2 sel w3 dq w4 off])
                (auto simp: captureImage_def)
          qed
        qed
      qed
    qed
  qed
qed

lemma xioctl_added_mem:
  "xioctl env w fdes req = Some (r, w') \<Longrightarrow> e \<in> set (added w w') \<Longrightarrow>
   \<exists>x. e = Sys (Ioctl fdes req) x \<and> (x = r \<or> rv x = - 1)"
  using xioctl_added(2) by blast

lemma captureImage_events:
  assumes "captureImage env vi w = Some (b, w')"
  shows "trace w' = trace w @ added w w'
    \<and> (\<forall>e\<in>set (added w w'). phase_of e \<in> {Capture, Message})
    \<and> (\<forall>fdes secs r. Sys (Select fdes secs) r \<in> set (added w w') \<longrightarrow> rv r = 0 \<longrightarrow>
           \<not> b \<and> last (trace w') = timed_out_msg \<and> (\<forall>e\<in>set (added w w'). \<not> is_perror e))
    \<and> (b \<longrightarrow> (\<forall>e\<in>set (added w w'). phase_of e \<noteq> Message))"
  using assms
proof (cases rule: captureImage_cases)
  case (qbuf_failed q w1)
  note a1 = xioctl_added[OF qbuf_failed(1)]
  note m = xioctl_added_mem[OF qbuf_failed(1)]
  have eq: "added w w' = added w w1 @ [Perror ''ioctl(VIDIOC_QBUF)'' (errno w1)]"
    unfolding qbuf_failed using a1(1) by (rule added_perror)
  have t: "trace w' = trace w @ added w w'"
    unfolding eq using a1(1) by (simp add: qbuf_failed(4))
  show ?thesis using t qbuf_failed(3) unfolding eq by (auto dest!: m)
next
  case (streamon_failed q w1 on w2)
  note a1 = xioctl_added[OF streamon_failed(1)]
  note a2 = xioctl_added[OF streamon_failed(3)]
  note m = xioctl_added_mem[OF streamon_failed(1)] xioctl_added_mem[OF streamon_failed(3)]
  note a12 = added_trans[OF a1(1) a2(1)]
  have eq: "added w w' = added w w1 @ added w1 w2 @ [Perror ''ioctl(VIDIOC_STREAMON)'' (errno w2)]"
    unfolding streamon_failed using a12 by (simp add: added_perror)
  have t: "trace w' = trace w @ added w w'"
    unfolding eq using a12 by (simp add: streamon_failed(6))
  show ?thesis using t streamon_failed(5) unfolding eq by (auto dest!: m)
next
  case (select_failed q w1 on w2 sel w3)
  note a1 = xioctl_added[OF select_failed(1)]
  note a2 = xioctl_added[OF select_failed(3)]
  note m = xioctl_added_mem[OF select_failed(1)] xioctl_added_mem[OF select_failed(3)]
  note a12 = added_trans[OF a1(1) a2(1)]
  note a3 = added_sys[OF a12(1) select_failed(5)]
  have eq: "added w w' = added w w1 @ added w1 w2 @ [Sys (Select (fd vi) 5) sel, Perror ''select'' (errno w3)]"
    unfolding select_failed using a3 a12 by (simp add: added_perror)
  have t: "trace w' = trace w @ added w w'"
    unfolding eq using a12 a3 by (simp add: select_failed(8))
  show ?thesis using t select_failed(6,7) unfolding eq by (auto dest!: m)
next
  case (timed_out q w1 on w2 sel w3)
  note a1 = xioctl_added[OF timed_out(1)]
  note a2 = xioctl_added[OF timed_out(3)]
  note m = xioctl_added_mem[OF timed_out(1)] xioctl_added_mem[OF timed_out(3)]
  note a12 = added_trans[OF a1(1) a2(1)]
  note a3 = added_sys[OF a12(1) timed_out(5)]
  have eq: "added w w' = added w w1 @ added w1 w2 @ [Sys (Select (fd vi) 5) sel, timed_out_msg]"
    unfolding timed_out using a3 a12 by (simp add: added_emit)
  have t: "trace w' = trace w @ added w w'"
    unfolding eq using a12 a3 by (simp add: timed_out(8))
  have l: "last (trace w') = timed_out_msg"
    by (simp add: timed_out(8))
  show ?thesis using t l timed_out(6,7) unfolding eq by (auto simp: is_perror_def dest!: m)
next
  case (dqbuf_failed q w1 on w2 sel w3 dq w4)
  note a1 = xioctl_added[OF dqbuf_failed(1)]
  note a2 = xioctl_added[OF dqbuf_failed(3)]
  note a12 = added_trans[OF a1(1) a2(1)]
  note a3 = added_sys[OF a12(1) dqbuf_failed(5)]
  note a4 = xioctl_added[OF dqbuf_failed(7)]
  note a34 = added_trans[OF a3(2) a4(1)]
  note m = xioctl_added_mem[OF dqbuf_failed(1)] xioctl_added_mem[OF dqbuf_failed(3)]
    xioctl_added_mem[OF dqbuf_failed(7)]
  have eq: "added w w' = added w w1 @ added w1 w2 @ [Sys (Select (fd vi) 5) sel] @ added w3 w4
      @ [Perror ''ioctl(VIDIOC_DQBUF)'' (errno w4)]"
    unfolding dqbuf_failed using a3 a12 a34 by (simp add: added_perror)
  have t: "trace w' = trace w @ added w w'"
    unfolding eq using a12 a3 a34 by (simp add: dqbuf_failed(10))
  show ?thesis using t dqbuf_failed(6,9) unfolding eq by (auto dest!: m)
next
  case (streamoff_failed q w1 on w2 sel w3 dq w4 off w5)
  note a1 = xioctl_added[OF streamoff_failed(1)]
  note a2 = xioctl_added[OF streamoff_failed(3)]
  note a12 = added_trans[OF a1(1) a2(1)]
  note a3 = added_sys[OF a12(1) streamoff_failed(5)]
  note a4 = xioctl_added[OF streamoff_failed(7)]
  note a34 = added_trans[OF a3(2) a4(1)]
  note a5 = xioctl_added[OF streamoff_failed(9)]
  note a45 = added_trans[OF a34(1) a5(1)]
  note m = xioctl_added_mem[OF streamoff_failed(1)] xioctl_added_mem[OF streamoff_failed(3)]
    xioctl_added_mem[OF streamoff_failed(7)] xioctl_added_mem[OF streamoff_failed(9)]
  have eq: "added w w' = added w w1 @ added w1 w2 @ [Sys (Select (fd vi) 5) sel] @ added w3 w4
      @ added w4 w5 @ [Perror ''ioctl(VIDIOC_STREAMOFF)'' (errno w5)]"
    unfolding streamoff_failed using a3 a12 a34 a45 by (simp add: added_perror)
  have t: "trace w' = trace w @ added w w'"
    unfolding eq using a12 a3 a34 a45 by (simp add: streamoff_failed(12))
  show ?thesis using t streamoff_failed(6,11) unfolding eq by (auto dest!: m)
next
  case (captured q w1 on w2 sel w3 dq w4 off)
  note a1 = xioctl_added[OF captured(1)]
  note a2 = xioctl_added[OF captured(3)]
  note a12 = added_trans[OF a1(1) a2(1)]
  note a3 = added_sys[OF a12(1) captured(5)]
  note a4 = xioctl_added[OF captured(7)]
  note a34 = added_trans[OF a3(2) a4(1)]
  note a5 = xioctl_added[OF captured(9)]
  note a45 = added_trans[OF a34(1) a5(1)]
  note m = xioctl_added_mem[OF captured(1)] xioctl_added_mem[OF captured(3)]
    xioctl_added_mem[OF captured(7)] xioctl_added_mem[OF captured(9)]
  have eq: "added w w' = added w w1 @ added w1 w2 @ [Sys (Select (fd vi) 5) sel] @ added w3 w4
      @ added w4 w'"
    using a3 a12 a34 a45 by simp
  have t: "trace w' = trace w @ added w w'"
    using a45 by simp
  show ?thesis using t captured(6) unfolding eq by (auto dest!: m)
qed

subsection \<open>Capabilities and opening the device\<close>

lemma checkCapabilities_cases:
  assumes "checkCapabilities env vi w = Some (b, vi', w')"
  obtains
    (query_failed) r w1 where "xioctl env w (fd vi) VIDIOC_QUERYCAP = Some (r, w1)" "rv r < 0"
      "\<not> b" "vi' = vi" "w' = perror w1 ''ioctl(VIDIOC_QUERYCAP)''"
  | (answered) r w1 where "xioctl env w (fd vi) VIDIOC_QUERYCAP = Some (r, w1)" "0 \<le> rv r"
      "b \<longleftrightarrow> caps_ok r"
      "vi' = vi\<lparr>caps_driver := cap_driver r, caps_card := cap_card r,
                 caps_capabilities := cap_capabilities r\<rparr>"
      "trace w' = trace w1 @ caps_messages vi r"
proof -
  from assms obtain r w1 where x: "xioctl env w (fd vi) VIDIOC_QUERYCAP = Some (r, w1)"
    by (auto simp: checkCapabilities_def split: bind_splits)
  show thesis
  proof (cases "rv r < 0")
    case True
    with assms x show thesis
      by (intro query_failed[of r w1]) (auto simp: checkCapabilities_def)
  next
    case False
    with assms x show thesis
      by (intro answered[of r w1])
        (auto simp: checkCapabilities_def Let_def caps_ok_def caps_messages_def split: if_splits)
  qed
qed

lemma caps_messages_events:
  "e \<in> set (caps_messages vi r) \<Longrightarrow>
   phase_of e = Message \<and> \<not> is_perror e \<and> (\<forall>f. e \<noteq> saved_msg f)"
  by (auto simp: caps_messages_def is_perror_def split: if_splits)

lemma caps_messages_missing:
  "cap_capabilities r AND V4L2_CAP_VIDEO_CAPTURE = 0 \<Longrightarrow> no_capture_msg \<in> set (caps_messages vi r)"
  "cap_capabilities r AND V4L2_CAP_VIDEO_CAPTURE \<noteq> 0 \<Longrightarrow>
   cap_capabilities r AND V4L2_CAP_STREAMING = 0 \<Longrightarrow> no_streaming_msg \<in> set (caps_messages vi r)"
  by (auto simp: caps_messages_def)

lemma checkCapabilities_events:
  assumes "checkCapabilities env vi w = Some (b, vi', w')"
  shows "trace w' = trace w @ added w w'
     \<and> (\<forall>e\<in>set (added w w'). phase_of e \<in> {Capabilities, Message} \<and> (\<forall>f. e \<noteq> saved_msg f))
     \<and> caps_report b (added w w')
     \<and> width vi' = width vi \<and> height vi' = height vi \<and> fd vi' = fd vi"
  using assms
proof (cases rule: checkCapabilities_cases)
  case (query_failed r w1)
  note a1 = xioctl_added[OF query_failed(1)]
  note m = xioctl_added_mem[OF query_failed(1)]
  have eq: "added w w' = added w w1 @ [Perror ''ioctl(VIDIOC_QUERYCAP)'' (errno w1)]"
    unfolding query_failed using a1(1) by (rule added_perror)
  have t: "trace w' = trace w @ added w w'"
    unfolding eq using a1(1) by (simp add: query_failed(5))
  show ?thesis using t query_failed(2,3,4) unfolding eq caps_report_def by (auto dest!: m)
next
  case (answered r w1)
  note a1 = xioctl_added[OF answered(1)]
  note m = xioctl_added_mem[OF answered(1)]
  have t: "trace w' = trace w @ (added w w1 @ caps_messages vi r)"
    using a1(1) answered(5) by simp
  then have eq: "added w w' = added w w1 @ caps_messages vi r"
    by (rule added_append)
  have t': "trace w' = trace w @ added w w'"
    using t eq by simp
  have c: "caps_report b (added w w')"
    unfolding eq caps_report_def using answered(2,3) caps_messages_missing[of r vi]
    by (auto dest!: m caps_messages_events simp: is_perror_def)
  have p: "\<forall>e\<in>set (added w w'). phase_of e \<in> {Capabilities, Message} \<and> (\<forall>f. e \<noteq> saved_msg f)"
    unfolding eq by (auto dest!: m caps_messages_events)
  show ?thesis using t' c p by (simp add: answered(4))
qed

lemma initVideoDevice_cases:
  assumes "initVideoDevice env vi (Some path) w = Some (b, vi', w')"
  obtains
    (open_failed) opened w1 where "sys env w (Open path) = (opened, w1)" "rv opened < 0"
      "\<not> b" "w' = perror w1 ''open()''" "vi' = vi\<lparr>fd := rv opened\<rparr>"
  | (caps_failed) opened w1 vi2 w2 where "sys env w (Open path) = (opened, w1)" "0 \<le> rv opened"
      "checkCapabilities env (vi\<lparr>fd := rv opened\<rparr>) w1 = Some (False, vi2, w2)"
      "\<not> b" "vi' = vi2\<lparr>fd := - 1\<rparr>" "w' = snd (sys env w2 (Close (fd vi2)))"
  | (opened) opened w1 where "sys env w (Open path) = (opened, w1)" "0 \<le> rv opened"
      "checkCapabilities env (vi\<lparr>fd := rv opened\<rparr>) w1 = Some (True, vi', w')" "b"
proof -
  obtain opened w1 where s: "sys env w (Open path) = (opened, w1)"
    by (cases "sys env w (Open path)")
  show thesis
  proof (cases "rv opened < 0")
    case True
    with assms s show thesis
      by (intro open_failed[of opened w1]) (auto simp: initVideoDevice_def)
  next
    case False
    with assms s obtain ok vi2 w2 where
      c: "checkCapabilities env (vi\<lparr>fd := rv opened\<rparr>) w1 = Some (ok, vi2, w2)"
      by (auto simp: initVideoDevice_def split: bind_splits)
    show thesis
    proof (cases ok)
      case True
      with assms s False c show thesis
        by (intro opened[of opened w1]) (auto simp: initVideoDevice_def)
    next
      case ok: False
      with assms s False c show thesis
        by (intro caps_failed[of opened w1 vi2 w2]) (auto simp: initVideoDevice_def Let_def)
    qed
  qed
qed

lemma initVideoDevice_events:
  assumes "initVideoDevice env vi (Some path) w = Some (b, vi', w')"
  shows "trace w' = trace w @ added w w'
     \<and> (\<forall>e\<in>set (added w w'). phase_of e \<in> {Opening, Closing, Capabilities, Message} \<and> (\<forall>f. e \<noteq> saved_msg f))
     \<and> caps_report b (added w w')
     \<and> width vi' = width vi \<and> height vi' = height vi"
  using assms
proof (cases rule: initVideoDevice_cases)
  case (open_failed opened w1)
  have a: "trace w = trace w @ added w w" by simp
  note a1 = added_sys[OF a open_failed(1)]
  have eq: "added w w' = [Sys (Open path) opened, Perror ''open()'' (errno w1)]"
    unfolding open_failed using a1 by (simp add: added_perror)
  have t: "trace w' = trace w @ added w w'"
    unfolding eq using a1 by (simp add: open_failed(4))
  show ?thesis using t open_failed(3,5) unfolding eq caps_report_def by auto
next
  case (caps_failed opened w1 vi2 w2)
  have a: "trace w = trace w @ added w w" by simp
  note a1 = added_sys[OF a caps_failed(1)]
  note c = checkCapabilities_events[OF caps_failed(3)]
  note a12 = added_trans[OF a1(2) c[THEN conjunct1]]
  have t: "trace w' = trace w @ (Sys (Open path) opened # added w1 w2 @ [Sys (Close (fd vi2)) (env (trace w2) (Close (fd vi2)))])"
    using a12 a1 by (simp add: caps_failed(6))
  then have eq: "added w w' = Sys (Open path) opened # added w1 w2 @ [Sys (Close (fd vi2)) (env (trace w2) (Close (fd vi2)))]"
    by (rule added_append)
  have t': "trace w' = trace w @ added w w'" using t eq by simp
  have cr: "caps_report b (added w w')"
    using c caps_failed(4) unfolding eq caps_report_def by (auto simp: is_perror_def)
  have p: "\<forall>e\<in>set (added w w'). phase_of e \<in> {Opening, Closing, Capabilities, Message} \<and> (\<forall>f. e \<noteq> saved_msg f)"
    using c unfolding eq by auto
  show ?thesis using t' cr p c by (simp add: caps_failed(5))
next
  case (opened opened w1)
  have a: "trace w = trace w @ added w w" by simp
  note a1 = added_sys[OF a opened(1)]
  note c = checkCapabilities_events[OF opened(3)]
  note a12 = added_trans[OF a1(2) c[THEN conjunct1]]
  have eq: "added w w' = Sys (Open path) opened # added w1 w'"
    using a12 a1 by simp
  have cr: "caps_report b (added w w')"
    using c opened(4) unfolding eq caps_report_def by (auto simp: is_perror_def)
  have p: "\<forall>e\<in>set (added w w'). phase_of e \<in> {Opening, Closing, Capabilities, Message} \<and> (\<forall>f. e \<noteq> saved_msg f)"
    using c unfolding eq by auto
  show ?thesis using a12(1) cr p c by simp
qed

subsection \<open>Format negotiation\<close>

lemma setFormat_success:
  assumes "xioctl env w (fd vi) (VIDIOC_S_FMT (width vi) (height vi)) = Some (r1, w1)"
    and "0 \<le> rv r1"
    and "xioctl env w1 (fd vi) VIDIOC_G_FMT = Some (r2, w2)"
    and "0 \<le> rv r2"
  shows "setFormat env vi w =
     Some (True, format_adopted vi r2, w2\<lparr>trace := trace w2 @ format_warnings vi r2\<rparr>)"
proof -
  have "pix_width r2 = width vi \<Longrightarrow> vi\<lparr>width := pix_width r2\<rparr> = vi"
    "pix_height r2 = height vi \<Longrightarrow> vi\<lparr>height := pix_height r2\<rparr> = vi"
    by simp_all
  then show ?thesis
    using assms
    by (auto simp: setFormat_def Let_def format_adopted_def format_warnings_def emit_def)
qed

lemma setFormat_cases:
  assumes "setFormat env vi w = Some (b, vi', w')"
  obtains
    (s_failed) r1 w1 where "xioctl env w (fd vi) (VIDIOC_S_FMT (width vi) (height vi)) = Some (r1, w1)"
      "rv r1 < 0" "\<not> b" "fd vi' = fd vi" "w' = perror w1 ''ioctl(VIDIOC_S_FMT)''"
  | (g_failed) r1 w1 r2 w2 where
      "xioctl env w (fd vi) (VIDIOC_S_FMT (width vi) (height vi)) = Some (r1, w1)" "0 \<le> rv r1"
      "xioctl env w1 (fd vi) VIDIOC_G_FMT = Some (r2, w2)" "rv r2 < 0" "\<not> b" "fd vi' = fd vi"
      "w' = perror w2 ''ioctl(VIDIOC_C_FMT)''"
  | (ok) r1 w1 r2 w2 where
      "xioctl env w (fd vi) (VIDIOC_S_FMT (width vi) (height vi)) = Some (r1, w1)" "0 \<le> rv r1"
      "xioctl env w1 (fd vi) VIDIOC_G_FMT = Some (r2, w2)" "0 \<le> rv r2" "b"
      "vi' = format_adopted vi r2" "w' = w2\<lparr>trace := trace w2 @ format_warnings vi r2\<rparr>"
proof -
  from assms obtain r1 w1 where
    x1: "xioctl env w (fd vi) (VIDIOC_S_FMT (width vi) (height vi)) = Some (r1, w1)"
    by (auto simp: setFormat_def Let_def split: bind_splits)
  show thesis
  proof (cases "rv r1 < 0")
    case True
    with assms x1 show thesis
      by (intro s_failed[of r1 w1]) (auto simp: setFormat_def Let_def)
  next
    case False
    with assms x1 obtain r2 w2 where x2: "xioctl env w1 (fd vi) VIDIOC_G_FMT = Some (r2, w2)"
      by (auto simp: setFormat_def Let_def split: bind_splits)
    show thesis
    proof (cases "rv r2 < 0")
      case True
      with assms x1 x2 False show thesis
        by (intro g_failed[of r1 w1 r2 w2]) (auto simp: setFormat_def Let_def)
    next
      case f2: False
      from setFormat_success[OF x1 _ x2] False f2 assms show thesis
        by (intro ok[of r1 w1 r2 w2]) (use x1 x2 in auto)
    qed
  qed
qed

lemma format_warnings_events:
  "e \<in> set (format_warnings vi r) \<Longrightarrow> \<exists>s a. e = Stderr s a"
  by (auto simp: format_warnings_def split: if_splits)

lemma setFormat_events:
  assumes "setFormat env vi w = Some (b, vi', w')"
  shows "trace w' = trace w @ added w w'
     \<and> (\<forall>e\<in>set (added w w'). phase_of e \<in> {Format, Message} \<and> (\<forall>f. e \<noteq> saved_msg f))
     \<and> (\<forall>fdes rw rh r. Sys (Ioctl fdes (VIDIOC_S_FMT rw rh)) r \<in> set (added w w') \<longrightarrow>
           rw = width vi \<and> rh = height vi)
     \<and> (\<forall>fdes r. Sys (Ioctl fdes VIDIOC_G_FMT) r \<in> set (added w w') \<longrightarrow> 0 \<le> rv r \<longrightarrow>
           b \<and> width vi' = pix_width r \<and> height vi' = pix_height r)
     \<and> (b \<longrightarrow> (\<exists>r. Sys (Ioctl (fd vi) VIDIOC_G_FMT) r \<in> set (added w w') \<and> 0 \<le> rv r))
     \<and> fd vi' = fd vi"
  using assms
proof (cases rule: setFormat_cases)
  case (s_failed r1 w1)
  note a1 = xioctl_added[OF s_failed(1)]
  note m = xioctl_added_mem[OF s_failed(1)]
  have eq: "added w w' = added w w1 @ [Perror ''ioctl(VIDIOC_S_FMT)'' (errno w1)]"
    unfolding s_failed using a1(1) by (rule added_perror)
  have t: "trace w' = trace w @ added w w'"
    unfolding eq using a1(1) by (simp add: s_failed(5))
  show ?thesis using t s_failed(3,4) unfolding eq by (auto dest!: m)
next
  case (g_failed r1 w1 r2 w2)
  note a1 = xioctl_added[OF g_failed(1)]
  note a2 = xioctl_added[OF g_failed(3)]
  note m = xioctl_added_mem[OF g_failed(1)] xioctl_added_mem[OF g_failed(3)]
  note a12 = added_trans[OF a1(1) a2(1)]
  have eq: "added w w' = added w w1 @ added w1 w2 @ [Perror ''ioctl(VIDIOC_C_FMT)'' (errno w2)]"
    unfolding g_failed using a12 by (simp add: added_perror)
  have t: "trace w' = trace w @ added w w'"
    unfolding eq using a12 by (simp add: g_failed(7))
  show ?thesis using t g_failed(4,5,6) unfolding eq by (auto dest!: m)
next
  case (ok r1 w1 r2 w2)
  note a1 = xioctl_added[OF ok(1)]
  note a2 = xioctl_added[OF ok(3)]
  note m = xioctl_added_mem[OF ok(1)] xioctl_added_mem[OF ok(3)]
  note a12 = added_trans[OF a1(1) a2(1)]
  have t: "trace w' = trace w @ (added w w1 @ added w1 w2 @ format_warnings vi r2)"
    using a12 by (simp add: ok(7))
  then have eq: "added w w' = added w w1 @ added w1 w2 @ format_warnings vi r2"
    by (rule added_append)
  have t': "trace w' = trace w @ added w w'" using t eq by simp
  have g: "Sys (Ioctl (fd vi) VIDIOC_G_FMT) r2 \<in> set (added w w')"
    unfolding eq using a2(3) by simp
  have v: "width vi' = pix_width r2" "height vi' = pix_height r2" "fd vi' = fd vi"
    by (simp_all add: ok(6) format_adopted_def)
  have p: "\<forall>e\<in>set (added w w'). phase_of e \<in> {Format, Message} \<and> (\<forall>f. e \<noteq> saved_msg f)"
    unfolding eq by (auto dest!: m format_warnings_events)
  have s: "\<forall>fdes rw rh r. Sys (Ioctl fdes (VIDIOC_S_FMT rw rh)) r \<in> set (added w w') \<longrightarrow>
           rw = width vi \<and> rh = height vi"
    unfolding eq by (auto dest!: m format_warnings_events)
  have u: "\<forall>fdes r. Sys (Ioctl fdes VIDIOC_G_FMT) r \<in> set (added w w') \<longrightarrow> 0 \<le> rv r \<longrightarrow>
           b \<and> width vi' = pix_width r \<and> height vi' = pix_height r"
    unfolding eq using ok(5) v by (auto dest!: m format_warnings_events)
  show ?thesis using t' p s u g ok(4,5) v by blast
qed

subsection \<open>The buffer\<close>

lemma allocBuffer_cases:
  assumes "allocBuffer env vi w = Some (b, vi', w')"
  obtains
    (reqbufs_failed) r w1 where "xioctl env w (fd vi) VIDIOC_REQBUFS = Some (r, w1)" "rv r < 0"
      "\<not> b" "vi' = vi"
      "trace w' = trace w1 @
         (if errno w1 = EINVAL
          then [Stderr ''Capture device does not support mmapped buffers\<newline>'' []] else []) @
         [Perror ''ioctl(VIDIOC_REQBUFS)'' (errno w1)]"
  | (querybuf_failed) r w1 mbuf w2 where
      "xioctl env w (fd vi) VIDIOC_REQBUFS = Some (r, w1)" "0 \<le> rv r"
      "xioctl env w1 (fd vi) VIDIOC_QUERYBUF = Some (mbuf, w2)" "rv mbuf < 0"
      "\<not> b" "vi' = vi" "w' = perror w2 ''ioctl(VIDIOC_QUERYBUF)''"
  | (mmap_failed) r w1 mbuf w2 m w3 where
      "xioctl env w (fd vi) VIDIOC_REQBUFS = Some (r, w1)" "0 \<le> rv r"
      "xioctl env w1 (fd vi) VIDIOC_QUERYBUF = Some (mbuf, w2)" "0 \<le> rv mbuf"
      "sys env w2 (Mmap (buf_length mbuf) (fd vi) (buf_offset mbuf)) = (m, w3)"
      "rv m = MAP_FAILED" "\<not> b" "vi' = vi\<lparr>buffer := rv m\<rparr>" "w' = perror w3 ''mmap()''"
  | (mapped) r w1 mbuf w2 m where
      "xioctl env w (fd vi) VIDIOC_REQBUFS = Some (r, w1)" "0 \<le> rv r"
      "xioctl env w1 (fd vi) VIDIOC_QUERYBUF = Some (mbuf, w2)" "0 \<le> rv mbuf"
      "sys env w2 (Mmap (buf_length mbuf) (fd vi) (buf_offset mbuf)) = (m, w')"
      "rv m \<noteq> MAP_FAILED" "b"
      "vi' = vi\<lparr>buffer := rv m, buffer_len := ucast (buf_length mbuf)\<rparr>"
proof -
  from assms obtain r w1 where x1: "xioctl env w (fd vi) VIDIOC_REQBUFS = Some (r, w1)"
    by (auto simp: allocBuffer_def split: bind_splits)
  show thesis
  proof (cases "rv r < 0")
    case True
    with assms x1 show thesis
      by (intro reqbufs_failed[of r w1]) (auto simp: allocBuffer_def Let_def)
  next
    case r_ok: False
    with assms x1 obtain mbuf w2 where
      x2: "xioctl env w1 (fd vi) VIDIOC_QUERYBUF = Some (mbuf, w2)"
      by (auto simp: allocBuffer_def split: bind_splits)
    show thesis
    proof (cases "rv mbuf < 0")
      case True
      with assms x1 x2 r_ok show thesis
        by (intro querybuf_failed[of r w1 mbuf w2]) (auto simp: allocBuffer_def)
    next
      case q_ok: False
      obtain m w3 where s: "sys env w2 (Mmap (buf_length mbuf) (fd vi) (buf_offset mbuf)) = (m, w3)"
        by (cases "sys env w2 (Mmap (buf_length mbuf) (fd vi) (buf_offset mbuf))")
      show thesis
      proof (cases "rv m = MAP_FAILED")
        case True
        with assms x1 x2 r_ok q_ok s show thesis
          by (intro mmap_failed[of r w1 mbuf w2 m w3]) (auto simp: allocBuffer_def Let_def)
      next
        case False
        with assms x1 x2 r_ok q_ok s show thesis
          by (intro mapped[of r w1 mbuf w2 m]) (auto simp: allocBuffer_def Let_def)
      qed
    qed
  qed
qed

lemma allocBuffer_events:
  assumes "allocBuffer env vi w = Some (b, vi', w')"
  shows "trace w' = trace w @ added w w'
     \<and> (\<forall>e\<in>set (added w w'). phase_of e \<in> {Buffer, Message} \<and> (\<forall>f. e \<noteq> saved_msg f))
     \<and> width vi' = width vi \<and> height vi' = height vi \<and> fd vi' = fd vi"
  using assms
proof (cases rule: allocBuffer_cases)
  case (reqbufs_failed r w1)
  note a1 = xioctl_added[OF reqbufs_failed(1)]
  note m = xioctl_added_mem[OF reqbufs_failed(1)]
  let ?msgs = "(if errno w1 = EINVAL
          then [Stderr ''Capture device does not support mmapped buffers\<newline>'' []] else []) @
         [Perror ''ioctl(VIDIOC_REQBUFS)'' (errno w1)]"
  have t: "trace w' = trace w @ (added w w1 @ ?msgs)"
    using a1(1) reqbufs_failed(5) by simp
  then have eq: "added w w' = added w w1 @ ?msgs" by (rule added_append)
  have t': "trace w' = trace w @ added w w'" using t eq by simp
  show ?thesis using t' reqbufs_failed(4) unfolding eq by (auto dest!: m)
next
  case (querybuf_failed r w1 mbuf w2)
  note a1 = xioctl_added[OF querybuf_failed(1)]
  note a2 = xioctl_added[OF querybuf_failed(3)]
  note m = xioctl_added_mem[OF querybuf_failed(1)] xioctl_added_mem[OF querybuf_failed(3)]
  note a12 = added_trans[OF a1(1) a2(1)]
  have eq: "added w w' = added w w1 @ added w1 w2 @ [Perror ''ioctl(VIDIOC_QUERYBUF)'' (errno w2)]"
    unfolding querybuf_failed using a12 by (simp add: added_perror)
  have t: "trace w' = trace w @ added w w'"
    unfolding eq using a12 by (simp add: querybuf_failed(7))
  show ?thesis using t querybuf_failed(6) unfolding eq by (auto dest!: m)
next
  case (mmap_failed r w1 mbuf w2 m w3)
  note a1 = xioctl_added[OF mmap_failed(1)]
  note a2 = xioctl_added[OF mmap_failed(3)]
  note mm = xioctl_added_mem[OF mmap_failed(1)] xioctl_added_mem[OF mmap_failed(3)]
  note a12 = added_trans[OF a1(1) a2(1)]
  note a3 = added_sys[OF a12(1) mmap_failed(5)]
  have eq: "added w w' = added w w1 @ added w1 w2 @
      [Sys (Mmap (buf_length mbuf) (fd vi) (buf_offset mbuf)) m, Perror ''mmap()'' (errno w3)]"
    unfolding mmap_failed using a3 a12 by (simp add: added_perror)
  have t: "trace w' = trace w @ added w w'"
    unfolding eq using a12 a3 by (simp add: mmap_failed(9))
  show ?thesis using t mmap_failed(8) unfolding eq by (auto dest!: mm)
next
  case (mapped r w1 mbuf w2 m)
  note a1 = xioctl_added[OF mapped(1)]
  note a2 = xioctl_added[OF mapped(3)]
  note mm = xioctl_added_mem[OF mapped(1)] xioctl_added_mem[OF mapped(3)]
  note a12 = added_trans[OF a1(1) a2(1)]
  note a3 = added_sys[OF a12(1) mapped(5)]
  have eq: "added w w' = added w w1 @ added w1 w2 @
      [Sys (Mmap (buf_length mbuf) (fd vi) (buf_offset mbuf)) m]"
    using a3 a12 by simp
  show ?thesis using a3(2) mapped(8) unfolding eq by (auto dest!: mm)
qed

subsection \<open>Encoding and saving\<close>

lemma scanlines_append [simp]: "scanlines (A @ B) = scanlines A @ scanlines B"
  by (simp add: scanlines_def)

lemma scanlines_Nil [simp]: "scanlines [] = []"
  by (simp add: scanlines_def)

lemma scanlines_write [simp]: "scanlines [Sys (Jpeg_write_scanlines row) r] = [row]"
  by (simp add: scanlines_def)

lemma scanlines_none:
  "\<forall>e\<in>set evs. \<forall>row r. e \<noteq> Sys (Jpeg_write_scanlines row) r \<Longrightarrow> scanlines evs = []"
proof (induction evs)
  case Nil
  then show ?case by simp
next
  case (Cons e evs)
  then have "scanlines evs = []" by simp
  moreover have "scanlines [e] = []"
    using Cons.prems by (auto simp: scanlines_def split: event.splits call.splits)
  ultimately show ?case using scanlines_append[of "[e]" evs] by simp
qed

lemma scanlines_other_phase:
  "\<forall>e\<in>set evs. phase_of e \<noteq> Saving \<Longrightarrow> scanlines evs = []"
  by (rule scanlines_none) auto

lemma ends_Returns: "ends (Returns x) evs \<longleftrightarrow> (\<forall>e\<in>set evs. \<not> jpeg_failed e)"
  by (simp add: ends_def)

lemma ends_Exits:
  "ends (Exits status) evs \<longleftrightarrow>
     status = EXIT_FAILURE \<and> evs \<noteq> [] \<and> jpeg_failed (last evs)
     \<and> (\<forall>e\<in>set (butlast evs). \<not> jpeg_failed e)"
  by (simp add: ends_def)

lemma ends_append:
  assumes "\<forall>e\<in>set A. \<not> jpeg_failed e" and "ends res B"
  shows "ends res (A @ B)"
proof (cases res)
  case (Returns x)
  then show ?thesis using assms by (auto simp: ends_Returns)
next
  case (Exits status)
  with assms(2) have b: "status = EXIT_FAILURE" "B \<noteq> []" "jpeg_failed (last B)"
    "\<forall>e\<in>set (butlast B). \<not> jpeg_failed e"
    by (simp_all add: ends_Exits)
  then show ?thesis unfolding Exits ends_Exits using assms(1)
    by (auto simp: butlast_append)
qed

lemma ends_failed_last:
  assumes "ends res evs" and "e \<in> set evs" and "jpeg_failed e"
  shows "res = Exits EXIT_FAILURE \<and> last evs = e"
proof (cases res)
  case (Returns x)
  then show ?thesis using assms by (auto simp: ends_Returns)
next
  case (Exits status)
  with assms(1) have b: "status = EXIT_FAILURE" "evs \<noteq> []"
    "\<forall>e\<in>set (butlast evs). \<not> jpeg_failed e"
    by (simp_all add: ends_Exits)
  from b(2) have "evs = butlast evs @ [last evs]" by simp
  then have "e \<in> set (butlast evs) \<or> e = last evs"
    using assms(2) by (metis Un_iff empty_iff insert_iff list.set(1) list.set(2) set_append)
  then show ?thesis using b assms(3) Exits by auto
qed

lemma not_jpeg_failed [simp]:
  "\<not> jpeg_failed (Perror s n)" "\<not> jpeg_failed (Stderr s a)" "\<not> jpeg_failed (Stdout s a)"
  "\<not> is_jpeg c \<Longrightarrow> \<not> jpeg_failed (Sys c r)"
  "0 \<le> rv r \<Longrightarrow> \<not> jpeg_failed (Sys c r)"
  by (auto simp: jpeg_failed_def)

lemma jpeg_failed_Sys: "is_jpeg c \<Longrightarrow> rv r < 0 \<Longrightarrow> jpeg_failed (Sys c r)"
  by (simp add: jpeg_failed_def)

lemma jpeg_failed_phase: "jpeg_failed e \<Longrightarrow> phase_of e = Saving"
  by (auto simp: jpeg_failed_def is_jpeg_def split: event.splits call.splits)

lemma jpeg_calls_events:
  assumes "jpeg_calls env w cs = (res, w')" and "\<forall>c\<in>set cs. is_jpeg c"
  shows "trace w' = trace w @ added w w'
     \<and> (\<forall>e\<in>set (added w w'). \<exists>c r. e = Sys c r \<and> c \<in> set cs)
     \<and> ends res (added w w')
     \<and> (res = Returns () \<longrightarrow> calls (added w w') = cs)"
  using assms
proof (induction cs arbitrary: w)
  case Nil
  then show ?case by (auto simp: ends_Returns calls_def)
next
  case (Cons c cs)
  obtain r w1 where s: "sys env w c = (r, w1)" by (cases "sys env w c")
  have a: "trace w = trace w @ added w w" by simp
  note a1 = added_sys[OF a s]
  from Cons.prems(2) have j: "is_jpeg c" "\<forall>c\<in>set cs. is_jpeg c" by simp_all
  show ?case
  proof (cases "rv r < 0")
    case True
    with Cons.prems(1) s have e: "res = Exits EXIT_FAILURE" "w' = w1" by simp_all
    have eq: "added w w1 = [Sys c r]" using a1(1) by simp
    show ?thesis using a1(2) True j(1) unfolding e eq
      by (simp add: ends_Exits jpeg_failed_Sys)
  next
    case False
    with Cons.prems(1) s have "jpeg_calls env w1 cs = (res, w')" by simp
    note ih = Cons.IH[OF this j(2)]
    note t = added_trans[OF a1(2) ih[THEN conjunct1]]
    have eq: "added w w' = Sys c r # added w1 w'" using t(2) a1(1) by simp
    have n: "\<forall>e\<in>set [Sys c r]. \<not> jpeg_failed e" using False by simp
    have en: "ends res (added w w')"
      using ends_append[OF n, of res "added w1 w'"] ih unfolding eq by simp
    show ?thesis using t(1) en ih unfolding eq by (auto simp: calls_def)
  qed
qed

lemma write_loop_rows:
  assumes "write_loop env buf w h n s wld = Some (res, wld')" and "n \<le> h"
  shows "trace wld' = trace wld @ added wld wld'
     \<and> (\<forall>e\<in>set (added wld wld'). \<exists>row x. e = Sys (Jpeg_write_scanlines row) x)
     \<and> ends res (added wld wld')
     \<and> n + length (scanlines (added wld wld')) \<le> h
     \<and> scanline_loop buf w (n + length (scanlines (added wld wld'))) n acc s
         = Some (acc @ scanlines (added wld wld'))
     \<and> (res = Returns () \<longrightarrow> n + length (scanlines (added wld wld')) = h)"
  using assms
proof (induction env buf w h n s wld arbitrary: acc rule: write_loop.induct)
  case (1 env buf w h n s wld)
  show ?case
  proof (cases "n < h")
    case False
    with "1.prems" have e: "res = Returns ()" "wld' = wld" "n = h"
      by (simp_all add: write_loop.simps[of env buf w h n])
    show ?thesis unfolding e by (simp add: ends_Returns scanline_loop.simps[of buf w h h])
  next
    case True
    with "1.prems"(1) obtain row s' where rl: "row_loop buf w 0 [] s = Some (row, s')"
      by (auto simp: write_loop.simps[of env buf w h n] split: option.splits)
    obtain r wld1 where sy: "sys env wld (Jpeg_write_scanlines row) = (r, wld1)"
      by (cases "sys env wld (Jpeg_write_scanlines row)")
    have a: "trace wld = trace wld @ added wld wld" by simp
    note a1 = added_sys[OF a sy]
    have j: "is_jpeg (Jpeg_write_scanlines row)" by (simp add: is_jpeg_def)
    show ?thesis
    proof (cases "rv r < 0")
      case neg: True
      with "1.prems"(1) True rl sy have e: "res = Exits EXIT_FAILURE" "wld' = wld1"
        by (simp_all add: write_loop.simps[of env buf w h n])
      have eq: "added wld wld1 = [Sys (Jpeg_write_scanlines row) r]" using a1(1) by simp
      have sl: "scanline_loop buf w (n + 1) n acc s = Some (acc @ [row])"
        using rl by (simp add: scanline_loop.simps[of buf w "Suc n" n] scanline_loop.simps[of buf w "Suc n" "Suc n"])
      show ?thesis using a1(2) neg j True sl unfolding e eq
        by (simp add: ends_Exits jpeg_failed_Sys)
    next
      case nonneg: False
      with "1.prems"(1) True rl sy have
        wl: "write_loop env buf w h (n + 1) s' wld1 = Some (res, wld')"
        by (simp add: write_loop.simps[of env buf w h n])
      from True have le: "n + 1 \<le> h" by simp
      note ih = "1.IH"[OF True rl refl sy[symmetric] nonneg wl le, of "acc @ [row]"]
      note t = added_trans[OF a1(2) ih[THEN conjunct1]]
      have eq: "added wld wld' = Sys (Jpeg_write_scanlines row) r # added wld1 wld'"
        using t(2) a1(1) by simp
      have sc: "scanlines (added wld wld') = row # scanlines (added wld1 wld')"
        unfolding eq using scanlines_append[of "[Sys (Jpeg_write_scanlines row) r]"] by simp
      have n: "\<forall>e\<in>set [Sys (Jpeg_write_scanlines row) r]. \<not> jpeg_failed e"
        using nonneg by simp
      have en: "ends res (added wld wld')"
        using ends_append[OF n, of res "added wld1 wld'"] ih unfolding eq by simp
      have sl: "scanline_loop buf w (n + length (scanlines (added wld wld'))) n acc s
         = Some (acc @ scanlines (added wld wld'))"
        unfolding sc using ih rl
        by (subst scanline_loop.simps) simp
      show ?thesis using t(1) en sl ih unfolding sc by (auto simp: eq)
    qed
  qed
qed

lemma jpeg_calls_added:
  assumes "jpeg_calls env w cs = (res, w')" and "\<forall>c\<in>set cs. is_jpeg c"
  shows "trace w' = trace w @ added w w'"
    and "\<forall>e\<in>set (added w w'). \<exists>c r. e = Sys c r \<and> c \<in> set cs"
    and "ends res (added w w')"
proof -
  note e = jpeg_calls_events[OF assms]
  show "trace w' = trace w @ added w w'" by (rule e[THEN conjunct1])
  show "\<forall>e\<in>set (added w w'). \<exists>c r. e = Sys c r \<and> c \<in> set cs"
    by (rule e[THEN conjunct2, THEN conjunct1])
  show "ends res (added w w')"
    by (rule e[THEN conjunct2, THEN conjunct2, THEN conjunct1])
qed

lemma write_loop_added:
  assumes "write_loop env buf w h 0 (0, 0) wld = Some (res, wld')"
  shows "trace wld' = trace wld @ added wld wld'"
    and "\<forall>e\<in>set (added wld wld'). \<exists>row x. e = Sys (Jpeg_write_scanlines row) x"
    and "ends res (added wld wld')"
    and "length (scanlines (added wld wld')) \<le> h"
    and "scanline_loop buf w (length (scanlines (added wld wld'))) 0 [] (0, 0)
           = Some (scanlines (added wld wld'))"
    and "res = Returns () \<longrightarrow> length (scanlines (added wld wld')) = h"
proof -
  have z: "(0::nat) \<le> h" by simp
  note e = write_loop_rows[OF assms z, of "[]"]
  show "trace wld' = trace wld @ added wld wld'" by (rule e[THEN conjunct1])
  show "\<forall>e\<in>set (added wld wld'). \<exists>row x. e = Sys (Jpeg_write_scanlines row) x"
    by (rule e[THEN conjunct2, THEN conjunct1])
  show "ends res (added wld wld')"
    by (rule e[THEN conjunct2, THEN conjunct2, THEN conjunct1])
  show "length (scanlines (added wld wld')) \<le> h"
    using e[THEN conjunct2, THEN conjunct2, THEN conjunct2, THEN conjunct1] by simp
  show "scanline_loop buf w (length (scanlines (added wld wld'))) 0 [] (0, 0)
           = Some (scanlines (added wld wld'))"
    using e[THEN conjunct2, THEN conjunct2, THEN conjunct2, THEN conjunct2, THEN conjunct1]
    by simp
  show "res = Returns () \<longrightarrow> length (scanlines (added wld wld')) = h"
    using e[THEN conjunct2, THEN conjunct2, THEN conjunct2, THEN conjunct2, THEN conjunct2]
    by simp
qed

lemma YUYV2JPEG_cases:
  assumes "YUYV2JPEG env vi w = Some (res, w')"
  obtains
    (no_memory) row_buffer w1 where
      "sys env w (Calloc (scast (width vi * 3))) = (row_buffer, w1)" "rv row_buffer = 0"
      "res = Returns False" "w' = emit w1 (Stderr ''Line buffer allocation failed\<newline>'' [])"
  | (setup_exit) row_buffer w1 status where
      "sys env w (Calloc (scast (width vi * 3))) = (row_buffer, w1)" "rv row_buffer \<noteq> 0"
      "jpeg_calls env w1 (jpeg_setup vi) = (Exits status, w')" "res = Exits status"
  | (write_exit) row_buffer w1 w2 mem w3 status where
      "sys env w (Calloc (scast (width vi * 3))) = (row_buffer, w1)" "rv row_buffer \<noteq> 0"
      "jpeg_calls env w1 (jpeg_setup vi) = (Returns (), w2)"
      "sys env w2 (Read_buffer (buffer vi) (buffer_len vi)) = (mem, w3)"
      "write_loop env (take (unat (buffer_len vi)) (frame mem)) (sint (width vi))
         (unat (height vi)) 0 (0, 0) w3 = Some (Exits status, w')"
      "res = Exits status"
  | (finish_exit) row_buffer w1 w2 mem w3 w4 status where
      "sys env w (Calloc (scast (width vi * 3))) = (row_buffer, w1)" "rv row_buffer \<noteq> 0"
      "jpeg_calls env w1 (jpeg_setup vi) = (Returns (), w2)"
      "sys env w2 (Read_buffer (buffer vi) (buffer_len vi)) = (mem, w3)"
      "write_loop env (take (unat (buffer_len vi)) (frame mem)) (sint (width vi))
         (unat (height vi)) 0 (0, 0) w3 = Some (Returns (), w4)"
      "jpeg_calls env w4 [Jpeg_finish_compress, Jpeg_destroy_compress] = (Exits status, w')"
      "res = Exits status"
  | (encoded) row_buffer w1 w2 mem w3 w4 w5 where
      "sys env w (Calloc (scast (width vi * 3))) = (row_buffer, w1)" "rv row_buffer \<noteq> 0"
      "jpeg_calls env w1 (jpeg_setup vi) = (Returns (), w2)"
      "sys env w2 (Read_buffer (buffer vi) (buffer_len vi)) = (mem, w3)"
      "write_loop env (take (unat (buffer_len vi)) (frame mem)) (sint (width vi))
         (unat (height vi)) 0 (0, 0) w3 = Some (Returns (), w4)"
      "jpeg_calls env w4 [Jpeg_finish_compress, Jpeg_destroy_compress] = (Returns (), w5)"
      "res = Returns True" "w' = snd (sys env w5 Free)"
proof -
  obtain row_buffer w1 where s: "sys env w (Calloc (scast (width vi * 3))) = (row_buffer, w1)"
    by (cases "sys env w (Calloc (scast (width vi * 3)))")
  show thesis
  proof (cases "rv row_buffer = 0")
    case True
    with assms s show thesis
      by (intro no_memory[of row_buffer w1]) (auto simp: YUYV2JPEG_def)
  next
    case False
    obtain o1 w2 where j1: "jpeg_calls env w1 (jpeg_setup vi) = (o1, w2)"
      by (cases "jpeg_calls env w1 (jpeg_setup vi)")
    show thesis
    proof (cases o1)
      case (Exits status)
      with assms s False j1 show thesis
        by (intro setup_exit[of row_buffer w1 status]) (auto simp: YUYV2JPEG_def)
    next
      case (Returns u1)
      obtain mem w3 where s2: "sys env w2 (Read_buffer (buffer vi) (buffer_len vi)) = (mem, w3)"
        by (cases "sys env w2 (Read_buffer (buffer vi) (buffer_len vi))")
      from assms s False j1 Returns s2 obtain o2 w4 where
        wl: "write_loop env (take (unat (buffer_len vi)) (frame mem)) (sint (width vi))
         (unat (height vi)) 0 (0, 0) w3 = Some (o2, w4)"
        by (auto simp: YUYV2JPEG_def Let_def split: option.splits)
      show thesis
      proof (cases o2)
        case (Exits status)
        with assms s False j1 Returns s2 wl show thesis
          by (intro write_exit[of row_buffer w1 w2 mem w3 status])
            (auto simp: YUYV2JPEG_def Let_def)
      next
        case r2: (Returns u2)
        obtain o3 w5 where
          j2: "jpeg_calls env w4 [Jpeg_finish_compress, Jpeg_destroy_compress] = (o3, w5)"
          by (cases "jpeg_calls env w4 [Jpeg_finish_compress, Jpeg_destroy_compress]")
        show thesis
        proof (cases o3)
          case (Exits status)
          with assms s False j1 Returns s2 wl r2 j2 show thesis
            by (intro finish_exit[of row_buffer w1 w2 mem w3 w4 status])
              (auto simp: YUYV2JPEG_def Let_def)
        next
          case r3: (Returns u3)
          with assms s False j1 Returns s2 wl r2 j2 show thesis
            by (intro encoded[of row_buffer w1 w2 mem w3 w4 w5])
              (auto simp: YUYV2JPEG_def Let_def)
        qed
      qed
    qed
  qed
qed

lemma encode_shape:
  assumes J1: "\<forall>e\<in>set J1. \<exists>c r. e = Sys c r \<and> c \<in> set (jpeg_setup vi)"
    and Wr: "\<forall>e\<in>set Wr. \<exists>row x. e = Sys (Jpeg_write_scanlines row) x"
    and J2: "\<forall>e\<in>set J2. \<exists>c r. e = Sys c r \<and> c \<in> set [Jpeg_finish_compress, Jpeg_destroy_compress]"
    and Tl: "\<forall>e\<in>set Tl. \<exists>r. e = Sys Free r"
    and k: "length (scanlines Wr) \<le> unat (height vi)"
    and sl: "scanline_loop (take (unat (buffer_len vi)) (frame mem)) (sint (width vi))
               (length (scanlines Wr)) 0 [] (0, 0) = Some (scanlines Wr)"
    and fin: "J2 \<noteq> [] \<longrightarrow> length (scanlines Wr) = unat (height vi)"
    and evs: "evs = Sys (Calloc (scast (width vi * 3))) rb # J1 @
                Sys (Read_buffer (buffer vi) (buffer_len vi)) mem # Wr @ J2 @ Tl"
    and en: "ends res evs"
  shows "encode_events res (width vi) (height vi) evs"
proof -
  have s1: "scanlines J1 = []" by (rule scanlines_none) (use J1 in auto)
  have s2: "scanlines J2 = []" by (rule scanlines_none) (use J2 in auto)
  have s3: "scanlines Tl = []" by (rule scanlines_none) (use Tl in auto)
  have s4: "scanlines [Sys (Calloc (scast (width vi * 3))) rb] = []"
    "scanlines [Sys (Read_buffer (buffer vi) (buffer_len vi)) mem] = []"
    by (simp_all add: scanlines_def)
  have "evs = [Sys (Calloc (scast (width vi * 3))) rb] @ J1 @
                [Sys (Read_buffer (buffer vi) (buffer_len vi)) mem] @ Wr @ J2 @ Tl"
    using evs by simp
  then have sc: "scanlines evs = scanlines Wr"
    by (simp only: scanlines_append s1 s2 s3 s4 append_Nil append_Nil2)
  have p: "\<forall>e\<in>set evs. phase_of e \<in> {Saving, Message}"
    unfolding evs using J1 Wr J2 Tl by auto
  have c: "\<forall>n x. Sys (Calloc n) x \<in> set evs \<longrightarrow> n = scast (width vi * 3)"
    unfolding evs using J1 Wr J2 Tl by auto
  have j: "\<forall>iw ih x. Sys (Jpeg_start_compress iw ih) x \<in> set evs \<longrightarrow>
      iw = width vi \<and> ih = height vi"
    unfolding evs using J1 Wr J2 Tl by auto
  have rd: "\<And>addr len m. Sys (Read_buffer addr len) m \<in> set evs \<Longrightarrow>
      len = buffer_len vi \<and> m = mem"
    unfolding evs using J1 Wr J2 Tl by auto
  have f: "\<And>x. Sys Jpeg_finish_compress x \<in> set evs \<Longrightarrow> J2 \<noteq> []"
    unfolding evs using J1 Wr J2 Tl by auto
  have r: "\<forall>addr len m. Sys (Read_buffer addr len) m \<in> set evs \<longrightarrow>
           (\<exists>k\<le>unat (height vi). scanline_loop (take (unat len) (frame m)) (sint (width vi)) k 0 [] (0, 0)
                          = Some (scanlines evs))
         \<and> (\<forall>x. Sys Jpeg_finish_compress x \<in> set evs \<longrightarrow>
               convert (take (unat len) (frame m)) (width vi) (height vi) = Some (scanlines evs))"
  proof (intro allI impI conjI)
    fix addr len m assume a: "Sys (Read_buffer addr len) m \<in> set evs"
    from rd[OF a] have e: "len = buffer_len vi" "m = mem" by simp_all
    show "\<exists>k\<le>unat (height vi). scanline_loop (take (unat len) (frame m)) (sint (width vi)) k 0 [] (0, 0)
                          = Some (scanlines evs)"
      unfolding e sc using k sl by blast
    fix x assume "Sys Jpeg_finish_compress x \<in> set evs"
    from f[OF this] fin have "length (scanlines Wr) = unat (height vi)" by simp
    then show "convert (take (unat len) (frame m)) (width vi) (height vi) = Some (scanlines evs)"
      unfolding e sc convert_def using sl by simp
  qed
  have n: "(\<forall>addr len m. Sys (Read_buffer addr len) m \<notin> set evs) \<longrightarrow> scanlines evs = []"
    unfolding evs by auto
  have o: "\<forall>path r. Sys (Fopen path) r \<notin> set evs"
    unfolding evs using J1 Wr J2 Tl by auto
  have m: "\<forall>f. saved_msg f \<notin> set evs"
    unfolding evs using J1 Wr J2 Tl by auto
  show ?thesis unfolding encode_events_def using p c j r n en o m by blast
qed

lemma jpeg_setup_is_jpeg: "\<forall>c\<in>set (jpeg_setup vi). is_jpeg c"
  by (simp add: is_jpeg_def)

lemma jpeg_finish_is_jpeg: "\<forall>c\<in>set [Jpeg_finish_compress, Jpeg_destroy_compress]. is_jpeg c"
  by (simp add: is_jpeg_def)

lemma not_jpeg [simp]:
  "\<not> is_jpeg (Calloc n)" "\<not> is_jpeg (Read_buffer addr len)" "\<not> is_jpeg Free"
  "\<not> is_jpeg (Fopen path)" "\<not> is_jpeg Fclose"
  by (simp_all add: is_jpeg_def)

lemma ends_cast: "ends (Exits status :: 'a outcome) evs \<Longrightarrow> ends (Exits status :: 'b outcome) evs"
  by (simp add: ends_Exits)

lemma YUYV2JPEG_events:
  assumes "YUYV2JPEG env vi w = Some (res, w')"
  shows "trace w' = trace w @ added w w' \<and> encode_events res (width vi) (height vi) (added w w')"
  using assms
proof (cases rule: YUYV2JPEG_cases)
  case (no_memory row_buffer w1)
  have a: "trace w = trace w @ added w w" by simp
  note a1 = added_sys[OF a no_memory(1)]
  have eq: "added w w' = [Sys (Calloc (scast (width vi * 3))) row_buffer,
      Stderr ''Line buffer allocation failed\<newline>'' []]"
    unfolding no_memory using a1 by (simp add: added_emit)
  have t: "trace w' = trace w @ added w w'"
    unfolding eq using a1 by (simp add: no_memory(4))
  have "encode_events res (width vi) (height vi) (added w w')"
    unfolding eq encode_events_def no_memory(3) by (simp add: ends_Returns scanlines_def)
  with t show ?thesis by simp
next
  case (setup_exit row_buffer w1 status)
  have a: "trace w = trace w @ added w w" by simp
  note a1 = added_sys[OF a setup_exit(1)]
  note j1 = jpeg_calls_added[OF setup_exit(3) jpeg_setup_is_jpeg]
  note t = added_trans[OF a1(2) j1(1)]
  have eq: "added w w' = Sys (Calloc (scast (width vi * 3))) row_buffer # added w1 w'"
    using t(2) a1(1) by simp
  have n: "\<forall>e\<in>set [Sys (Calloc (scast (width vi * 3))) row_buffer]. \<not> jpeg_failed e" by simp
  from ends_append[OF n ends_cast[OF j1(3)]] have en: "ends res (added w w')"
    unfolding eq setup_exit(4) by simp
  have s1: "scanlines (added w1 w') = []" by (rule scanlines_none) (use j1(2) in auto)
  have sc: "scanlines (added w w') = []"
    unfolding eq using scanlines_append[of "[Sys (Calloc (scast (width vi * 3))) row_buffer]" "added w1 w'"] s1
    by (simp add: scanlines_def)
  note j1e = j1(2)
  have p: "\<forall>e\<in>set (added w w'). phase_of e \<in> {Saving, Message}"
    unfolding eq using j1e by auto
  have c: "\<forall>n x. Sys (Calloc n) x \<in> set (added w w') \<longrightarrow> n = scast (width vi * 3)"
    unfolding eq using j1e by auto
  have j: "\<forall>iw ih x. Sys (Jpeg_start_compress iw ih) x \<in> set (added w w') \<longrightarrow>
      iw = width vi \<and> ih = height vi"
    unfolding eq using j1e by auto
  have r: "\<forall>addr len m. Sys (Read_buffer addr len) m \<notin> set (added w w')"
    unfolding eq using j1e by auto
  have o: "\<forall>path r. Sys (Fopen path) r \<notin> set (added w w')"
    unfolding eq using j1e by auto
  have m: "\<forall>f. saved_msg f \<notin> set (added w w')"
    unfolding eq using j1e by auto
  have "encode_events res (width vi) (height vi) (added w w')"
    unfolding encode_events_def using p c j r sc en o m by blast
  with t(1) show ?thesis by simp
next
  case (write_exit row_buffer w1 w2 mem w3 status)
  have a: "trace w = trace w @ added w w" by simp
  note a1 = added_sys[OF a write_exit(1)]
  note j1 = jpeg_calls_added[OF write_exit(3) jpeg_setup_is_jpeg]
  note t1 = added_trans[OF a1(2) j1(1)]
  note a2 = added_sys[OF t1(1) write_exit(4)]
  note wl = write_loop_added[OF write_exit(5)]
  note t2 = added_trans[OF a2(2) wl(1)]
  have eq0: "added w w' = (Sys (Calloc (scast (width vi * 3))) row_buffer # added w1 w2 @
      [Sys (Read_buffer (buffer vi) (buffer_len vi)) mem]) @ added w3 w'"
    using t2(2) a2(1) t1(2) a1(1) by simp
  have eq: "added w w' = Sys (Calloc (scast (width vi * 3))) row_buffer # added w1 w2 @
      Sys (Read_buffer (buffer vi) (buffer_len vi)) mem # added w3 w' @ [] @ []"
    using eq0 by simp
  have "\<forall>e\<in>set (added w1 w2). \<not> jpeg_failed e"
    using j1(3) by (simp add: ends_Returns)
  then have n: "\<forall>e\<in>set (Sys (Calloc (scast (width vi * 3))) row_buffer # added w1 w2 @
      [Sys (Read_buffer (buffer vi) (buffer_len vi)) mem]). \<not> jpeg_failed e"
    by auto
  from ends_append[OF n ends_cast[OF wl(3)]] have en: "ends res (added w w')"
    unfolding eq0 write_exit(6) .
  have "encode_events res (width vi) (height vi) (added w w')"
    by (rule encode_shape[OF j1(2) wl(2) _ _ wl(4) wl(5) _ eq en]) simp_all
  with t2(1) show ?thesis by simp
next
  case (finish_exit row_buffer w1 w2 mem w3 w4 status)
  have a: "trace w = trace w @ added w w" by simp
  note a1 = added_sys[OF a finish_exit(1)]
  note j1 = jpeg_calls_added[OF finish_exit(3) jpeg_setup_is_jpeg]
  note t1 = added_trans[OF a1(2) j1(1)]
  note a2 = added_sys[OF t1(1) finish_exit(4)]
  note wl = write_loop_added[OF finish_exit(5)]
  note t2 = added_trans[OF a2(2) wl(1)]
  note j2 = jpeg_calls_added[OF finish_exit(6) jpeg_finish_is_jpeg]
  note t3 = added_trans[OF t2(1) j2(1)]
  have eq0: "added w w' = (Sys (Calloc (scast (width vi * 3))) row_buffer # added w1 w2 @
      Sys (Read_buffer (buffer vi) (buffer_len vi)) mem # added w3 w4) @ added w4 w'"
    using t3(2) t2(2) a2(1) t1(2) a1(1) by simp
  have eq: "added w w' = Sys (Calloc (scast (width vi * 3))) row_buffer # added w1 w2 @
      Sys (Read_buffer (buffer vi) (buffer_len vi)) mem # added w3 w4 @ added w4 w' @ []"
    using eq0 by simp
  have "\<forall>e\<in>set (added w1 w2). \<not> jpeg_failed e" "\<forall>e\<in>set (added w3 w4). \<not> jpeg_failed e"
    using j1(3) wl(3) by (simp_all add: ends_Returns)
  then have n: "\<forall>e\<in>set (Sys (Calloc (scast (width vi * 3))) row_buffer # added w1 w2 @
      Sys (Read_buffer (buffer vi) (buffer_len vi)) mem # added w3 w4). \<not> jpeg_failed e"
    by auto
  from ends_append[OF n ends_cast[OF j2(3)]] have en: "ends res (added w w')"
    unfolding eq0 finish_exit(7) .
  have wlf: "added w4 w' \<noteq> [] \<longrightarrow> length (scanlines (added w3 w4)) = unat (height vi)"
    using wl(6) by simp
  have "encode_events res (width vi) (height vi) (added w w')"
    by (rule encode_shape[OF j1(2) wl(2) j2(2) _ wl(4) wl(5) wlf eq en]) simp
  with t3(1) show ?thesis by simp
next
  case (encoded row_buffer w1 w2 mem w3 w4 w5)
  have a: "trace w = trace w @ added w w" by simp
  note a1 = added_sys[OF a encoded(1)]
  note j1 = jpeg_calls_added[OF encoded(3) jpeg_setup_is_jpeg]
  note t1 = added_trans[OF a1(2) j1(1)]
  note a2 = added_sys[OF t1(1) encoded(4)]
  note wl = write_loop_added[OF encoded(5)]
  note t2 = added_trans[OF a2(2) wl(1)]
  note j2 = jpeg_calls_added[OF encoded(6) jpeg_finish_is_jpeg]
  note t3 = added_trans[OF t2(1) j2(1)]
  have t: "trace w' = trace w @ (added w w5 @ [Sys Free (env (trace w5) Free)])"
    using t3(1) encoded(8) by simp
  then have eq0: "added w w' = added w w5 @ [Sys Free (env (trace w5) Free)]"
    by (rule added_append)
  have eq: "added w w' = Sys (Calloc (scast (width vi * 3))) row_buffer # added w1 w2 @
      Sys (Read_buffer (buffer vi) (buffer_len vi)) mem # added w3 w4 @ added w4 w5 @
      [Sys Free (env (trace w5) Free)]"
    using eq0 t3(2) t2(2) a2(1) t1(2) a1(1) by simp
  have "\<forall>e\<in>set (added w1 w2). \<not> jpeg_failed e" "\<forall>e\<in>set (added w3 w4). \<not> jpeg_failed e"
    "\<forall>e\<in>set (added w4 w5). \<not> jpeg_failed e"
    using j1(3) wl(3) j2(3) by (simp_all add: ends_Returns)
  then have en: "ends res (added w w')"
    unfolding eq encoded(7) by (auto simp: ends_Returns)
  have wlf: "added w4 w5 \<noteq> [] \<longrightarrow> length (scanlines (added w3 w4)) = unat (height vi)"
    using wl(6) by simp
  have "encode_events res (width vi) (height vi) (added w w')"
    by (rule encode_shape[OF j1(2) wl(2) j2(2) _ wl(4) wl(5) wlf eq en]) simp
  moreover have "trace w' = trace w @ added w w'" using t eq0 by simp
  ultimately show ?thesis by simp
qed

text \<open>When \<^verbatim>\<open>YUYV2JPEG\<close> returns true, the rows handed over are those of \<^const>\<open>convert\<close>.\<close>

lemma YUYV2JPEG_encoded:
  assumes "YUYV2JPEG env vi w = Some (Returns True, w')"
  shows "\<exists>mem. Sys (Read_buffer (buffer vi) (buffer_len vi)) mem \<in> set (added w w')
     \<and> convert (take (unat (buffer_len vi)) (frame mem)) (width vi) (height vi)
         = Some (scanlines (added w w'))"
  using assms
proof (cases rule: YUYV2JPEG_cases)
  case (encoded row_buffer w1 w2 mem w3 w4 w5)
  have a: "trace w = trace w @ added w w" by simp
  note a1 = added_sys[OF a encoded(1)]
  note j1 = jpeg_calls_added[OF encoded(3) jpeg_setup_is_jpeg]
  note t1 = added_trans[OF a1(2) j1(1)]
  note a2 = added_sys[OF t1(1) encoded(4)]
  note wl = write_loop_added[OF encoded(5)]
  note t2 = added_trans[OF a2(2) wl(1)]
  note j2 = jpeg_calls_added[OF encoded(6) jpeg_finish_is_jpeg]
  note t3 = added_trans[OF t2(1) j2(1)]
  have t: "trace w' = trace w @ (added w w5 @ [Sys Free (env (trace w5) Free)])"
    using t3(1) encoded(8) by simp
  then have eq0: "added w w' = added w w5 @ [Sys Free (env (trace w5) Free)]"
    by (rule added_append)
  have eq: "added w w' = [Sys (Calloc (scast (width vi * 3))) row_buffer] @ added w1 w2 @
      [Sys (Read_buffer (buffer vi) (buffer_len vi)) mem] @ added w3 w4 @ added w4 w5 @
      [Sys Free (env (trace w5) Free)]"
    using eq0 t3(2) t2(2) a2(1) t1(2) a1(1) by simp
  have s1: "scanlines (added w1 w2) = []" by (rule scanlines_none) (use j1(2) in auto)
  have s2: "scanlines (added w4 w5) = []" by (rule scanlines_none) (use j2(2) in auto)
  have s3: "scanlines [Sys (Calloc (scast (width vi * 3))) row_buffer] = []"
    "scanlines [Sys (Read_buffer (buffer vi) (buffer_len vi)) mem] = []"
    "scanlines [Sys Free (env (trace w5) Free)] = []"
    by (simp_all add: scanlines_def)
  have sc: "scanlines (added w w') = scanlines (added w3 w4)"
    unfolding eq by (simp only: scanlines_append s1 s2 s3 append_Nil append_Nil2)
  have "convert (take (unat (buffer_len vi)) (frame mem)) (width vi) (height vi)
         = Some (scanlines (added w3 w4))"
    unfolding convert_def using wl(5,6) by simp
  moreover have "Sys (Read_buffer (buffer vi) (buffer_len vi)) mem \<in> set (added w w')"
    unfolding eq by simp
  ultimately show ?thesis unfolding sc by blast
qed simp_all

lemma saveImage_cases:
  assumes "saveImage env fname vi w = Some (res, w')"
  obtains
    (fopen_failed) fp w1 where "sys env w (Fopen fname) = (fp, w1)" "rv fp = 0"
      "res = Returns False" "w' = perror w1 ''fopen()''"
  | (exited) fp w1 status where "sys env w (Fopen fname) = (fp, w1)" "rv fp \<noteq> 0"
      "YUYV2JPEG env vi w1 = Some (Exits status, w')" "res = Exits status"
  | (saved) fp w1 encoded w2 where "sys env w (Fopen fname) = (fp, w1)" "rv fp \<noteq> 0"
      "YUYV2JPEG env vi w1 = Some (Returns encoded, w2)" "res = Returns True"
      "w' = emit (snd (sys env w2 Fclose)) (saved_msg fname)"
proof -
  obtain fp w1 where s: "sys env w (Fopen fname) = (fp, w1)"
    by (cases "sys env w (Fopen fname)")
  show thesis
  proof (cases "rv fp = 0")
    case True
    with assms s show thesis
      by (intro fopen_failed[of fp w1]) (auto simp: saveImage_def)
  next
    case False
    with assms s obtain o1 w2 where y: "YUYV2JPEG env vi w1 = Some (o1, w2)"
      by (auto simp: saveImage_def split: option.splits)
    show thesis
    proof (cases o1)
      case (Exits status)
      with assms s False y show thesis
        by (intro exited[of fp w1 status]) (auto simp: saveImage_def)
    next
      case (Returns encoded)
      with assms s False y show thesis
        by (intro saved[of fp w1 encoded w2]) (auto simp: saveImage_def Let_def)
    qed
  qed
qed

lemma save_shape:
  assumes E: "encode_events res0 W H E"
    and evs: "evs = Sys (Fopen fname) fp # E @ Tl"
    and Tl: "Tl = [] \<or> Tl = [Sys Fclose x, saved_msg fname]"
    and en: "ends res evs"
    and ex: "\<forall>status. res = Exits status \<longrightarrow> Tl = []"
    and rt: "\<forall>b. res = Returns b \<longrightarrow> b \<and> Tl \<noteq> []"
  shows "save_events res fname W H evs"
proof -
  have st: "scanlines Tl = []" using Tl by (auto simp: scanlines_def)
  have "evs = [Sys (Fopen fname) fp] @ E @ Tl" using evs by simp
  then have sc: "scanlines evs = scanlines E"
    using st by (simp add: scanlines_def)
  have Ep: "\<forall>e\<in>set E. phase_of e \<in> {Saving, Message}"
    and Ec: "\<forall>n x. Sys (Calloc n) x \<in> set E \<longrightarrow> n = scast (W * 3)"
    and Ej: "\<forall>iw ih x. Sys (Jpeg_start_compress iw ih) x \<in> set E \<longrightarrow> iw = W \<and> ih = H"
    and Er: "\<forall>addr len mem. Sys (Read_buffer addr len) mem \<in> set E \<longrightarrow>
           (\<exists>k\<le>unat H. scanline_loop (take (unat len) (frame mem)) (sint W) k 0 [] (0, 0)
                          = Some (scanlines E))
         \<and> (\<forall>x. Sys Jpeg_finish_compress x \<in> set E \<longrightarrow>
               convert (take (unat len) (frame mem)) W H = Some (scanlines E))"
    and En: "(\<forall>addr len mem. Sys (Read_buffer addr len) mem \<notin> set E) \<longrightarrow> scanlines E = []"
    and Eo: "\<forall>path r. Sys (Fopen path) r \<notin> set E"
    and Em: "\<forall>f. saved_msg f \<notin> set E"
    using E unfolding encode_events_def by blast+
  have mem: "\<And>e. e \<in> set evs \<longleftrightarrow> e = Sys (Fopen fname) fp \<or> e \<in> set E \<or> e \<in> set Tl"
    unfolding evs by auto
  have p: "\<forall>e\<in>set evs. phase_of e \<in> {Saving, Message}"
    using Ep Tl by (auto simp: mem)
  have c: "\<forall>n x. Sys (Calloc n) x \<in> set evs \<longrightarrow> n = scast (W * 3)"
    using Ec Tl by (auto simp: mem)
  have j: "\<forall>iw ih x. Sys (Jpeg_start_compress iw ih) x \<in> set evs \<longrightarrow> iw = W \<and> ih = H"
    using Ej Tl by (auto simp: mem)
  have rd: "\<And>addr len m. Sys (Read_buffer addr len) m \<in> set evs \<longleftrightarrow>
      Sys (Read_buffer addr len) m \<in> set E"
    using Tl by (auto simp: mem)
  have fi: "\<And>x. Sys Jpeg_finish_compress x \<in> set evs \<longleftrightarrow> Sys Jpeg_finish_compress x \<in> set E"
    using Tl by (auto simp: mem)
  have r: "\<forall>addr len mem. Sys (Read_buffer addr len) mem \<in> set evs \<longrightarrow>
           (\<exists>k\<le>unat H. scanline_loop (take (unat len) (frame mem)) (sint W) k 0 [] (0, 0)
                          = Some (scanlines evs))
         \<and> (\<forall>x. Sys Jpeg_finish_compress x \<in> set evs \<longrightarrow>
               convert (take (unat len) (frame mem)) W H = Some (scanlines evs))"
    unfolding rd fi sc by (rule Er)
  have n: "(\<forall>addr len mem. Sys (Read_buffer addr len) mem \<notin> set evs) \<longrightarrow> scanlines evs = []"
    unfolding rd sc by (rule En)
  have m: "\<forall>status. res = Exits status \<longrightarrow> (\<forall>f. saved_msg f \<notin> set evs)"
    using ex Em by (auto simp: mem)
  have f: "\<forall>path r. Sys (Fopen path) r \<in> set evs \<longrightarrow> rv r \<noteq> 0 \<longrightarrow>
           path = fname \<and> (\<forall>b. res = Returns b \<longrightarrow> b \<and> saved_msg fname \<in> set evs)"
    using Eo Tl rt by (auto simp: mem)
  show ?thesis unfolding save_events_def using p c j r n en m f by blast
qed

lemma save_added:
  assumes "saveImage env fname vi w = Some (res, w')"
  shows "trace w' = trace w @ added w w'"
    and "save_events res fname (width vi) (height vi) (added w w')"
proof -
  have "trace w' = trace w @ added w w'
      \<and> save_events res fname (width vi) (height vi) (added w w')"
    using assms
  proof (cases rule: saveImage_cases)
    case (fopen_failed fp w1)
    have a: "trace w = trace w @ added w w" by simp
    note a1 = added_sys[OF a fopen_failed(1)]
    have eq: "added w w' = [Sys (Fopen fname) fp, Perror ''fopen()'' (errno w1)]"
      unfolding fopen_failed using a1 by (simp add: added_perror)
    have t: "trace w' = trace w @ added w w'"
      unfolding eq using a1 by (simp add: fopen_failed(4))
    have "save_events res fname (width vi) (height vi) (added w w')"
      unfolding eq save_events_def fopen_failed(3) using fopen_failed(2)
      by (simp add: ends_Returns scanlines_def)
    with t show ?thesis by simp
  next
    case (exited fp w1 status)
    have a: "trace w = trace w @ added w w" by simp
    note a1 = added_sys[OF a exited(1)]
    note y = YUYV2JPEG_events[OF exited(3)]
    note t = added_trans[OF a1(2) y[THEN conjunct1]]
    have eq0: "added w w' = [Sys (Fopen fname) fp] @ added w1 w'"
      using t(2) a1(1) by simp
    have eq: "added w w' = Sys (Fopen fname) fp # added w1 w' @ []"
      using eq0 by simp
    have n: "\<forall>e\<in>set [Sys (Fopen fname) fp]. \<not> jpeg_failed e" by simp
    have "ends (Exits status :: bool outcome) (added w1 w')"
      using y unfolding encode_events_def by blast
    from ends_append[OF n this] have en: "ends res (added w w')"
      unfolding eq0 exited(4) .
    have "save_events res fname (width vi) (height vi) (added w w')"
      by (rule save_shape[OF y[THEN conjunct2] eq _ en]) (simp_all add: exited(4))
    with t(1) show ?thesis by simp
  next
    case (saved fp w1 encoded w2)
    have a: "trace w = trace w @ added w w" by simp
    note a1 = added_sys[OF a saved(1)]
    note y = YUYV2JPEG_events[OF saved(3)]
    note t = added_trans[OF a1(2) y[THEN conjunct1]]
    have tr: "trace w' = trace w @ (Sys (Fopen fname) fp # added w1 w2 @
        [Sys Fclose (env (trace w2) Fclose), saved_msg fname])"
      using t a1 by (simp add: saved(5))
    then have eq: "added w w' = Sys (Fopen fname) fp # added w1 w2 @
        [Sys Fclose (env (trace w2) Fclose), saved_msg fname]"
      by (rule added_append)
    have "ends (Returns encoded) (added w1 w2)"
      using y unfolding encode_events_def by blast
    then have "\<forall>e\<in>set (added w1 w2). \<not> jpeg_failed e" by (simp add: ends_Returns)
    then have en: "ends res (added w w')"
      unfolding eq saved(4) by (auto simp: ends_Returns)
    have "save_events res fname (width vi) (height vi) (added w w')"
      by (rule save_shape[OF y[THEN conjunct2] eq _ en]) (simp_all add: saved(4))
    moreover have "trace w' = trace w @ added w w'" using tr eq by simp
    ultimately show ?thesis by simp
  qed
  then show "trace w' = trace w @ added w w'"
    and "save_events res fname (width vi) (height vi) (added w w')"
    by simp_all
qed

subsection \<open>The run as a whole\<close>

lemma init_added:
  assumes "initVideoDevice env vi (Some path) w = Some (b, vi', w')"
  shows "trace w' = trace w @ added w w'" "init_events b (added w w')"
    "width vi' = width vi" "height vi' = height vi"
  using initVideoDevice_events[OF assms] by (simp_all add: init_events_def)

lemma format_added:
  assumes "setFormat env vi w = Some (b, vi', w')"
  shows "trace w' = trace w @ added w w'"
    "format_events b (width vi) (height vi) (width vi') (height vi') (added w w')"
    "fd vi' = fd vi"
proof -
  note e = setFormat_events[OF assms]
  show "trace w' = trace w @ added w w'" "fd vi' = fd vi" using e by simp_all
  show "format_events b (width vi) (height vi) (width vi') (height vi') (added w w')"
    unfolding format_events_def using e by blast
qed

lemma buffer_added:
  assumes "allocBuffer env vi w = Some (b, vi', w')"
  shows "trace w' = trace w @ added w w'" "buffer_events (added w w')"
    "width vi' = width vi" "height vi' = height vi" "fd vi' = fd vi"
  using allocBuffer_events[OF assms] by (simp_all add: buffer_events_def)

lemma capture_added:
  assumes "captureImage env vi w = Some (b, w')"
  shows "trace w' = trace w @ added w w'" "capture_events b (added w w')"
proof -
  note e = captureImage_events[OF assms]
  show t: "trace w' = trace w @ added w w'" using e by simp
  have "last (trace w') = timed_out_msg \<Longrightarrow> added w w' \<noteq> [] \<Longrightarrow> timed_out_msg \<in> set (added w w')"
    using t by (metis last_appendR last_in_set)
  then show "capture_events b (added w w')"
    unfolding capture_events_def using e by (metis empty_iff empty_set)
qed

lemma main_cases:
  assumes "main env atoi opts = Some (code, w')"
  obtains
    (usage) "getopt_loop atoi opts (VI_init, DEFAULT_VIDEODEV, DEFAULT_OUTPUTFILE, world_init) = Inl w'"
      "code = 1"
  | (init_failed) VI vd ofile w0 VI1 where
      "getopt_loop atoi opts (VI_init, DEFAULT_VIDEODEV, DEFAULT_OUTPUTFILE, world_init)
         = Inr (VI, vd, ofile, w0)"
      "initVideoDevice env VI (Some vd) w0 = Some (False, VI1, w')" "code = 1"
  | (format_failed) VI vd ofile w0 VI1 w1 VI2 w2 where
      "getopt_loop atoi opts (VI_init, DEFAULT_VIDEODEV, DEFAULT_OUTPUTFILE, world_init)
         = Inr (VI, vd, ofile, w0)"
      "initVideoDevice env VI (Some vd) w0 = Some (True, VI1, w1)"
      "setFormat env VI1 w1 = Some (False, VI2, w2)"
      "code = 1" "w' = snd (sys env w2 (Close (fd VI2)))"
  | (alloc_failed) VI vd ofile w0 VI1 w1 VI2 w2 VI3 w3 where
      "getopt_loop atoi opts (VI_init, DEFAULT_VIDEODEV, DEFAULT_OUTPUTFILE, world_init)
         = Inr (VI, vd, ofile, w0)"
      "initVideoDevice env VI (Some vd) w0 = Some (True, VI1, w1)"
      "setFormat env VI1 w1 = Some (True, VI2, w2)"
      "allocBuffer env VI2 w2 = Some (False, VI3, w3)"
      "code = 1" "w' = snd (sys env w3 (Close (fd VI3)))"
  | (discard_failed) VI vd ofile w0 VI1 w1 VI2 w2 VI3 w3 w4 where
      "getopt_loop atoi opts (VI_init, DEFAULT_VIDEODEV, DEFAULT_OUTPUTFILE, world_init)
         = Inr (VI, vd, ofile, w0)"
      "initVideoDevice env VI (Some vd) w0 = Some (True, VI1, w1)"
      "setFormat env VI1 w1 = Some (True, VI2, w2)"
      "allocBuffer env VI2 w2 = Some (True, VI3, w3)"
      "captureImage env VI3 w3 = Some (False, w4)"
      "code = 1"
      "w' = snd (sys env (releaseBuffer env VI3
              (emit w4 (Stderr ''Error capturing initial frame, exiting\<newline>'' [])))
            (Close (fd VI3)))"
  | (live_failed) VI vd ofile w0 VI1 w1 VI2 w2 VI3 w3 w4 w5 where
      "getopt_loop atoi opts (VI_init, DEFAULT_VIDEODEV, DEFAULT_OUTPUTFILE, world_init)
         = Inr (VI, vd, ofile, w0)"
      "initVideoDevice env VI (Some vd) w0 = Some (True, VI1, w1)"
      "setFormat env VI1 w1 = Some (True, VI2, w2)"
      "allocBuffer env VI2 w2 = Some (True, VI3, w3)"
      "captureImage env VI3 w3 = Some (True, w4)"
      "captureImage env VI3 w4 = Some (False, w5)"
      "code = 0" "w' = snd (sys env (releaseBuffer env VI3 w5) (Close (fd VI3)))"
  | (save_exited) VI vd ofile w0 VI1 w1 VI2 w2 VI3 w3 w4 w5 where
      "getopt_loop atoi opts (VI_init, DEFAULT_VIDEODEV, DEFAULT_OUTPUTFILE, world_init)
         = Inr (VI, vd, ofile, w0)"
      "initVideoDevice env VI (Some vd) w0 = Some (True, VI1, w1)"
      "setFormat env VI1 w1 = Some (True, VI2, w2)"
      "allocBuffer env VI2 w2 = Some (True, VI3, w3)"
      "captureImage env VI3 w3 = Some (True, w4)"
      "captureImage env VI3 w4 = Some (True, w5)"
      "saveImage env ofile VI3 w5 = Some (Exits code, w')"
  | (save_attempted) VI vd ofile w0 VI1 w1 VI2 w2 VI3 w3 w4 w5 saved w6 where
      "getopt_loop atoi opts (VI_init, DEFAULT_VIDEODEV, DEFAULT_OUTPUTFILE, world_init)
         = Inr (VI, vd, ofile, w0)"
      "initVideoDevice env VI (Some vd) w0 = Some (True, VI1, w1)"
      "setFormat env VI1 w1 = Some (True, VI2, w2)"
      "allocBuffer env VI2 w2 = Some (True, VI3, w3)"
      "captureImage env VI3 w3 = Some (True, w4)"
      "captureImage env VI3 w4 = Some (True, w5)"
      "saveImage env ofile VI3 w5 = Some (Returns saved, w6)"
      "code = 0" "w' = snd (sys env (releaseBuffer env VI3 w6) (Close (fd VI3)))"
proof (cases "getopt_loop atoi opts (VI_init, DEFAULT_VIDEODEV, DEFAULT_OUTPUTFILE, world_init)")
  case (Inl w)
  with assms show thesis by (intro usage) (auto simp: main_def)
next
  case (Inr st)
  obtain VI vd ofile w0 where st: "st = (VI, vd, ofile, w0)" by (cases st)
  note g = Inr[unfolded st]
  from assms g obtain ok1 VI1 w1 where
    i: "initVideoDevice env VI (Some vd) w0 = Some (ok1, VI1, w1)"
    by (auto simp: main_def split: bind_splits)
  show thesis
  proof (cases ok1)
    case False
    with assms g i show thesis
      by (intro init_failed[of VI vd ofile w0 VI1]) (auto simp: main_def)
  next
    case ok1: True
    with assms g i obtain ok2 VI2 w2 where f: "setFormat env VI1 w1 = Some (ok2, VI2, w2)"
      by (auto simp: main_def split: bind_splits)
    show thesis
    proof (cases ok2)
      case False
      with assms g i ok1 f show thesis
        by (intro format_failed[of VI vd ofile w0 VI1 w1 VI2 w2]) (auto simp: main_def)
    next
      case ok2: True
      with assms g i ok1 f obtain ok3 VI3 w3 where a: "allocBuffer env VI2 w2 = Some (ok3, VI3, w3)"
        by (auto simp: main_def split: bind_splits)
      show thesis
      proof (cases ok3)
        case False
        with assms g i ok1 f ok2 a show thesis
          by (intro alloc_failed[of VI vd ofile w0 VI1 w1 VI2 w2 VI3 w3]) (auto simp: main_def)
      next
        case ok3: True
        with assms g i ok1 f ok2 a obtain ok4 w4 where c1: "captureImage env VI3 w3 = Some (ok4, w4)"
          by (auto simp: main_def split: bind_splits)
        show thesis
        proof (cases ok4)
          case False
          with assms g i ok1 f ok2 a ok3 c1 show thesis
            by (intro discard_failed[of VI vd ofile w0 VI1 w1 VI2 w2 VI3 w3 w4])
              (auto simp: main_def Let_def)
        next
          case ok4: True
          with assms g i ok1 f ok2 a ok3 c1 obtain ok5 w5 where
            c2: "captureImage env VI3 w4 = Some (ok5, w5)"
            by (auto simp: main_def split: bind_splits)
          show thesis
          proof (cases ok5)
            case False
            with assms g i ok1 f ok2 a ok3 c1 ok4 c2 show thesis
              by (intro live_failed[of VI vd ofile w0 VI1 w1 VI2 w2 VI3 w3 w4 w5])
                (auto simp: main_def Let_def)
          next
            case ok5: True
            with assms g i ok1 f ok2 a ok3 c1 ok4 c2 obtain res w6 where
              s: "saveImage env ofile VI3 w5 = Some (res, w6)"
              by (auto simp: main_def Let_def split: bind_splits option.splits)
            show thesis
            proof (cases res)
              case (Exits status)
              with assms g i ok1 f ok2 a ok3 c1 ok4 c2 ok5 s show thesis
                by (intro save_exited[of VI vd ofile w0 VI1 w1 VI2 w2 VI3 w3 w4 w5])
                  (auto simp: main_def Let_def)
            next
              case (Returns saved)
              with assms g i ok1 f ok2 a ok3 c1 ok4 c2 ok5 s show thesis
                by (intro save_attempted[of VI vd ofile w0 VI1 w1 VI2 w2 VI3 w3 w4 w5 saved w6])
                  (auto simp: main_def Let_def)
            qed
          qed
        qed
      qed
    qed
  qed
qed

lemma releaseBuffer_trace [simp]:
  "trace (releaseBuffer env vi w) =
   trace w @ [Sys (Munmap (buffer vi) (buffer_len vi)) (env (trace w) (Munmap (buffer vi) (buffer_len vi)))]"
  by (simp add: releaseBuffer_def)

lemma main_run:
  assumes "main env atoi opts = Some (code, w')"
  defines "rw \<equiv> requested atoi (CHR ''w'') DEFAULT_WIDTH opts"
    and "rh \<equiv> requested atoi (CHR ''h'') DEFAULT_HEIGHT opts"
    and "Op \<equiv> option_warnings atoi opts"
  obtains
    (usage) "code = 1" "\<forall>e\<in>set (trace w'). phase_of e = Message \<and> \<not> is_perror e"
  | (init_failed) In where "code = 1" "trace w' = Op @ In" "init_events False In"
  | (format_failed) In Fm W H c where "code = 1" "trace w' = Op @ In @ Fm @ [Sys (Close c) (env (Op @ In @ Fm) (Close c))]"
      "init_events True In" "format_events False rw rh W H Fm"
  | (alloc_failed) In Fm W H Bf c where "code = 1"
      "trace w' = Op @ In @ Fm @ Bf @ [Sys (Close c) (env (Op @ In @ Fm @ Bf) (Close c))]"
      "init_events True In" "format_events True rw rh W H Fm" "buffer_events Bf"
  | (discard_failed) In Fm W H Bf C m c rm rc where "code = 1"
      "trace w' = Op @ In @ Fm @ Bf @ C @ [failed_frame_msg, Sys m rm, Sys (Close c) rc]"
      "call_phase m = Buffer"
      "init_events True In" "format_events True rw rh W H Fm" "buffer_events Bf"
      "capture_events False C"
  | (live_failed) In Fm W H Bf C1 C2 m c rm rc where "code = 0"
      "trace w' = Op @ In @ Fm @ Bf @ C1 @ C2 @ [Sys m rm, Sys (Close c) rc]"
      "call_phase m = Buffer"
      "init_events True In" "format_events True rw rh W H Fm" "buffer_events Bf"
      "capture_events True C1" "capture_events False C2"
  | (save_exited) In Fm W H Bf C1 C2 ofile Sv where
      "trace w' = Op @ In @ Fm @ Bf @ C1 @ C2 @ Sv"
      "init_events True In" "format_events True rw rh W H Fm" "buffer_events Bf"
      "capture_events True C1" "capture_events True C2" "save_events (Exits code) ofile W H Sv"
  | (save_attempted) In Fm W H Bf C1 C2 saved ofile Sv m c rm rc where "code = 0"
      "trace w' = Op @ In @ Fm @ Bf @ C1 @ C2 @ Sv @ [Sys m rm, Sys (Close c) rc]"
      "call_phase m = Buffer"
      "init_events True In" "format_events True rw rh W H Fm" "buffer_events Bf"
      "capture_events True C1" "capture_events True C2"
      "save_events (Returns saved) ofile W H Sv"
  using assms(1)
proof (cases rule: main_cases)
  case usage
  from getopt_loop_Inl[OF usage(1)] have "\<forall>e\<in>set (trace w'). phase_of e = Message \<and> \<not> is_perror e"
    by (auto simp: world_init_def)
  with usage(2) show ?thesis by (rule that(1))
next
  case (init_failed VI vd ofile w0 VI1)
  note g = getopt_loop_Inr[OF init_failed(1)]
  note i = init_added[OF init_failed(2)]
  show ?thesis
    by (rule that(2)[where In = "added w0 w'"]) (use g i init_failed(3) in \<open>simp_all add: Op_def option_warnings_def\<close>)
next
  case (format_failed VI vd ofile w0 VI1 w1 VI2 w2)
  note g = getopt_loop_Inr[OF format_failed(1)]
  note i = init_added[OF format_failed(2)]
  note f = format_added[OF format_failed(3)]
  have t: "trace w2 = Op @ added w0 w1 @ added w1 w2"
    using g(1) i(1) f(1) by (simp add: Op_def option_warnings_def)
  show ?thesis
    by (rule that(3)[where In = "added w0 w1" and W = "width VI2" and H = "height VI2"
          and Fm = "added w1 w2" and c = "fd VI2"])
      (use g i f t format_failed(4,5) in \<open>simp_all add: rw_def rh_def\<close>)
next
  case (alloc_failed VI vd ofile w0 VI1 w1 VI2 w2 VI3 w3)
  note g = getopt_loop_Inr[OF alloc_failed(1)]
  note i = init_added[OF alloc_failed(2)]
  note f = format_added[OF alloc_failed(3)]
  note a = buffer_added[OF alloc_failed(4)]
  have t: "trace w3 = Op @ added w0 w1 @ added w1 w2 @ added w2 w3"
    using g(1) i(1) f(1) a(1) by (simp add: Op_def option_warnings_def)
  show ?thesis
    by (rule that(4)[where In = "added w0 w1" and W = "width VI2" and H = "height VI2"
          and Fm = "added w1 w2" and Bf = "added w2 w3" and c = "fd VI3"])
      (use g i f a t alloc_failed(5,6) in \<open>simp_all add: rw_def rh_def\<close>)
next
  case (discard_failed VI vd ofile w0 VI1 w1 VI2 w2 VI3 w3 w4)
  note g = getopt_loop_Inr[OF discard_failed(1)]
  note i = init_added[OF discard_failed(2)]
  note f = format_added[OF discard_failed(3)]
  note a = buffer_added[OF discard_failed(4)]
  note c = capture_added[OF discard_failed(5)]
  have t: "trace w4 = Op @ added w0 w1 @ added w1 w2 @ added w2 w3 @ added w3 w4"
    using g(1) i(1) f(1) a(1) c(1) by (simp add: Op_def option_warnings_def)
  show ?thesis
    by (rule that(5)[where In = "added w0 w1" and W = "width VI2" and H = "height VI2"
          and Fm = "added w1 w2" and Bf = "added w2 w3" and C = "added w3 w4"
          and m = "Munmap (buffer VI3) (buffer_len VI3)" and c = "fd VI3"])
      (use g i f a c t discard_failed(6,7) in \<open>simp_all add: rw_def rh_def\<close>)
next
  case (live_failed VI vd ofile w0 VI1 w1 VI2 w2 VI3 w3 w4 w5)
  note g = getopt_loop_Inr[OF live_failed(1)]
  note i = init_added[OF live_failed(2)]
  note f = format_added[OF live_failed(3)]
  note a = buffer_added[OF live_failed(4)]
  note c1 = capture_added[OF live_failed(5)]
  note c2 = capture_added[OF live_failed(6)]
  have t: "trace w5 = Op @ added w0 w1 @ added w1 w2 @ added w2 w3 @ added w3 w4 @ added w4 w5"
    using g(1) i(1) f(1) a(1) c1(1) c2(1) by (simp add: Op_def option_warnings_def)
  show ?thesis
    by (rule that(6)[where In = "added w0 w1" and W = "width VI2" and H = "height VI2"
          and Fm = "added w1 w2" and Bf = "added w2 w3" and ?C1.0 = "added w3 w4"
          and ?C2.0 = "added w4 w5" and m = "Munmap (buffer VI3) (buffer_len VI3)"
          and c = "fd VI3"])
      (use g i f a c1 c2 t live_failed(7,8) in \<open>simp_all add: rw_def rh_def\<close>)
next
  case (save_exited VI vd ofile w0 VI1 w1 VI2 w2 VI3 w3 w4 w5)
  note g = getopt_loop_Inr[OF save_exited(1)]
  note i = init_added[OF save_exited(2)]
  note f = format_added[OF save_exited(3)]
  note a = buffer_added[OF save_exited(4)]
  note c1 = capture_added[OF save_exited(5)]
  note c2 = capture_added[OF save_exited(6)]
  note s = save_added[OF save_exited(7)]
  have t: "trace w' = Op @ added w0 w1 @ added w1 w2 @ added w2 w3 @ added w3 w4 @ added w4 w5
      @ added w5 w'"
    using g(1) i(1) f(1) a(1) c1(1) c2(1) s(1) by (simp add: Op_def option_warnings_def)
  show ?thesis
    by (rule that(7)[where In = "added w0 w1" and W = "width VI2" and H = "height VI2"
          and Fm = "added w1 w2" and Bf = "added w2 w3" and ?C1.0 = "added w3 w4"
          and ?C2.0 = "added w4 w5" and ofile = ofile and Sv = "added w5 w'"])
      (use g i f a c1 c2 s t in \<open>simp_all add: rw_def rh_def\<close>)
next
  case (save_attempted VI vd ofile w0 VI1 w1 VI2 w2 VI3 w3 w4 w5 saved w6)
  note g = getopt_loop_Inr[OF save_attempted(1)]
  note i = init_added[OF save_attempted(2)]
  note f = format_added[OF save_attempted(3)]
  note a = buffer_added[OF save_attempted(4)]
  note c1 = capture_added[OF save_attempted(5)]
  note c2 = capture_added[OF save_attempted(6)]
  note s = save_added[OF save_attempted(7)]
  have t: "trace w6 = Op @ added w0 w1 @ added w1 w2 @ added w2 w3 @ added w3 w4 @ added w4 w5
      @ added w5 w6"
    using g(1) i(1) f(1) a(1) c1(1) c2(1) s(1) by (simp add: Op_def option_warnings_def)
  show ?thesis
    by (rule that(8)[where In = "added w0 w1" and W = "width VI2" and H = "height VI2"
          and Fm = "added w1 w2" and Bf = "added w2 w3" and ?C1.0 = "added w3 w4"
          and ?C2.0 = "added w4 w5" and saved = saved and ofile = ofile
          and Sv = "added w5 w6" and m = "Munmap (buffer VI3) (buffer_len VI3)"
          and c = "fd VI3"])
      (use g i f a c1 c2 s t save_attempted(8,9) in \<open>simp_all add: rw_def rh_def\<close>)
qed

lemma captureImage_wait:
  assumes "captureImage env vi w = Some (b, w')"
    and "Sys (Select fdes secs) r \<in> set (added w w')"
  shows "(rv r < 0 \<longrightarrow> \<not> b \<and> last (trace w') = Perror ''select'' (err r))
       \<and> (rv r = 0 \<longrightarrow> \<not> b \<and> last (trace w') = timed_out_msg)
       \<and> (0 < rv r \<longrightarrow> (\<exists>x. Sys (Ioctl (fd vi) VIDIOC_DQBUF) x \<in> set (added w w')))"
  using assms(1)
proof (cases rule: captureImage_cases)
  case (qbuf_failed q w1)
  note a1 = xioctl_added[OF qbuf_failed(1)]
  note m = xioctl_added_mem[OF qbuf_failed(1)]
  have eq: "added w w' = added w w1 @ [Perror ''ioctl(VIDIOC_QBUF)'' (errno w1)]"
    unfolding qbuf_failed using a1(1) by (rule added_perror)
  show ?thesis using assms(2) unfolding eq by (auto dest!: m)
next
  case (streamon_failed q w1 on w2)
  note a1 = xioctl_added[OF streamon_failed(1)]
  note a2 = xioctl_added[OF streamon_failed(3)]
  note m = xioctl_added_mem[OF streamon_failed(1)] xioctl_added_mem[OF streamon_failed(3)]
  note a12 = added_trans[OF a1(1) a2(1)]
  have eq: "added w w' = added w w1 @ added w1 w2 @ [Perror ''ioctl(VIDIOC_STREAMON)'' (errno w2)]"
    unfolding streamon_failed using a12 by (simp add: added_perror)
  show ?thesis using assms(2) unfolding eq by (auto dest!: m)
next
  case (select_failed q w1 on w2 sel w3)
  note a1 = xioctl_added[OF select_failed(1)]
  note a2 = xioctl_added[OF select_failed(3)]
  note m = xioctl_added_mem[OF select_failed(1)] xioctl_added_mem[OF select_failed(3)]
  note a12 = added_trans[OF a1(1) a2(1)]
  note a3 = added_sys[OF a12(1) select_failed(5)]
  have eq: "added w w' = added w w1 @ added w1 w2 @ [Sys (Select (fd vi) 5) sel, Perror ''select'' (errno w3)]"
    unfolding select_failed using a3 a12 by (simp add: added_perror)
  have l: "last (trace w') = Perror ''select'' (err sel)"
    using sys_trace[OF select_failed(5)] by (simp add: select_failed(8))
  show ?thesis using assms(2) l select_failed(6,7) unfolding eq by (auto dest!: m)
next
  case (timed_out q w1 on w2 sel w3)
  note a1 = xioctl_added[OF timed_out(1)]
  note a2 = xioctl_added[OF timed_out(3)]
  note m = xioctl_added_mem[OF timed_out(1)] xioctl_added_mem[OF timed_out(3)]
  note a12 = added_trans[OF a1(1) a2(1)]
  note a3 = added_sys[OF a12(1) timed_out(5)]
  have eq: "added w w' = added w w1 @ added w1 w2 @ [Sys (Select (fd vi) 5) sel, timed_out_msg]"
    unfolding timed_out using a3 a12 by (simp add: added_emit)
  have l: "last (trace w') = timed_out_msg"
    by (simp add: timed_out(8))
  show ?thesis using assms(2) l timed_out(6,7) unfolding eq by (auto dest!: m)
next
  case (dqbuf_failed q w1 on w2 sel w3 dq w4)
  note a1 = xioctl_added[OF dqbuf_failed(1)]
  note a2 = xioctl_added[OF dqbuf_failed(3)]
  note a12 = added_trans[OF a1(1) a2(1)]
  note a3 = added_sys[OF a12(1) dqbuf_failed(5)]
  note a4 = xioctl_added[OF dqbuf_failed(7)]
  note a34 = added_trans[OF a3(2) a4(1)]
  note m = xioctl_added_mem[OF dqbuf_failed(1)] xioctl_added_mem[OF dqbuf_failed(3)]
    xioctl_added_mem[OF dqbuf_failed(7)]
  have eq: "added w w' = added w w1 @ added w1 w2 @ [Sys (Select (fd vi) 5) sel] @ added w3 w4
      @ [Perror ''ioctl(VIDIOC_DQBUF)'' (errno w4)]"
    unfolding dqbuf_failed using a3 a12 a34 by (simp add: added_perror)
  have d: "Sys (Ioctl (fd vi) VIDIOC_DQBUF) dq \<in> set (added w w')"
    unfolding eq using a4(3) by simp
  have "r = sel" using assms(2) unfolding eq by (auto dest!: m)
  then show ?thesis using d dqbuf_failed(6) by auto
next
  case (streamoff_failed q w1 on w2 sel w3 dq w4 off w5)
  note a1 = xioctl_added[OF streamoff_failed(1)]
  note a2 = xioctl_added[OF streamoff_failed(3)]
  note a12 = added_trans[OF a1(1) a2(1)]
  note a3 = added_sys[OF a12(1) streamoff_failed(5)]
  note a4 = xioctl_added[OF streamoff_failed(7)]
  note a34 = added_trans[OF a3(2) a4(1)]
  note a5 = xioctl_added[OF streamoff_failed(9)]
  note a45 = added_trans[OF a34(1) a5(1)]
  note m = xioctl_added_mem[OF streamoff_failed(1)] xioctl_added_mem[OF streamoff_failed(3)]
    xioctl_added_mem[OF streamoff_failed(7)] xioctl_added_mem[OF streamoff_failed(9)]
  have eq: "added w w' = added w w1 @ added w1 w2 @ [Sys (Select (fd vi) 5) sel] @ added w3 w4
      @ added w4 w5 @ [Perror ''ioctl(VIDIOC_STREAMOFF)'' (errno w5)]"
    unfolding streamoff_failed using a3 a12 a34 a45 by (simp add: added_perror)
  have d: "Sys (Ioctl (fd vi) VIDIOC_DQBUF) dq \<in> set (added w w')"
    unfolding eq using a4(3) by simp
  have "r = sel" using assms(2) unfolding eq by (auto dest!: m)
  then show ?thesis using d streamoff_failed(6) by auto
next
  case (captured q w1 on w2 sel w3 dq w4 off)
  note a1 = xioctl_added[OF captured(1)]
  note a2 = xioctl_added[OF captured(3)]
  note a12 = added_trans[OF a1(1) a2(1)]
  note a3 = added_sys[OF a12(1) captured(5)]
  note a4 = xioctl_added[OF captured(7)]
  note a34 = added_trans[OF a3(2) a4(1)]
  note a5 = xioctl_added[OF captured(9)]
  note a45 = added_trans[OF a34(1) a5(1)]
  note m = xioctl_added_mem[OF captured(1)] xioctl_added_mem[OF captured(3)]
    xioctl_added_mem[OF captured(7)] xioctl_added_mem[OF captured(9)]
  have eq: "added w w' = added w w1 @ added w1 w2 @ [Sys (Select (fd vi) 5) sel] @ added w3 w4
      @ added w4 w'"
    using a3 a12 a34 a45 by simp
  have d: "Sys (Ioctl (fd vi) VIDIOC_DQBUF) dq \<in> set (added w w')"
    unfolding eq using a4(3) by simp
  have "r = sel" using assms(2) unfolding eq by (auto dest!: m)
  then show ?thesis using d captured(6) by auto
qed

lemma option_phase:
  "e \<in> set (option_warnings atoi opts) \<Longrightarrow> phase_of e = Message"
  using option_warnings_events by blast

lemma init_phase:
  "init_events b evs \<Longrightarrow> e \<in> set evs \<Longrightarrow> phase_of e \<in> {Opening, Closing, Capabilities, Message}"
  by (simp add: init_events_def)

lemma format_phase:
  "format_events b rw rh W H evs \<Longrightarrow> e \<in> set evs \<Longrightarrow> phase_of e \<in> {Format, Message}"
  by (simp add: format_events_def)

lemma buffer_phase:
  "buffer_events evs \<Longrightarrow> e \<in> set evs \<Longrightarrow> phase_of e \<in> {Buffer, Message}"
  by (simp add: buffer_events_def)

lemma capture_phase:
  "capture_events b evs \<Longrightarrow> e \<in> set evs \<Longrightarrow> phase_of e \<in> {Capture, Message}"
  by (simp add: capture_events_def)

lemma save_phase:
  "save_events b fname W H evs \<Longrightarrow> e \<in> set evs \<Longrightarrow> phase_of e \<in> {Saving, Message}"
  by (simp add: save_events_def)

lemma capture_timeout:
  "capture_events b evs \<Longrightarrow> Sys (Select fdes secs) r \<in> set evs \<Longrightarrow> rv r = 0 \<Longrightarrow>
   \<not> b \<and> timed_out_msg \<in> set evs"
  by (simp add: capture_events_def)

lemma run_timeout:
  assumes "main env atoi opts = Some (code, w')"
    and "Sys (Select fdes secs) r \<in> set (trace w')" and "rv r = 0"
  shows "timed_out_msg \<in> set (trace w') \<and> (\<forall>e\<in>set (trace w'). phase_of e \<noteq> Saving)"
  using assms(1)
proof (cases rule: main_run)
  case usage
  then show ?thesis using assms(2) by auto
next
  case (init_failed In)
  then show ?thesis using assms(2)
    by (auto dest: option_phase init_phase)
next
  case (format_failed In Fm W H c)
  then show ?thesis using assms(2)
    by (auto dest: option_phase init_phase format_phase)
next
  case (alloc_failed In Fm W H Bf c)
  then show ?thesis using assms(2)
    by (auto dest: option_phase init_phase format_phase buffer_phase)
next
  case (discard_failed In Fm W H Bf C m c rm rc)
  have "Sys (Select fdes secs) r \<in> set C"
    using assms(2) discard_failed(3-6) unfolding discard_failed(2)
    by (auto dest: option_phase init_phase format_phase buffer_phase)
  then have "timed_out_msg \<in> set C"
    using discard_failed(7) assms(3) by (auto dest: capture_timeout)
  moreover have "\<forall>e\<in>set (trace w'). phase_of e \<noteq> Saving"
    unfolding discard_failed(2) using discard_failed(3-7)
    by (auto dest: option_phase init_phase format_phase buffer_phase capture_phase)
  ultimately show ?thesis unfolding discard_failed(2) by simp
next
  case (live_failed In Fm W H Bf C1 C2 m c rm rc)
  have n1: "Sys (Select fdes secs) r \<notin> set C1"
    using live_failed(7) assms(3) by (auto dest: capture_timeout)
  have "Sys (Select fdes secs) r \<in> set C2"
    using assms(2) n1 live_failed(3-6) unfolding live_failed(2)
    by (auto dest: option_phase init_phase format_phase buffer_phase)
  then have "timed_out_msg \<in> set C2"
    using live_failed(8) assms(3) by (auto dest: capture_timeout)
  moreover have "\<forall>e\<in>set (trace w'). phase_of e \<noteq> Saving"
    unfolding live_failed(2) using live_failed(3-8)
    by (auto dest: option_phase init_phase format_phase buffer_phase capture_phase)
  ultimately show ?thesis unfolding live_failed(2) by simp
next
  case (save_exited In Fm W H Bf C1 C2 ofile Sv)
  have n1: "Sys (Select fdes secs) r \<notin> set C1"
    using save_exited(5) assms(3) by (auto dest: capture_timeout)
  have n2: "Sys (Select fdes secs) r \<notin> set C2"
    using save_exited(6) assms(3) by (auto dest: capture_timeout)
  have False
    using assms(2) n1 n2 save_exited(2-4,7) unfolding save_exited(1)
    by (auto dest: option_phase init_phase format_phase buffer_phase save_phase)
  then show ?thesis ..
next
  case (save_attempted In Fm W H Bf C1 C2 saved ofile Sv m c rm rc)
  have n1: "Sys (Select fdes secs) r \<notin> set C1"
    using save_attempted(7) assms(3) by (auto dest: capture_timeout)
  have n2: "Sys (Select fdes secs) r \<notin> set C2"
    using save_attempted(8) assms(3) by (auto dest: capture_timeout)
  have False
    using assms(2) n1 n2 save_attempted(3-6,9) unfolding save_attempted(2)
    by (auto dest: option_phase init_phase format_phase buffer_phase save_phase)
  then show ?thesis ..
qed

lemma option_not_perror:
  "e \<in> set (option_warnings atoi opts) \<Longrightarrow> \<not> is_perror e"
  using option_warnings_events by blast

lemma init_caps:
  "init_events b evs \<Longrightarrow> Sys (Ioctl fdes VIDIOC_QUERYCAP) r \<in> set evs \<Longrightarrow> 0 \<le> rv r \<Longrightarrow>
   (b \<longleftrightarrow> caps_ok r) \<and> (\<forall>e\<in>set evs. \<not> is_perror e)
   \<and> (cap_capabilities r AND V4L2_CAP_VIDEO_CAPTURE = 0 \<longrightarrow> no_capture_msg \<in> set evs)
   \<and> (cap_capabilities r AND V4L2_CAP_VIDEO_CAPTURE \<noteq> 0 \<longrightarrow>
        cap_capabilities r AND V4L2_CAP_STREAMING = 0 \<longrightarrow> no_streaming_msg \<in> set evs)"
  unfolding init_events_def caps_report_def by blast

lemma run_unsupported:
  assumes "main env atoi opts = Some (code, w')"
    and "Sys (Ioctl fdes VIDIOC_QUERYCAP) r \<in> set (trace w')" and "0 \<le> rv r"
    and "\<not> caps_ok r"
  shows "code = 1
    \<and> (\<forall>e\<in>set (trace w'). phase_of e \<notin> {Format, Buffer, Capture, Saving})
    \<and> (\<forall>e\<in>set (trace w'). \<not> is_perror e)
    \<and> (cap_capabilities r AND V4L2_CAP_VIDEO_CAPTURE = 0 \<longrightarrow> no_capture_msg \<in> set (trace w'))
    \<and> (cap_capabilities r AND V4L2_CAP_VIDEO_CAPTURE \<noteq> 0 \<longrightarrow> no_streaming_msg \<in> set (trace w'))"
  using assms(1)
proof (cases rule: main_run)
  case usage
  then show ?thesis using assms(2) by auto
next
  case (init_failed In)
  have q: "Sys (Ioctl fdes VIDIOC_QUERYCAP) r \<in> set In"
    using assms(2) unfolding init_failed(2) by (auto dest: option_phase)
  note c = init_caps[OF init_failed(3) q assms(3)]
  have p: "\<forall>e\<in>set (trace w'). phase_of e \<notin> {Format, Buffer, Capture, Saving}"
    unfolding init_failed(2) using init_failed(3) by (auto dest: option_phase init_phase)
  have e: "\<forall>e\<in>set (trace w'). \<not> is_perror e"
    unfolding init_failed(2) using c by (auto dest: option_not_perror)
  have s: "cap_capabilities r AND V4L2_CAP_VIDEO_CAPTURE \<noteq> 0 \<Longrightarrow>
      cap_capabilities r AND V4L2_CAP_STREAMING = 0"
    using assms(4) by (simp add: caps_ok_def)
  show ?thesis using init_failed(1) p e c s unfolding init_failed(2) by auto
next
  case (format_failed In Fm W H c)
  have q: "Sys (Ioctl fdes VIDIOC_QUERYCAP) r \<in> set In"
    using assms(2) format_failed(4) unfolding format_failed(2)
    by (auto dest: option_phase format_phase)
  from init_caps[OF format_failed(3) q assms(3)] assms(4) show ?thesis by simp
next
  case (alloc_failed In Fm W H Bf c)
  have q: "Sys (Ioctl fdes VIDIOC_QUERYCAP) r \<in> set In"
    using assms(2) alloc_failed(4,5) unfolding alloc_failed(2)
    by (auto dest: option_phase format_phase buffer_phase)
  from init_caps[OF alloc_failed(3) q assms(3)] assms(4) show ?thesis by simp
next
  case (discard_failed In Fm W H Bf C m c rm rc)
  have q: "Sys (Ioctl fdes VIDIOC_QUERYCAP) r \<in> set In"
    using assms(2) discard_failed(3,5,6,7) unfolding discard_failed(2)
    by (auto dest: option_phase format_phase buffer_phase capture_phase)
  from init_caps[OF discard_failed(4) q assms(3)] assms(4) show ?thesis by simp
next
  case (live_failed In Fm W H Bf C1 C2 m c rm rc)
  have q: "Sys (Ioctl fdes VIDIOC_QUERYCAP) r \<in> set In"
    using assms(2) live_failed(3,5,6,7,8) unfolding live_failed(2)
    by (auto dest: option_phase format_phase buffer_phase capture_phase)
  from init_caps[OF live_failed(4) q assms(3)] assms(4) show ?thesis by simp
next
  case (save_exited In Fm W H Bf C1 C2 ofile Sv)
  have q: "Sys (Ioctl fdes VIDIOC_QUERYCAP) r \<in> set In"
    using assms(2) save_exited(3-7) unfolding save_exited(1)
    by (auto dest: option_phase format_phase buffer_phase capture_phase save_phase)
  from init_caps[OF save_exited(2) q assms(3)] assms(4) show ?thesis by simp
next
  case (save_attempted In Fm W H Bf C1 C2 saved ofile Sv m c rm rc)
  have q: "Sys (Ioctl fdes VIDIOC_QUERYCAP) r \<in> set In"
    using assms(2) save_attempted(3,5,6,7,8,9) unfolding save_attempted(2)
    by (auto dest: option_phase format_phase buffer_phase capture_phase save_phase)
  from init_caps[OF save_attempted(4) q assms(3)] assms(4) show ?thesis by simp
qed

lemma format_read_back:
  "format_events True rw rh W H evs \<Longrightarrow>
   \<exists>fdes r. Sys (Ioctl fdes VIDIOC_G_FMT) r \<in> set evs \<and> 0 \<le> rv r \<and> W = pix_width r \<and> H = pix_height r"
  unfolding format_events_def by blast

lemma format_asked:
  "format_events b rw rh W H evs \<Longrightarrow> Sys (Ioctl fdes (VIDIOC_S_FMT x y)) r \<in> set evs \<Longrightarrow>
   x = rw \<and> y = rh"
  unfolding format_events_def by blast

lemma option_not_saved: "saved_msg f \<notin> set (option_warnings atoi opts)"
  unfolding option_warnings_def using option_warning_events[of "saved_msg f" atoi] by auto

lemma init_not_saved: "init_events b evs \<Longrightarrow> saved_msg f \<notin> set evs"
  unfolding init_events_def by blast

lemma format_not_saved: "format_events b rw rh W H evs \<Longrightarrow> saved_msg f \<notin> set evs"
  unfolding format_events_def by blast

lemma buffer_not_saved: "buffer_events evs \<Longrightarrow> saved_msg f \<notin> set evs"
  unfolding buffer_events_def by blast

lemma capture_not_saved: "capture_events True evs \<Longrightarrow> saved_msg f \<notin> set evs"
  unfolding capture_events_def by auto

lemma format_confirmed:
  "format_events b rw rh W H evs \<Longrightarrow> Sys (Ioctl fdes VIDIOC_G_FMT) r \<in> set evs \<Longrightarrow> 0 \<le> rv r \<Longrightarrow>
   W = pix_width r \<and> H = pix_height r"
  unfolding format_events_def by blast

text \<open>
  The saving part of a run, if there is one: it comes after a format was confirmed, which
  is the session's, and is followed by nothing when the process ended in it.
\<close>

lemma run_saving:
  assumes "main env atoi opts = Some (code, w')"
  obtains
    (nothing_saved) "\<forall>e\<in>set (trace w'). phase_of e \<noteq> Saving"
  | (saving) Pre Sv Post res ofile W H where
      "trace w' = Pre @ Sv @ Post"
      "\<forall>e\<in>set Pre. phase_of e \<noteq> Saving" "\<forall>e\<in>set Post. phase_of e \<noteq> Saving"
      "save_events res ofile W H Sv"
      "\<forall>fdes r. Sys (Ioctl fdes VIDIOC_G_FMT) r \<in> set (trace w') \<longrightarrow> 0 \<le> rv r \<longrightarrow>
         W = pix_width r \<and> H = pix_height r"
      "\<exists>fdes r. Sys (Ioctl fdes VIDIOC_G_FMT) r \<in> set (trace w') \<and> 0 \<le> rv r"
      "res = Exits code \<and> Post = [] \<or> (\<exists>b. res = Returns b) \<and> code = 0"
      "\<forall>f. saved_msg f \<notin> set Pre"
  using assms
proof (cases rule: main_run)
  case usage
  then have "\<forall>e\<in>set (trace w'). phase_of e \<noteq> Saving" by auto
  then show ?thesis by (rule nothing_saved)
next
  case (init_failed In)
  then have "\<forall>e\<in>set (trace w'). phase_of e \<noteq> Saving"
    by (auto dest: option_phase init_phase)
  then show ?thesis by (rule nothing_saved)
next
  case (format_failed In Fm W H c)
  then have "\<forall>e\<in>set (trace w'). phase_of e \<noteq> Saving"
    by (auto dest: option_phase init_phase format_phase)
  then show ?thesis by (rule nothing_saved)
next
  case (alloc_failed In Fm W H Bf c)
  then have "\<forall>e\<in>set (trace w'). phase_of e \<noteq> Saving"
    by (auto dest: option_phase init_phase format_phase buffer_phase)
  then show ?thesis by (rule nothing_saved)
next
  case (discard_failed In Fm W H Bf C m c rm rc)
  then have "\<forall>e\<in>set (trace w'). phase_of e \<noteq> Saving"
    by (auto dest: option_phase init_phase format_phase buffer_phase capture_phase)
  then show ?thesis by (rule nothing_saved)
next
  case (live_failed In Fm W H Bf C1 C2 m c rm rc)
  then have "\<forall>e\<in>set (trace w'). phase_of e \<noteq> Saving"
    by (auto dest: option_phase init_phase format_phase buffer_phase capture_phase)
  then show ?thesis by (rule nothing_saved)
next
  case (save_exited In Fm W H Bf C1 C2 ofile Sv)
  let ?Pre = "option_warnings atoi opts @ In @ Fm @ Bf @ C1 @ C2"
  have t: "trace w' = ?Pre @ Sv @ []" using save_exited(1) by simp
  have p: "\<forall>e\<in>set ?Pre. phase_of e \<noteq> Saving"
    using save_exited(2-6)
    by (auto dest: option_phase init_phase format_phase buffer_phase capture_phase)
  have g: "\<forall>fdes r. Sys (Ioctl fdes VIDIOC_G_FMT) r \<in> set (trace w') \<longrightarrow> 0 \<le> rv r \<longrightarrow>
         W = pix_width r \<and> H = pix_height r"
  proof (intro allI impI)
    fix fdes r assume a: "Sys (Ioctl fdes VIDIOC_G_FMT) r \<in> set (trace w')" "0 \<le> rv r"
    have "Sys (Ioctl fdes VIDIOC_G_FMT) r \<in> set Fm"
      using a(1) save_exited(2,4,5,6,7) unfolding save_exited(1)
      by (auto dest: option_phase init_phase buffer_phase capture_phase save_phase)
    from format_confirmed[OF save_exited(3) this a(2)]
    show "W = pix_width r \<and> H = pix_height r" .
  qed
  have x: "\<exists>fdes r. Sys (Ioctl fdes VIDIOC_G_FMT) r \<in> set (trace w') \<and> 0 \<le> rv r"
    using format_read_back[OF save_exited(3)] unfolding save_exited(1) by auto
  have ns: "\<forall>f. saved_msg f \<notin> set ?Pre"
    using save_exited(2-6)
    by (auto dest: init_not_saved format_not_saved buffer_not_saved capture_not_saved
          simp: option_not_saved)
  show ?thesis
    by (rule saving[OF t p _ save_exited(7) g x _ ns]) simp_all
next
  case (save_attempted In Fm W H Bf C1 C2 saved ofile Sv m c rm rc)
  let ?Pre = "option_warnings atoi opts @ In @ Fm @ Bf @ C1 @ C2"
  have t: "trace w' = ?Pre @ Sv @ [Sys m rm, Sys (Close c) rc]"
    using save_attempted(2) by simp
  have p: "\<forall>e\<in>set ?Pre. phase_of e \<noteq> Saving"
    using save_attempted(4-8)
    by (auto dest: option_phase init_phase format_phase buffer_phase capture_phase)
  have q: "\<forall>e\<in>set [Sys m rm, Sys (Close c) rc]. phase_of e \<noteq> Saving"
    using save_attempted(3) by simp
  have g: "\<forall>fdes r. Sys (Ioctl fdes VIDIOC_G_FMT) r \<in> set (trace w') \<longrightarrow> 0 \<le> rv r \<longrightarrow>
         W = pix_width r \<and> H = pix_height r"
  proof (intro allI impI)
    fix fdes r assume a: "Sys (Ioctl fdes VIDIOC_G_FMT) r \<in> set (trace w')" "0 \<le> rv r"
    have "Sys (Ioctl fdes VIDIOC_G_FMT) r \<in> set Fm"
      using a(1) save_attempted(3,4,6,7,8,9) unfolding save_attempted(2)
      by (auto dest: option_phase init_phase buffer_phase capture_phase save_phase)
    from format_confirmed[OF save_attempted(5) this a(2)]
    show "W = pix_width r \<and> H = pix_height r" .
  qed
  have x: "\<exists>fdes r. Sys (Ioctl fdes VIDIOC_G_FMT) r \<in> set (trace w') \<and> 0 \<le> rv r"
    using format_read_back[OF save_attempted(5)] unfolding save_attempted(2) by auto
  have ns: "\<forall>f. saved_msg f \<notin> set ?Pre"
    using save_attempted(4-8)
    by (auto dest: init_not_saved format_not_saved buffer_not_saved capture_not_saved
          simp: option_not_saved)
  show ?thesis
    by (rule saving[OF t p q save_attempted(9) g x _ ns]) (simp add: save_attempted(1))
qed

lemma run_saving_confirmed:
  assumes "main env atoi opts = Some (code, w')"
    and "e \<in> set (trace w')" and "phase_of e = Saving"
  shows "\<exists>fdes r. Sys (Ioctl fdes VIDIOC_G_FMT) r \<in> set (trace w') \<and> 0 \<le> rv r"
  using assms(1)
proof (cases rule: run_saving)
  case nothing_saved
  then show ?thesis using assms(2,3) by auto
next
  case (saving Pre Sv Post res ofile W H)
  then show ?thesis by blast
qed

lemma saving_mem:
  assumes "trace w' = Pre @ Sv @ Post"
    and "\<forall>e\<in>set Pre. phase_of e \<noteq> Saving" and "\<forall>e\<in>set Post. phase_of e \<noteq> Saving"
    and "e \<in> set (trace w')" and "phase_of e = Saving"
  shows "e \<in> set Sv"
  using assms by auto

lemma saving_scanlines:
  assumes "trace w' = Pre @ Sv @ Post"
    and "\<forall>e\<in>set Pre. phase_of e \<noteq> Saving" and "\<forall>e\<in>set Post. phase_of e \<noteq> Saving"
  shows "scanlines (trace w') = scanlines Sv"
  unfolding assms(1) using scanlines_other_phase[OF assms(2)] scanlines_other_phase[OF assms(3)]
  by simp

text \<open>A run in which no call into the JPEG library met an error.\<close>

lemma run_saved:
  assumes "main env atoi opts = Some (code, w')"
    and "Sys (Fopen path) r \<in> set (trace w')" and "rv r \<noteq> 0"
    and "\<forall>e\<in>set (trace w'). \<not> jpeg_failed e"
  shows "code = 0 \<and> saved_msg path \<in> set (trace w')"
  using assms(1)
proof (cases rule: run_saving)
  case nothing_saved
  then show ?thesis using assms(2) by auto
next
  case (saving Pre Sv Post res ofile W H)
  have f: "Sys (Fopen path) r \<in> set Sv"
    by (rule saving_mem[OF saving(1-3) assms(2)]) simp
  have s: "path = ofile" "\<forall>b. res = Returns b \<longrightarrow> b \<and> saved_msg ofile \<in> set Sv"
    using saving(4) f assms(3) unfolding save_events_def by blast+
  have en: "ends res Sv" using saving(4) unfolding save_events_def by blast
  have nf: "\<forall>e\<in>set Sv. \<not> jpeg_failed e" using assms(4) unfolding saving(1) by simp
  have "\<not> res = Exits code"
  proof
    assume "res = Exits code"
    with en have "Sv \<noteq> []" "jpeg_failed (last Sv)" by (simp_all add: ends_Exits)
    with nf show False using last_in_set by blast
  qed
  with saving(7) s show ?thesis unfolding saving(1) by auto
qed

text \<open>A run in which a call into the JPEG library met an error.\<close>

lemma run_exit:
  assumes "main env atoi opts = Some (code, w')"
    and "e \<in> set (trace w')" and "jpeg_failed e"
  shows "code = EXIT_FAILURE \<and> last (trace w') = e \<and> (\<forall>f. saved_msg f \<notin> set (trace w'))"
  using assms(1)
proof (cases rule: run_saving)
  case nothing_saved
  then show ?thesis using assms(2) jpeg_failed_phase[OF assms(3)] by auto
next
  case (saving Pre Sv Post res ofile W H)
  have f: "e \<in> set Sv"
    by (rule saving_mem[OF saving(1-3) assms(2) jpeg_failed_phase[OF assms(3)]])
  have en: "ends res Sv" using saving(4) unfolding save_events_def by blast
  from ends_failed_last[OF en f assms(3)] have r: "res = Exits EXIT_FAILURE" "last Sv = e"
    by simp_all
  with saving(7) have c: "code = EXIT_FAILURE" "Post = []" by simp_all
  have ne: "Sv \<noteq> []" using f by auto
  have m: "\<forall>f. saved_msg f \<notin> set Sv"
    using saving(4) r(1) unfolding save_events_def by blast
  have "last (trace w') = e" unfolding saving(1) c(2) using ne r(2) by simp
  moreover have "\<forall>f. saved_msg f \<notin> set (trace w')"
    unfolding saving(1) c(2) using m saving(8) by simp
  ultimately show ?thesis using c(1) by simp
qed

text \<open>The session's width and height in the saving part of a run.\<close>

lemma run_conversion:
  assumes "main env atoi opts = Some (code, w')"
    and "Sys (Ioctl fdes VIDIOC_G_FMT) r \<in> set (trace w')" and "0 \<le> rv r"
  shows "(\<forall>n x. Sys (Calloc n) x \<in> set (trace w') \<longrightarrow> n = scast (pix_width r * 3))
     \<and> (\<forall>iw ih x. Sys (Jpeg_start_compress iw ih) x \<in> set (trace w') \<longrightarrow>
           iw = pix_width r \<and> ih = pix_height r)
     \<and> (\<forall>addr len mem. Sys (Read_buffer addr len) mem \<in> set (trace w') \<longrightarrow>
           (\<exists>k\<le>unat (pix_height r).
               scanline_loop (take (unat len) (frame mem)) (sint (pix_width r)) k 0 [] (0, 0)
                 = Some (scanlines (trace w')))
         \<and> (\<forall>x. Sys Jpeg_finish_compress x \<in> set (trace w') \<longrightarrow>
               convert (take (unat len) (frame mem)) (pix_width r) (pix_height r)
                 = Some (scanlines (trace w'))))
     \<and> ((\<forall>addr len mem. Sys (Read_buffer addr len) mem \<notin> set (trace w')) \<longrightarrow>
           scanlines (trace w') = [])"
  using assms(1)
proof (cases rule: run_saving)
  case nothing_saved
  have "scanlines (trace w') = []" using nothing_saved by (rule scanlines_other_phase)
  moreover have "\<And>c x. call_phase c = Saving \<Longrightarrow> Sys c x \<notin> set (trace w')"
    using nothing_saved by auto
  ultimately show ?thesis by simp
next
  case (saving Pre Sv Post res ofile W H)
  from saving(5) assms(2,3) have wh: "W = pix_width r" "H = pix_height r" by blast+
  note sc = saving_scanlines[OF saving(1-3)]
  have mem: "\<And>c x. call_phase c = Saving \<Longrightarrow> Sys c x \<in> set (trace w') \<longleftrightarrow> Sys c x \<in> set Sv"
    using saving(2,3) unfolding saving(1) by auto
  have m: "\<And>n x. Sys (Calloc n) x \<in> set (trace w') \<longleftrightarrow> Sys (Calloc n) x \<in> set Sv"
    "\<And>iw ih x. Sys (Jpeg_start_compress iw ih) x \<in> set (trace w') \<longleftrightarrow>
       Sys (Jpeg_start_compress iw ih) x \<in> set Sv"
    "\<And>addr len mem. Sys (Read_buffer addr len) mem \<in> set (trace w') \<longleftrightarrow>
       Sys (Read_buffer addr len) mem \<in> set Sv"
    "\<And>x. Sys Jpeg_finish_compress x \<in> set (trace w') \<longleftrightarrow> Sys Jpeg_finish_compress x \<in> set Sv"
    by (simp_all add: mem)
  show ?thesis unfolding m sc using saving(4) unfolding save_events_def wh by blast
qed

lemma run_format_asked:
  assumes "main env atoi opts = Some (code, w')"
    and "Sys (Ioctl fdes (VIDIOC_S_FMT x y)) r \<in> set (trace w')"
  shows "x = requested atoi (CHR ''w'') DEFAULT_WIDTH opts
       \<and> y = requested atoi (CHR ''h'') DEFAULT_HEIGHT opts"
  using assms(1)
proof (cases rule: main_run)
  case usage
  then show ?thesis using assms(2) by auto
next
  case (init_failed In)
  then show ?thesis using assms(2) by (auto dest: option_phase init_phase)
next
  case (format_failed In Fm W H c)
  have "Sys (Ioctl fdes (VIDIOC_S_FMT x y)) r \<in> set Fm"
    using assms(2) format_failed(3) unfolding format_failed(2)
    by (auto dest: option_phase init_phase)
  from format_asked[OF format_failed(4) this] show ?thesis .
next
  case (alloc_failed In Fm W H Bf c)
  have "Sys (Ioctl fdes (VIDIOC_S_FMT x y)) r \<in> set Fm"
    using assms(2) alloc_failed(3,5) unfolding alloc_failed(2)
    by (auto dest: option_phase init_phase buffer_phase)
  from format_asked[OF alloc_failed(4) this] show ?thesis .
next
  case (discard_failed In Fm W H Bf C m c rm rc)
  have "Sys (Ioctl fdes (VIDIOC_S_FMT x y)) r \<in> set Fm"
    using assms(2) discard_failed(3,4,6,7) unfolding discard_failed(2)
    by (auto dest: option_phase init_phase buffer_phase capture_phase)
  from format_asked[OF discard_failed(5) this] show ?thesis .
next
  case (live_failed In Fm W H Bf C1 C2 m c rm rc)
  have "Sys (Ioctl fdes (VIDIOC_S_FMT x y)) r \<in> set Fm"
    using assms(2) live_failed(3,4,6,7,8) unfolding live_failed(2)
    by (auto dest: option_phase init_phase buffer_phase capture_phase)
  from format_asked[OF live_failed(5) this] show ?thesis .
next
  case (save_exited In Fm W H Bf C1 C2 ofile Sv)
  have "Sys (Ioctl fdes (VIDIOC_S_FMT x y)) r \<in> set Fm"
    using assms(2) save_exited(2,4,5,6,7) unfolding save_exited(1)
    by (auto dest: option_phase init_phase buffer_phase capture_phase save_phase)
  from format_asked[OF save_exited(3) this] show ?thesis .
next
  case (save_attempted In Fm W H Bf C1 C2 saved ofile Sv m c rm rc)
  have "Sys (Ioctl fdes (VIDIOC_S_FMT x y)) r \<in> set Fm"
    using assms(2) save_attempted(3,4,6,7,8,9) unfolding save_attempted(2)
    by (auto dest: option_phase init_phase buffer_phase capture_phase save_phase)
  from format_asked[OF save_attempted(5) this] show ?thesis .
qed

section \<open>Properties of runs\<close>

text \<open>Unfolding a run on a concrete environment.\<close>

lemmas run_simps = main_def initVideoDevice_def checkCapabilities_def setFormat_def allocBuffer_def
  captureImage_def saveImage_def YUYV2JPEG_def releaseBuffer_def xioctl.simps sys_def emit_def
  perror_def VI_init_def VI_ready_def world_init_def Let_def DEFAULT_VIDEODEV_def
  DEFAULT_OUTPUTFILE_def DEFAULT_WIDTH_def DEFAULT_HEIGHT_def DEFAULT_JPEG_QUALITY_def
  V4L2_CAP_VIDEO_CAPTURE_def V4L2_CAP_STREAMING_def EINTR_def EINVAL_def MAP_FAILED_def
  answer_def sample_def opts_2x2_def atoi_dec_def is_space_def
  convert_def scanline_loop.simps row_loop.simps pixel_step_def yuyv_at_def rgb_of_def CLAMP_def
  write_loop.simps EXIT_FAILURE_def

lemmas trace_simps = calls_def messages_def scanlines_def streaming_def format_warnings_def
  format_adopted_def caps_ok_def

lemma getopt_loop_known:
  "known_options opts \<Longrightarrow> \<exists>st. getopt_loop atoi opts (VI, vd, ofile, w) = Inr st"
proof (induction opts arbitrary: VI vd ofile w)
  case Nil
  then show ?case by simp
next
  case (Cons opt opts)
  obtain i a where opt: "opt = (i, a)" by (cases opt)
  from Cons.prems have k: "i \<in> set ''dowhv''" "known_options opts"
    unfolding opt by (simp_all add: known_options_def)
  show ?case unfolding opt getopt_loop_step using k(1) Cons.IH[OF k(2)] by simp
qed

text \<open>
  C5. Format negotiation succeeds exactly when the driver accepts the request
  (\<^verbatim>\<open>VIDIOC_S_FMT\<close>) and the format is read back (\<^verbatim>\<open>VIDIOC_G_FMT\<close>); the session's width
  and height are then the values read back, whatever was asked for, and each one that
  differs from the request is reported by a warning, which does not make the negotiation
  fail. In a run, the format read back, \<open>g\<close>, is what everything in the saving part uses:
  the row buffer has 3 bytes for each pixel of its width; the compressor is started with its
  width and height; the scanlines handed to the compressor are, in order, the first rows of
  the conversion at its width of the mapped buffer as it was read, no more rows than its
  height, and, when the end of the image is reached, exactly the rows of the conversion at
  its width and height; if the buffer was not read, no scanline was handed over. Nothing of
  the saving part happens in a run in which no format was read back.
\<close>

theorem format_negotiation_adopts_driver_values:
  "(setFormat env vi w = Some (True, vi', w1) \<longleftrightarrow>
      (\<exists>r1 wa r2 wb.
          xioctl env w (fd vi) (VIDIOC_S_FMT (width vi) (height vi)) = Some (r1, wa) \<and> 0 \<le> rv r1
        \<and> xioctl env wa (fd vi) VIDIOC_G_FMT = Some (r2, wb) \<and> 0 \<le> rv r2
        \<and> vi' = format_adopted vi r2 \<and> w1 = wb\<lparr>trace := trace wb @ format_warnings vi r2\<rparr>))
   \<and> width (format_adopted vi r) = pix_width r \<and> height (format_adopted vi r) = pix_height r
   \<and> (main env atoi opts = Some (code, w') \<longrightarrow>
        Sys (Ioctl fdes VIDIOC_G_FMT) g \<in> set (trace w') \<longrightarrow> 0 \<le> rv g \<longrightarrow>
          (\<forall>n x. Sys (Calloc n) x \<in> set (trace w') \<longrightarrow> n = scast (pix_width g * 3))
        \<and> (\<forall>iw ih x. Sys (Jpeg_start_compress iw ih) x \<in> set (trace w') \<longrightarrow>
              iw = pix_width g \<and> ih = pix_height g)
        \<and> (\<forall>addr len mem. Sys (Read_buffer addr len) mem \<in> set (trace w') \<longrightarrow>
              (\<exists>k\<le>unat (pix_height g).
                  scanline_loop (take (unat len) (frame mem)) (sint (pix_width g)) k 0 [] (0, 0)
                    = Some (scanlines (trace w')))
            \<and> (\<forall>x. Sys Jpeg_finish_compress x \<in> set (trace w') \<longrightarrow>
                  convert (take (unat len) (frame mem)) (pix_width g) (pix_height g)
                    = Some (scanlines (trace w'))))
        \<and> ((\<forall>addr len mem. Sys (Read_buffer addr len) mem \<notin> set (trace w')) \<longrightarrow>
              scanlines (trace w') = []))
   \<and> (main env atoi opts = Some (code, w') \<longrightarrow> e \<in> set (trace w') \<longrightarrow> phase_of e = Saving \<longrightarrow>
        (\<exists>fdes g. Sys (Ioctl fdes VIDIOC_G_FMT) g \<in> set (trace w') \<and> 0 \<le> rv g))"
proof -
  have A: "setFormat env vi w = Some (True, vi', w1) \<longleftrightarrow>
      (\<exists>r1 wa r2 wb.
          xioctl env w (fd vi) (VIDIOC_S_FMT (width vi) (height vi)) = Some (r1, wa) \<and> 0 \<le> rv r1
        \<and> xioctl env wa (fd vi) VIDIOC_G_FMT = Some (r2, wb) \<and> 0 \<le> rv r2
        \<and> vi' = format_adopted vi r2 \<and> w1 = wb\<lparr>trace := trace wb @ format_warnings vi r2\<rparr>)"
  proof
    assume "setFormat env vi w = Some (True, vi', w1)"
    then show "\<exists>r1 wa r2 wb.
          xioctl env w (fd vi) (VIDIOC_S_FMT (width vi) (height vi)) = Some (r1, wa) \<and> 0 \<le> rv r1
        \<and> xioctl env wa (fd vi) VIDIOC_G_FMT = Some (r2, wb) \<and> 0 \<le> rv r2
        \<and> vi' = format_adopted vi r2 \<and> w1 = wb\<lparr>trace := trace wb @ format_warnings vi r2\<rparr>"
      by (cases rule: setFormat_cases) auto
  next
    assume "\<exists>r1 wa r2 wb.
          xioctl env w (fd vi) (VIDIOC_S_FMT (width vi) (height vi)) = Some (r1, wa) \<and> 0 \<le> rv r1
        \<and> xioctl env wa (fd vi) VIDIOC_G_FMT = Some (r2, wb) \<and> 0 \<le> rv r2
        \<and> vi' = format_adopted vi r2 \<and> w1 = wb\<lparr>trace := trace wb @ format_warnings vi r2\<rparr>"
    then show "setFormat env vi w = Some (True, vi', w1)"
      using setFormat_success by blast
  qed
  have B: "width (format_adopted vi r) = pix_width r" "height (format_adopted vi r) = pix_height r"
    by (simp_all add: format_adopted_def)
  have C: "main env atoi opts = Some (code, w') \<longrightarrow>
        Sys (Ioctl fdes VIDIOC_G_FMT) g \<in> set (trace w') \<longrightarrow> 0 \<le> rv g \<longrightarrow>
          (\<forall>n x. Sys (Calloc n) x \<in> set (trace w') \<longrightarrow> n = scast (pix_width g * 3))
        \<and> (\<forall>iw ih x. Sys (Jpeg_start_compress iw ih) x \<in> set (trace w') \<longrightarrow>
              iw = pix_width g \<and> ih = pix_height g)
        \<and> (\<forall>addr len mem. Sys (Read_buffer addr len) mem \<in> set (trace w') \<longrightarrow>
              (\<exists>k\<le>unat (pix_height g).
                  scanline_loop (take (unat len) (frame mem)) (sint (pix_width g)) k 0 [] (0, 0)
                    = Some (scanlines (trace w')))
            \<and> (\<forall>x. Sys Jpeg_finish_compress x \<in> set (trace w') \<longrightarrow>
                  convert (take (unat len) (frame mem)) (pix_width g) (pix_height g)
                    = Some (scanlines (trace w'))))
        \<and> ((\<forall>addr len mem. Sys (Read_buffer addr len) mem \<notin> set (trace w')) \<longrightarrow>
              scanlines (trace w') = [])"
    using run_conversion[of env atoi opts code w' fdes g] by (intro impI)
  have D: "main env atoi opts = Some (code, w') \<longrightarrow> e \<in> set (trace w') \<longrightarrow> phase_of e = Saving \<longrightarrow>
        (\<exists>fdes g. Sys (Ioctl fdes VIDIOC_G_FMT) g \<in> set (trace w') \<and> 0 \<le> rv g)"
    using run_saving_confirmed[of env atoi opts code w' e] by (intro impI)
  show ?thesis by (intro conjI) (rule A, rule B(1), rule B(2), rule C, rule D)
qed

theorem format_negotiation_adopts_driver_values_witness:
  "(\<exists>vi' w1. setFormat camera (VI_init\<lparr>fd := 3\<rparr>) world_init = Some (True, vi', w1)
      \<and> width vi' = 2 \<and> height vi' = 2
      \<and> messages (trace w1) = [width_adjusted_msg 640 2, height_adjusted_msg 480 2])
   \<and> (\<exists>code w'. main camera_wide atoi_dec [] = Some (code, w')
      \<and> Sys (Ioctl 3 VIDIOC_G_FMT) (answer\<lparr>pix_width := 4, pix_height := 1\<rparr>) \<in> set (trace w')
      \<and> 0 \<le> rv (answer\<lparr>pix_width := 4, pix_height := 1\<rparr>)
      \<and> phase_of (Sys (Calloc 12) (answer\<lparr>rv := 12288, pix_width := 4, pix_height := 1\<rparr>)) = Saving
      \<and> Sys (Calloc 12) (answer\<lparr>rv := 12288, pix_width := 4, pix_height := 1\<rparr>) \<in> set (trace w')
      \<and> Sys (Jpeg_start_compress 4 1) (answer\<lparr>pix_width := 4, pix_height := 1\<rparr>) \<in> set (trace w')
      \<and> Sys (Read_buffer 4096 8) (answer\<lparr>pix_width := 4, pix_height := 1\<rparr>) \<in> set (trace w')
      \<and> Sys Jpeg_finish_compress (answer\<lparr>pix_width := 4, pix_height := 1\<rparr>) \<in> set (trace w')
      \<and> (12 :: size_t) = scast ((4 :: cint) * 3)
      \<and> scanlines (trace w') = [[254, 0, 0, 255, 179, 176, 0, 80, 0, 42, 255, 200]]
      \<and> convert sample 4 1 = Some (scanlines (trace w'))
      \<and> convert sample 1 4 \<noteq> Some (scanlines (trace w')))"
proof -
  let ?vi = "VI_init\<lparr>fd := 3\<rparr>"
  let ?wa = "\<lparr>trace = [Sys (Ioctl 3 (VIDIOC_S_FMT 640 480)) answer], errno = 0\<rparr>"
  let ?wb = "\<lparr>trace = [Sys (Ioctl 3 (VIDIOC_S_FMT 640 480)) answer, Sys (Ioctl 3 VIDIOC_G_FMT) answer],
              errno = 0\<rparr>"
  have s: "xioctl camera world_init (fd ?vi) (VIDIOC_S_FMT (width ?vi) (height ?vi)) = Some (answer, ?wa)"
    by (simp add: run_simps camera_def)
  have g: "xioctl camera ?wa (fd ?vi) VIDIOC_G_FMT = Some (answer, ?wb)"
    by (simp add: run_simps camera_def)
  have ok: "0 \<le> rv answer" by (simp add: answer_def)
  from format_negotiation_adopts_driver_values[of camera ?vi world_init
      "format_adopted ?vi answer" "?wb\<lparr>trace := trace ?wb @ format_warnings ?vi answer\<rparr>" answer]
  have f: "setFormat camera ?vi world_init =
      Some (True, format_adopted ?vi answer, ?wb\<lparr>trace := trace ?wb @ format_warnings ?vi answer\<rparr>)"
    and wd: "width (format_adopted ?vi answer) = pix_width answer"
      "height (format_adopted ?vi answer) = pix_height answer"
    using s g ok by blast+
  have m: "messages (trace (?wb\<lparr>trace := trace ?wb @ format_warnings ?vi answer\<rparr>)) =
      [width_adjusted_msg 640 2, height_adjusted_msg 480 2]"
    by (simp add: run_simps trace_simps)
  have first: "\<exists>vi' w1. setFormat camera ?vi world_init = Some (True, vi', w1)
      \<and> width vi' = 2 \<and> height vi' = 2
      \<and> messages (trace w1) = [width_adjusted_msg 640 2, height_adjusted_msg 480 2]"
    using f wd m by (simp add: answer_def)
  let ?g = "answer\<lparr>pix_width := 4, pix_height := 1\<rparr>"
  let ?c = "Sys (Calloc 12) (answer\<lparr>rv := 12288, pix_width := 4, pix_height := 1\<rparr>)"
  have "case main camera_wide atoi_dec [] of None \<Rightarrow> False
     | Some (code, w') \<Rightarrow> Sys (Ioctl 3 VIDIOC_G_FMT) ?g \<in> set (trace w')
         \<and> ?c \<in> set (trace w')
         \<and> Sys (Jpeg_start_compress 4 1) ?g \<in> set (trace w')
         \<and> Sys (Read_buffer 4096 8) ?g \<in> set (trace w')
         \<and> Sys Jpeg_finish_compress ?g \<in> set (trace w')
         \<and> scanlines (trace w') = [[254, 0, 0, 255, 179, 176, 0, 80, 0, 42, 255, 200]]"
    by (simp add: run_simps trace_simps camera_wide_def camera_def)
  then obtain code w' where run: "main camera_wide atoi_dec [] = Some (code, w')"
    and t: "Sys (Ioctl 3 VIDIOC_G_FMT) ?g \<in> set (trace w')" "?c \<in> set (trace w')"
      "Sys (Jpeg_start_compress 4 1) ?g \<in> set (trace w')"
      "Sys (Read_buffer 4096 8) ?g \<in> set (trace w')"
      "Sys Jpeg_finish_compress ?g \<in> set (trace w')"
    and sc: "scanlines (trace w') = [[254, 0, 0, 255, 179, 176, 0, 80, 0, 42, 255, 200]]"
    by (cases "main camera_wide atoi_dec []") auto
  have h: "0 \<le> rv ?g" "phase_of ?c = Saving" by (simp_all add: answer_def)
  note th = format_negotiation_adopts_driver_values[of camera_wide ?vi world_init undefined
      undefined answer atoi_dec "[]" code w' 3 ?g ?c]
  from th run t(1) h(1) have
    r: "\<forall>addr len mem. Sys (Read_buffer addr len) mem \<in> set (trace w') \<longrightarrow>
          (\<forall>x. Sys Jpeg_finish_compress x \<in> set (trace w') \<longrightarrow>
             convert (take (unat len) (frame mem)) (pix_width ?g) (pix_height ?g)
               = Some (scanlines (trace w')))"
    and n: "\<forall>n x. Sys (Calloc n) x \<in> set (trace w') \<longrightarrow> n = scast (pix_width ?g * 3)"
    by blast+
  from r t(4,5) have "convert (take (unat (8 :: size_t)) (frame ?g)) (pix_width ?g) (pix_height ?g)
      = Some (scanlines (trace w'))"
    by blast
  then have cv: "convert sample 4 1 = Some (scanlines (trace w'))"
    by (simp add: answer_def sample_def)
  from n t(2) have sz: "(12 :: size_t) = scast ((4 :: cint) * 3)"
    by (auto simp: answer_def)
  have sw: "convert sample 1 4 \<noteq> Some (scanlines (trace w'))"
    unfolding sc by (simp add: run_simps)
  show ?thesis using first run t h sc cv sz sw by blast
qed


text \<open>
  C6. When the capability query is answered and the "capture" or the "streaming I/O" flag is
  missing, the run ends with status 1; it has negotiated no format, requested or mapped no
  buffer, run no capture cycle and saved nothing; it reports the missing flag by a message
  of its own, and nothing through \<^verbatim>\<open>perror\<close>, which is how a failed query is reported.
\<close>

theorem unsupported_device_aborts_before_buffers:
  assumes "main env atoi opts = Some (code, w')"
    and "Sys (Ioctl fdes VIDIOC_QUERYCAP) r \<in> set (trace w')" and "0 \<le> rv r"
    and "\<not> caps_ok r"
  shows "code = 1
    \<and> (\<forall>e\<in>set (trace w'). phase_of e \<notin> {Format, Buffer, Capture, Saving})
    \<and> (\<forall>e\<in>set (trace w'). \<not> is_perror e)
    \<and> (cap_capabilities r AND V4L2_CAP_VIDEO_CAPTURE = 0 \<longrightarrow> no_capture_msg \<in> set (trace w'))
    \<and> (cap_capabilities r AND V4L2_CAP_VIDEO_CAPTURE \<noteq> 0 \<longrightarrow> no_streaming_msg \<in> set (trace w'))"
  using assms by (rule run_unsupported)

theorem unsupported_device_aborts_before_buffers_witness:
  "\<exists>code w'. main camera_no_streaming atoi_dec opts_2x2 = Some (code, w')
     \<and> Sys (Ioctl 3 VIDIOC_QUERYCAP) (answer\<lparr>cap_capabilities := 1\<rparr>) \<in> set (trace w')
     \<and> 0 \<le> rv (answer\<lparr>cap_capabilities := 1\<rparr>) \<and> \<not> caps_ok (answer\<lparr>cap_capabilities := 1\<rparr>)
     \<and> code = 1
     \<and> calls (trace w') = [Open ''/dev/video0'', Ioctl 3 VIDIOC_QUERYCAP, Close 3]
     \<and> messages (trace w') = [no_streaming_msg]
     \<and> list_all (\<lambda>e. phase_of e \<notin> {Format, Buffer, Capture, Saving}) (trace w')"
proof -
  let ?r = "answer\<lparr>cap_capabilities := 1\<rparr>"
  have "case main camera_no_streaming atoi_dec opts_2x2 of None \<Rightarrow> False
     | Some (code, w') \<Rightarrow> Sys (Ioctl 3 VIDIOC_QUERYCAP) ?r \<in> set (trace w')
         \<and> calls (trace w') = [Open ''/dev/video0'', Ioctl 3 VIDIOC_QUERYCAP, Close 3]
         \<and> messages (trace w') = [no_streaming_msg]"
    by (simp add: run_simps trace_simps camera_no_streaming_def camera_def)
  then obtain code w' where run: "main camera_no_streaming atoi_dec opts_2x2 = Some (code, w')"
    and q: "Sys (Ioctl 3 VIDIOC_QUERYCAP) ?r \<in> set (trace w')"
    and c: "calls (trace w') = [Open ''/dev/video0'', Ioctl 3 VIDIOC_QUERYCAP, Close 3]"
      "messages (trace w') = [no_streaming_msg]"
    by (cases "main camera_no_streaming atoi_dec opts_2x2") auto
  have h: "0 \<le> rv ?r" "\<not> caps_ok ?r"
    by (simp_all add: answer_def caps_ok_def V4L2_CAP_VIDEO_CAPTURE_def V4L2_CAP_STREAMING_def)
  from unsupported_device_aborts_before_buffers[OF run q h]
  have "code = 1" "\<forall>e\<in>set (trace w'). phase_of e \<notin> {Format, Buffer, Capture, Saving}"
    by blast+
  then show ?thesis using run q h c by (auto simp: list_all_iff)
qed

text \<open>
  C7. A capture cycle whose wait expires with no frame ready (\<^verbatim>\<open>select\<close> returns 0) fails,
  and the last thing it does is print the time-out message; it reports nothing through
  \<^verbatim>\<open>perror\<close>, while a wait that fails (\<^verbatim>\<open>select\<close> returns a negative value) ends the
  cycle with \<^verbatim>\<open>perror("select")\<close>. A run in which a wait expired contains the time-out
  message and nothing of the saving phase: the output file is never opened.
\<close>

theorem wait_expiry_fails_cycle_and_creates_no_file:
  "(captureImage env vi w = Some (b, w1) \<longrightarrow> Sys (Select fdes secs) r \<in> set (added w w1) \<longrightarrow>
       (rv r = 0 \<longrightarrow> \<not> b \<and> last (trace w1) = timed_out_msg \<and> (\<forall>e\<in>set (added w w1). \<not> is_perror e))
     \<and> (rv r < 0 \<longrightarrow> \<not> b \<and> last (trace w1) = Perror ''select'' (err r)))
   \<and> (main env atoi opts = Some (code, w') \<longrightarrow> Sys (Select fdes secs) r \<in> set (trace w') \<longrightarrow>
        rv r = 0 \<longrightarrow>
          timed_out_msg \<in> set (trace w') \<and> (\<forall>e\<in>set (trace w'). phase_of e \<noteq> Saving))"
proof (intro conjI impI)
  assume c: "captureImage env vi w = Some (b, w1)"
    and s: "Sys (Select fdes secs) r \<in> set (added w w1)"
  note cw = captureImage_wait[OF c s]
  note ce = captureImage_events[OF c]
  { assume "rv r = 0"
    then show "\<not> b" "last (trace w1) = timed_out_msg" "\<forall>e\<in>set (added w w1). \<not> is_perror e"
      using cw ce s by blast+ }
  { assume "rv r < 0"
    then show "\<not> b" "last (trace w1) = Perror ''select'' (err r)"
      using cw by blast+ }
next
  assume "main env atoi opts = Some (code, w')" "Sys (Select fdes secs) r \<in> set (trace w')" "rv r = 0"
  from run_timeout[OF this]
  show "timed_out_msg \<in> set (trace w')" "\<forall>e\<in>set (trace w'). phase_of e \<noteq> Saving"
    by blast+
qed

theorem wait_expiry_fails_cycle_and_creates_no_file_witness:
  "(\<exists>b w1. captureImage camera_asleep VI_ready world_init = Some (b, w1)
      \<and> Sys (Select 3 5) answer \<in> set (added world_init w1) \<and> rv answer = 0
      \<and> \<not> b \<and> last (trace w1) = timed_out_msg)
   \<and> (\<exists>code w'. main camera_asleep atoi_dec opts_2x2 = Some (code, w')
      \<and> Sys (Select 3 5) answer \<in> set (trace w') \<and> rv answer = 0
      \<and> timed_out_msg \<in> set (trace w')
      \<and> list_all (\<lambda>e. phase_of e \<noteq> Saving) (trace w'))"
proof -
  have z: "rv answer = 0" by (simp add: answer_def)
  have "case captureImage camera_asleep VI_ready world_init of None \<Rightarrow> False
     | Some (b, w1) \<Rightarrow> Sys (Select 3 5) answer \<in> set (added world_init w1)"
    by (simp add: run_simps added_def camera_asleep_def camera_def)
  then obtain b w1 where c: "captureImage camera_asleep VI_ready world_init = Some (b, w1)"
    and s: "Sys (Select 3 5) answer \<in> set (added world_init w1)"
    by (cases "captureImage camera_asleep VI_ready world_init") auto
  from wait_expiry_fails_cycle_and_creates_no_file[of camera_asleep VI_ready world_init b w1 3 5 answer]
    c s z
  have first: "\<not> b \<and> last (trace w1) = timed_out_msg" by blast
  have "case main camera_asleep atoi_dec opts_2x2 of None \<Rightarrow> False
     | Some (code, w') \<Rightarrow> Sys (Select 3 5) answer \<in> set (trace w')"
    by (simp add: run_simps camera_asleep_def camera_def)
  then obtain code w' where run: "main camera_asleep atoi_dec opts_2x2 = Some (code, w')"
    and t: "Sys (Select 3 5) answer \<in> set (trace w')"
    by (cases "main camera_asleep atoi_dec opts_2x2") auto
  from wait_expiry_fails_cycle_and_creates_no_file[of camera_asleep VI_ready world_init b w1 3 5 answer
      atoi_dec opts_2x2 code w'] run t z
  have "timed_out_msg \<in> set (trace w') \<and> (\<forall>e\<in>set (trace w'). phase_of e \<noteq> Saving)" by blast
  then show ?thesis using first c s z run t by (auto simp: list_all_iff)
qed


text \<open>
  C9. Once the output file is open, \<^verbatim>\<open>saveImage\<close> returns true and prints the saved-to
  message whatever \<^verbatim>\<open>YUYV2JPEG\<close> returned, and does nothing when the process was ended
  inside \<^verbatim>\<open>YUYV2JPEG\<close>; \<^verbatim>\<open>YUYV2JPEG\<close> returns false when the row buffer cannot be
  allocated. A run in which the output file was opened and no call into the JPEG library
  met an error ends with status 0 and the saved-to message; a run in which such a call met
  an error ends there, with the status of a failure and no saved-to message.
\<close>

theorem save_reports_success_whatever_the_encoder_returns:
  "(sys env w (Fopen fname) = (fp, wa) \<longrightarrow> rv fp \<noteq> 0 \<longrightarrow>
      YUYV2JPEG env vi wa = Some (Returns encoded, wb) \<longrightarrow>
        saveImage env fname vi w =
          Some (Returns True, emit (snd (sys env wb Fclose)) (saved_msg fname)))
   \<and> (sys env w (Fopen fname) = (fp, wa) \<longrightarrow> rv fp \<noteq> 0 \<longrightarrow>
        YUYV2JPEG env vi wa = Some (Exits status, wb) \<longrightarrow>
          saveImage env fname vi w = Some (Exits status, wb))
   \<and> (sys env wa (Calloc (scast (width vi * 3))) = (row_buffer, wc) \<longrightarrow> rv row_buffer = 0 \<longrightarrow>
        YUYV2JPEG env vi wa =
          Some (Returns False, emit wc (Stderr ''Line buffer allocation failed\<newline>'' [])))
   \<and> (main env atoi opts = Some (code, w') \<longrightarrow> Sys (Fopen path) r \<in> set (trace w') \<longrightarrow>
        rv r \<noteq> 0 \<longrightarrow> (\<forall>e\<in>set (trace w'). \<not> jpeg_failed e) \<longrightarrow>
          code = 0 \<and> saved_msg path \<in> set (trace w'))
   \<and> (main env atoi opts = Some (code, w') \<longrightarrow> e \<in> set (trace w') \<longrightarrow> jpeg_failed e \<longrightarrow>
        code = EXIT_FAILURE \<and> last (trace w') = e \<and> (\<forall>f. saved_msg f \<notin> set (trace w')))"
proof (intro conjI impI)
  assume "sys env w (Fopen fname) = (fp, wa)" "rv fp \<noteq> 0"
    "YUYV2JPEG env vi wa = Some (Returns encoded, wb)"
  then show "saveImage env fname vi w =
      Some (Returns True, emit (snd (sys env wb Fclose)) (saved_msg fname))"
    by (simp add: saveImage_def Let_def)
next
  assume "sys env w (Fopen fname) = (fp, wa)" "rv fp \<noteq> 0"
    "YUYV2JPEG env vi wa = Some (Exits status, wb)"
  then show "saveImage env fname vi w = Some (Exits status, wb)"
    by (simp add: saveImage_def Let_def)
next
  assume "sys env wa (Calloc (scast (width vi * 3))) = (row_buffer, wc)" "rv row_buffer = 0"
  then show "YUYV2JPEG env vi wa =
      Some (Returns False, emit wc (Stderr ''Line buffer allocation failed\<newline>'' []))"
    by (simp add: YUYV2JPEG_def)
next
  assume "main env atoi opts = Some (code, w')" "Sys (Fopen path) r \<in> set (trace w')" "rv r \<noteq> 0"
    "\<forall>e\<in>set (trace w'). \<not> jpeg_failed e"
  from run_saved[OF this] show "code = 0" "saved_msg path \<in> set (trace w')"
    by blast+
next
  assume "main env atoi opts = Some (code, w')" "e \<in> set (trace w')" "jpeg_failed e"
  from run_exit[OF this]
  show "code = EXIT_FAILURE" "last (trace w') = e" "\<forall>f. saved_msg f \<notin> set (trace w')"
    by blast+
qed

theorem save_reports_success_whatever_the_encoder_returns_witness:
  "(\<exists>code w'. main camera_no_memory atoi_dec opts_2x2 = Some (code, w')
     \<and> Sys (Fopen ''vcap.jpg'') (answer\<lparr>rv := 8192\<rparr>) \<in> set (trace w')
     \<and> rv (answer\<lparr>rv := 8192\<rparr>) \<noteq> 0
     \<and> list_all (\<lambda>e. \<not> jpeg_failed e) (trace w')
     \<and> code = 0 \<and> saved_msg ''vcap.jpg'' \<in> set (trace w')
     \<and> messages (trace w') =
           [Stderr ''Line buffer allocation failed\<newline>'' [], saved_msg ''vcap.jpg'']
     \<and> scanlines (trace w') = [])
   \<and> (\<exists>code w'. main camera_disk_full atoi_dec opts_2x2 = Some (code, w')
     \<and> Sys Jpeg_finish_compress (answer\<lparr>rv := - 1\<rparr>) \<in> set (trace w')
     \<and> jpeg_failed (Sys Jpeg_finish_compress (answer\<lparr>rv := - 1\<rparr>))
     \<and> code = 1 \<and> last (trace w') = Sys Jpeg_finish_compress (answer\<lparr>rv := - 1\<rparr>)
     \<and> saved_msg ''vcap.jpg'' \<notin> set (trace w'))"
proof -
  let ?r = "answer\<lparr>rv := 8192\<rparr>"
  have "case main camera_no_memory atoi_dec opts_2x2 of None \<Rightarrow> False
     | Some (code, w') \<Rightarrow> Sys (Fopen ''vcap.jpg'') ?r \<in> set (trace w')
         \<and> list_all (\<lambda>e. \<not> jpeg_failed e) (trace w')
         \<and> messages (trace w') =
              [Stderr ''Line buffer allocation failed\<newline>'' [], saved_msg ''vcap.jpg'']
         \<and> scanlines (trace w') = []"
    by (simp add: run_simps trace_simps jpeg_failed_def is_jpeg_def camera_no_memory_def camera_def)
  then obtain code w' where run: "main camera_no_memory atoi_dec opts_2x2 = Some (code, w')"
    and f: "Sys (Fopen ''vcap.jpg'') ?r \<in> set (trace w')"
    and nf: "list_all (\<lambda>e. \<not> jpeg_failed e) (trace w')"
    and m: "messages (trace w') =
              [Stderr ''Line buffer allocation failed\<newline>'' [], saved_msg ''vcap.jpg'']"
      "scanlines (trace w') = []"
    by (cases "main camera_no_memory atoi_dec opts_2x2") auto
  have h: "rv ?r \<noteq> 0" by simp
  from nf have nf': "\<forall>e\<in>set (trace w'). \<not> jpeg_failed e" by (simp add: list_all_iff)
  from save_reports_success_whatever_the_encoder_returns[of camera_no_memory world_init "''vcap.jpg''"
      undefined undefined VI_ready undefined undefined undefined undefined undefined atoi_dec
      opts_2x2 code w' "''vcap.jpg''" ?r] run f h nf'
  have "code = 0 \<and> saved_msg ''vcap.jpg'' \<in> set (trace w')" by blast
  then have first: "\<exists>code w'. main camera_no_memory atoi_dec opts_2x2 = Some (code, w')
     \<and> Sys (Fopen ''vcap.jpg'') (answer\<lparr>rv := 8192\<rparr>) \<in> set (trace w')
     \<and> rv (answer\<lparr>rv := 8192\<rparr>) \<noteq> 0
     \<and> list_all (\<lambda>e. \<not> jpeg_failed e) (trace w')
     \<and> code = 0 \<and> saved_msg ''vcap.jpg'' \<in> set (trace w')
     \<and> messages (trace w') =
           [Stderr ''Line buffer allocation failed\<newline>'' [], saved_msg ''vcap.jpg'']
     \<and> scanlines (trace w') = []"
    using run f h nf m by blast
  let ?e = "Sys Jpeg_finish_compress (answer\<lparr>rv := - 1\<rparr>)"
  have "case main camera_disk_full atoi_dec opts_2x2 of None \<Rightarrow> False
     | Some (code, w') \<Rightarrow> ?e \<in> set (trace w')"
    by (simp add: run_simps camera_disk_full_def camera_def)
  then obtain code2 w2 where run2: "main camera_disk_full atoi_dec opts_2x2 = Some (code2, w2)"
    and e: "?e \<in> set (trace w2)"
    by (cases "main camera_disk_full atoi_dec opts_2x2") auto
  have j: "jpeg_failed ?e" by (simp add: jpeg_failed_def is_jpeg_def)
  from save_reports_success_whatever_the_encoder_returns[of camera_disk_full world_init "''vcap.jpg''"
      undefined undefined VI_ready undefined undefined undefined undefined undefined atoi_dec
      opts_2x2 code2 w2 "''vcap.jpg''" ?r ?e] run2 e j
  have "code2 = EXIT_FAILURE \<and> last (trace w2) = ?e \<and> (\<forall>f. saved_msg f \<notin> set (trace w2))"
    by blast
  then have "code2 = 1 \<and> last (trace w2) = ?e \<and> saved_msg ''vcap.jpg'' \<notin> set (trace w2)"
    by (simp add: EXIT_FAILURE_def)
  with run2 e j have second: "\<exists>code w'. main camera_disk_full atoi_dec opts_2x2 = Some (code, w')
     \<and> ?e \<in> set (trace w') \<and> jpeg_failed ?e
     \<and> code = 1 \<and> last (trace w') = ?e \<and> saved_msg ''vcap.jpg'' \<notin> set (trace w')"
    by blast
  show ?thesis using first second by blast
qed

text \<open>
  C9 as stated fails: opening the output file is not enough for the success report. With
  an output file that opens and cannot be written, \<^verbatim>\<open>saveImage\<close> does not return: the
  process is ended inside \<^verbatim>\<open>YUYV2JPEG\<close>; the run has status 1, its last call is
  \<^verbatim>\<open>jpeg_finish_compress\<close>, and nothing is reported as saved.
\<close>

theorem open_output_file_is_not_enough_for_success:
  "map_option fst (saveImage camera_disk_full ''vcap.jpg'' VI_ready world_init) = Some (Exits 1)
   \<and> map_option (\<lambda>(code, w). (code,
         Sys (Fopen ''vcap.jpg'') (answer\<lparr>rv := 8192\<rparr>) \<in> set (trace w),
         last (calls (trace w)), messages (trace w)))
       (main camera_disk_full atoi_dec opts_2x2)
     = Some (1, True, Jpeg_finish_compress, [])"
  by (simp add: run_simps trace_simps camera_disk_full_def camera_def)

text \<open>
  C10. For a command line of known options the option loop leaves, as the requested width
  and height, what the last \<open>-w\<close> and \<open>-h\<close> options parse to, negative values included,
  unless that is 0, where the default is taken; the warnings are those of the options that
  parse to 0, and no others. These values are the ones every \<^verbatim>\<open>VIDIOC_S_FMT\<close> request of
  the run carries.
\<close>

theorem width_and_height_options:
  "(known_options opts \<longrightarrow>
      (\<exists>VI vd ofile w0.
          getopt_loop atoi opts (VI_init, DEFAULT_VIDEODEV, DEFAULT_OUTPUTFILE, world_init)
            = Inr (VI, vd, ofile, w0)
        \<and> width VI = requested atoi (CHR ''w'') DEFAULT_WIDTH opts
        \<and> height VI = requested atoi (CHR ''h'') DEFAULT_HEIGHT opts
        \<and> trace w0 = option_warnings atoi opts))
   \<and> (main env atoi opts = Some (code, w') \<longrightarrow>
        Sys (Ioctl fdes (VIDIOC_S_FMT x y)) r \<in> set (trace w') \<longrightarrow>
          x = requested atoi (CHR ''w'') DEFAULT_WIDTH opts
        \<and> y = requested atoi (CHR ''h'') DEFAULT_HEIGHT opts)"
proof (intro conjI impI)
  assume "known_options opts"
  from getopt_loop_known[OF this] obtain st where
    "getopt_loop atoi opts (VI_init, DEFAULT_VIDEODEV, DEFAULT_OUTPUTFILE, world_init) = Inr st"
    by blast
  moreover obtain VI vd ofile w0 where "st = (VI, vd, ofile, w0)" by (cases st)
  ultimately have g:
    "getopt_loop atoi opts (VI_init, DEFAULT_VIDEODEV, DEFAULT_OUTPUTFILE, world_init)
       = Inr (VI, vd, ofile, w0)"
    by simp
  from getopt_loop_Inr[OF g] g
  show "\<exists>VI vd ofile w0.
          getopt_loop atoi opts (VI_init, DEFAULT_VIDEODEV, DEFAULT_OUTPUTFILE, world_init)
            = Inr (VI, vd, ofile, w0)
        \<and> width VI = requested atoi (CHR ''w'') DEFAULT_WIDTH opts
        \<and> height VI = requested atoi (CHR ''h'') DEFAULT_HEIGHT opts
        \<and> trace w0 = option_warnings atoi opts"
    by (auto simp: option_warnings_def)
next
  assume "main env atoi opts = Some (code, w')"
    "Sys (Ioctl fdes (VIDIOC_S_FMT x y)) r \<in> set (trace w')"
  from run_format_asked[OF this]
  show "x = requested atoi (CHR ''w'') DEFAULT_WIDTH opts"
    "y = requested atoi (CHR ''h'') DEFAULT_HEIGHT opts"
    by blast+
qed

theorem width_and_height_options_witness:
  "known_options opts_minus5
   \<and> requested atoi_dec (CHR ''w'') DEFAULT_WIDTH opts_minus5 = - 5
   \<and> requested atoi_dec (CHR ''h'') DEFAULT_HEIGHT opts_minus5 = 480
   \<and> option_warnings atoi_dec opts_minus5 = [invalid_height_msg]
   \<and> (\<exists>VI vd ofile w0.
          getopt_loop atoi_dec opts_minus5 (VI_init, DEFAULT_VIDEODEV, DEFAULT_OUTPUTFILE, world_init)
            = Inr (VI, vd, ofile, w0)
        \<and> width VI = - 5 \<and> height VI = 480 \<and> trace w0 = [invalid_height_msg])
   \<and> (\<exists>code w'. main camera_asleep atoi_dec opts_minus5 = Some (code, w')
        \<and> Sys (Ioctl 3 (VIDIOC_S_FMT (- 5) 480)) answer \<in> set (trace w'))"
proof -
  have k: "known_options opts_minus5"
    by (simp add: known_options_def opts_minus5_def)
  have rq: "requested atoi_dec (CHR ''w'') DEFAULT_WIDTH opts_minus5 = - 5"
    "requested atoi_dec (CHR ''h'') DEFAULT_HEIGHT opts_minus5 = 480"
    by (simp_all add: requested_def opts_minus5_def atoi_dec_def is_space_def DEFAULT_HEIGHT_def)
  have ow: "option_warnings atoi_dec opts_minus5 = [invalid_height_msg]"
    by (simp add: option_warnings_def option_warning_def opts_minus5_def atoi_dec_def is_space_def)
  have "case main camera_asleep atoi_dec opts_minus5 of None \<Rightarrow> False
     | Some (code, w') \<Rightarrow> Sys (Ioctl 3 (VIDIOC_S_FMT (- 5) 480)) answer \<in> set (trace w')"
    by (simp add: run_simps opts_minus5_def camera_asleep_def camera_def)
  then obtain code w' where run: "main camera_asleep atoi_dec opts_minus5 = Some (code, w')"
    and t: "Sys (Ioctl 3 (VIDIOC_S_FMT (- 5) 480)) answer \<in> set (trace w')"
    by (cases "main camera_asleep atoi_dec opts_minus5") auto
  note th = width_and_height_options[of opts_minus5 atoi_dec camera_asleep code w' 3 "- 5" 480 answer]
  from th k obtain VI vd ofile w0 where
    g: "getopt_loop atoi_dec opts_minus5 (VI_init, DEFAULT_VIDEODEV, DEFAULT_OUTPUTFILE, world_init)
            = Inr (VI, vd, ofile, w0)"
      "width VI = requested atoi_dec (CHR ''w'') DEFAULT_WIDTH opts_minus5"
      "height VI = requested atoi_dec (CHR ''h'') DEFAULT_HEIGHT opts_minus5"
      "trace w0 = option_warnings atoi_dec opts_minus5"
    by blast
  have "\<exists>VI vd ofile w0.
          getopt_loop atoi_dec opts_minus5 (VI_init, DEFAULT_VIDEODEV, DEFAULT_OUTPUTFILE, world_init)
            = Inr (VI, vd, ofile, w0)
        \<and> width VI = - 5 \<and> height VI = 480 \<and> trace w0 = [invalid_height_msg]"
    using g rq ow by auto
  then show ?thesis using k rq ow run t by blast
qed

text \<open>
  C1, at a failing input. With a camera whose second wait expires, and the command line
  \<^verbatim>\<open>-w 2 -h 2\<close>, the discard cycle succeeds, the live cycle times out, nothing is saved,
  and \<^verbatim>\<open>main\<close> returns 0, where the discard cycle's failure returns 1.
\<close>

theorem live_capture_failure_exits_0:
  "map_option (\<lambda>(code, w). (code, messages (trace w), scanlines (trace w)))
     (main camera_late atoi_dec opts_2x2) = Some (0, [timed_out_msg], [])
   \<and> map_option (\<lambda>(code, w). calls (trace w)) (main camera_late atoi_dec opts_2x2) =
       Some [Open ''/dev/video0'', Ioctl 3 VIDIOC_QUERYCAP, Ioctl 3 (VIDIOC_S_FMT 2 2),
             Ioctl 3 VIDIOC_G_FMT, Ioctl 3 VIDIOC_REQBUFS, Ioctl 3 VIDIOC_QUERYBUF, Mmap 8 3 0,
             Ioctl 3 VIDIOC_QBUF, Ioctl 3 VIDIOC_STREAMON, Select 3 5, Ioctl 3 VIDIOC_DQBUF,
             Ioctl 3 VIDIOC_STREAMOFF, Ioctl 3 VIDIOC_QBUF, Ioctl 3 VIDIOC_STREAMON, Select 3 5,
             Munmap 4096 8, Close 3]"
  by (simp add: run_simps trace_simps camera_late_def camera_def)

text \<open>
  C2, at a failing input. With a camera that is never ready, the capture cycle queues the
  buffer, turns streaming on, waits, and returns false after the time-out message: it never
  issues \<^verbatim>\<open>VIDIOC_STREAMOFF\<close>, and the device is left streaming.
\<close>

theorem timed_out_cycle_leaves_streaming_on:
  "map_option (\<lambda>(b, w). (b, calls (trace w), messages (trace w), streaming (trace w)))
     (captureImage camera_asleep VI_ready world_init) =
   Some (False, [Ioctl 3 VIDIOC_QBUF, Ioctl 3 VIDIOC_STREAMON, Select 3 5], [timed_out_msg], True)"
  by (simp add: run_simps trace_simps camera_asleep_def camera_def)

section \<open>The device after a capture cycle\<close>

lemma streaming_snoc: "streaming (tr @ [e]) = streaming_step (streaming tr) e"
  by (simp add: streaming_def)

lemma streaming_append: "streaming (tr @ evs) = foldl streaming_step (streaming tr) evs"
  by (simp add: streaming_def)

lemma xioctl_last:
  assumes "xioctl env w fdes req = Some (r, w')"
  shows "\<exists>tr. trace w' = tr @ [Sys (Ioctl fdes req) r]"
  using xioctl_trace[OF assms] by (metis append.assoc)

text \<open>
  X1. A capture cycle that returns true has turned streaming off: the device is idle again
  and the next cycle can run.
\<close>

theorem successful_cycle_leaves_device_idle:
  assumes "captureImage env vi w = Some (True, w')"
  shows "\<not> streaming (trace w')"
  using assms
proof (cases rule: captureImage_cases)
  case (captured q w1 on w2 sel w3 dq w4 off)
  from xioctl_last[OF captured(9)] obtain tr where
    "trace w' = tr @ [Sys (Ioctl (fd vi) VIDIOC_STREAMOFF) off]" by blast
  then show ?thesis using captured(10) by (simp add: streaming_snoc)
qed simp_all

text \<open>
  X2. A capture cycle whose wait expires or fails returns false and leaves the device
  streaming: \<^verbatim>\<open>VIDIOC_STREAMOFF\<close> is not issued on these paths (see C2).
\<close>

theorem failed_wait_leaves_device_streaming:
  assumes "captureImage env vi w = Some (b, w')"
    and "Sys (Select fdes secs) r \<in> set (added w w')" and "rv r \<le> 0"
  shows "\<not> b \<and> streaming (trace w')"
proof -
  from captureImage_wait[OF assms(1,2)] assms(3)
  have nb: "\<not> b" and no_dq: "rv r \<le> 0" by auto
  have pos: "\<not> 0 < rv r" using assms(3) by simp
  from assms(1) show ?thesis
  proof (cases rule: captureImage_cases)
    case (qbuf_failed q w1)
    note m = xioctl_added_mem[OF qbuf_failed(1)]
    note a1 = xioctl_added[OF qbuf_failed(1)]
    have eq: "added w w' = added w w1 @ [Perror ''ioctl(VIDIOC_QBUF)'' (errno w1)]"
      unfolding qbuf_failed using a1(1) by (rule added_perror)
    show ?thesis using assms(2) unfolding eq by (auto dest!: m)
  next
    case (streamon_failed q w1 on w2)
    note a1 = xioctl_added[OF streamon_failed(1)]
    note a2 = xioctl_added[OF streamon_failed(3)]
    note m = xioctl_added_mem[OF streamon_failed(1)] xioctl_added_mem[OF streamon_failed(3)]
    note a12 = added_trans[OF a1(1) a2(1)]
    have eq: "added w w' = added w w1 @ added w1 w2 @ [Perror ''ioctl(VIDIOC_STREAMON)'' (errno w2)]"
      unfolding streamon_failed using a12 by (simp add: added_perror)
    show ?thesis using assms(2) unfolding eq by (auto dest!: m)
  next
    case (select_failed q w1 on w2 sel w3)
    from xioctl_last[OF select_failed(3)] obtain tr where
      t2: "trace w2 = tr @ [Sys (Ioctl (fd vi) VIDIOC_STREAMON) on]" by blast
    have "trace w' = (tr @ [Sys (Ioctl (fd vi) VIDIOC_STREAMON) on]) @
        [Sys (Select (fd vi) 5) sel, Perror ''select'' (errno w3)]"
      using sys_trace[OF select_failed(5)] t2 by (simp add: select_failed(8))
    then have "streaming (trace w')"
      using select_failed(4) by (simp add: streaming_append streaming_snoc)
    then show ?thesis using nb by simp
  next
    case (timed_out q w1 on w2 sel w3)
    from xioctl_last[OF timed_out(3)] obtain tr where
      t2: "trace w2 = tr @ [Sys (Ioctl (fd vi) VIDIOC_STREAMON) on]" by blast
    have "trace w' = (tr @ [Sys (Ioctl (fd vi) VIDIOC_STREAMON) on]) @
        [Sys (Select (fd vi) 5) sel, timed_out_msg]"
      using sys_trace[OF timed_out(5)] t2 by (simp add: timed_out(8))
    then have "streaming (trace w')"
      using timed_out(4) by (simp add: streaming_append streaming_snoc)
    then show ?thesis using nb by simp
  next
    case (dqbuf_failed q w1 on w2 sel w3 dq w4)
    note a1 = xioctl_added[OF dqbuf_failed(1)]
    note a2 = xioctl_added[OF dqbuf_failed(3)]
    note a12 = added_trans[OF a1(1) a2(1)]
    note a3 = added_sys[OF a12(1) dqbuf_failed(5)]
    note a4 = xioctl_added[OF dqbuf_failed(7)]
    note a34 = added_trans[OF a3(2) a4(1)]
    note m = xioctl_added_mem[OF dqbuf_failed(1)] xioctl_added_mem[OF dqbuf_failed(3)]
      xioctl_added_mem[OF dqbuf_failed(7)]
    have eq: "added w w' = added w w1 @ added w1 w2 @ [Sys (Select (fd vi) 5) sel] @ added w3 w4
        @ [Perror ''ioctl(VIDIOC_DQBUF)'' (errno w4)]"
      unfolding dqbuf_failed using a3 a12 a34 by (simp add: added_perror)
    have "r = sel" using assms(2) unfolding eq by (auto dest!: m)
    then show ?thesis using pos dqbuf_failed(6) by simp
  next
    case (streamoff_failed q w1 on w2 sel w3 dq w4 off w5)
    note a1 = xioctl_added[OF streamoff_failed(1)]
    note a2 = xioctl_added[OF streamoff_failed(3)]
    note a12 = added_trans[OF a1(1) a2(1)]
    note a3 = added_sys[OF a12(1) streamoff_failed(5)]
    note a4 = xioctl_added[OF streamoff_failed(7)]
    note a34 = added_trans[OF a3(2) a4(1)]
    note a5 = xioctl_added[OF streamoff_failed(9)]
    note a45 = added_trans[OF a34(1) a5(1)]
    note m = xioctl_added_mem[OF streamoff_failed(1)] xioctl_added_mem[OF streamoff_failed(3)]
      xioctl_added_mem[OF streamoff_failed(7)] xioctl_added_mem[OF streamoff_failed(9)]
    have eq: "added w w' = added w w1 @ added w1 w2 @ [Sys (Select (fd vi) 5) sel] @ added w3 w4
        @ added w4 w5 @ [Perror ''ioctl(VIDIOC_STREAMOFF)'' (errno w5)]"
      unfolding streamoff_failed using a3 a12 a34 a45 by (simp add: added_perror)
    have "r = sel" using assms(2) unfolding eq by (auto dest!: m)
    then show ?thesis using pos streamoff_failed(6) by simp
  next
    case (captured q w1 on w2 sel w3 dq w4 off)
    then show ?thesis using nb by simp
  qed
qed

theorem successful_cycle_leaves_device_idle_witness:
  "\<exists>w'. captureImage camera VI_ready world_init = Some (True, w') \<and> \<not> streaming (trace w')
     \<and> calls (trace w') = [Ioctl 3 VIDIOC_QBUF, Ioctl 3 VIDIOC_STREAMON, Select 3 5,
                            Ioctl 3 VIDIOC_DQBUF, Ioctl 3 VIDIOC_STREAMOFF]"
proof -
  have "case captureImage camera VI_ready world_init of None \<Rightarrow> False
     | Some (b, w') \<Rightarrow> b \<and> calls (trace w') = [Ioctl 3 VIDIOC_QBUF, Ioctl 3 VIDIOC_STREAMON,
          Select 3 5, Ioctl 3 VIDIOC_DQBUF, Ioctl 3 VIDIOC_STREAMOFF]"
    by (simp add: run_simps trace_simps camera_def)
  then obtain w' where c: "captureImage camera VI_ready world_init = Some (True, w')"
    and t: "calls (trace w') = [Ioctl 3 VIDIOC_QBUF, Ioctl 3 VIDIOC_STREAMON,
          Select 3 5, Ioctl 3 VIDIOC_DQBUF, Ioctl 3 VIDIOC_STREAMOFF]"
    by (cases "captureImage camera VI_ready world_init") auto
  from successful_cycle_leaves_device_idle[OF c] c t show ?thesis by blast
qed

theorem failed_wait_leaves_device_streaming_witness:
  "\<exists>b w'. captureImage camera_asleep VI_ready world_init = Some (b, w')
     \<and> Sys (Select 3 5) answer \<in> set (added world_init w') \<and> rv answer \<le> 0
     \<and> \<not> b \<and> streaming (trace w')"
proof -
  have z: "rv answer \<le> 0" by (simp add: answer_def)
  have "case captureImage camera_asleep VI_ready world_init of None \<Rightarrow> False
     | Some (b, w1) \<Rightarrow> Sys (Select 3 5) answer \<in> set (added world_init w1)"
    by (simp add: run_simps added_def camera_asleep_def camera_def)
  then obtain b w' where c: "captureImage camera_asleep VI_ready world_init = Some (b, w')"
    and s: "Sys (Select 3 5) answer \<in> set (added world_init w')"
    by (cases "captureImage camera_asleep VI_ready world_init") auto
  from failed_wait_leaves_device_streaming[OF c s z] c s z show ?thesis by blast
qed

section \<open>The rows the encoder hands over\<close>

text \<open>
  When \<^verbatim>\<open>YUYV2JPEG\<close> returns true, it has read the mapped buffer, and the scanlines it
  handed to the compressor are, in order, exactly the rows of the conversion of that buffer
  at the session's width and height.
\<close>

theorem encoder_hands_over_the_conversion:
  assumes "YUYV2JPEG env vi w = Some (Returns True, w')"
  shows "\<exists>mem. Sys (Read_buffer (buffer vi) (buffer_len vi)) mem \<in> set (added w w')
     \<and> convert (take (unat (buffer_len vi)) (frame mem)) (width vi) (height vi)
         = Some (scanlines (added w w'))"
  using assms by (rule YUYV2JPEG_encoded)

theorem encoder_hands_over_the_conversion_witness:
  "\<exists>w'. YUYV2JPEG camera VI_ready world_init = Some (Returns True, w')
     \<and> scanlines (added world_init w') = [[254, 0, 0, 255, 179, 176], [0, 80, 0, 42, 255, 200]]
     \<and> (\<exists>mem. Sys (Read_buffer 4096 8) mem \<in> set (added world_init w')
          \<and> convert (take 8 (frame mem)) 2 2 = Some (scanlines (added world_init w')))"
proof -
  have "case YUYV2JPEG camera VI_ready world_init of None \<Rightarrow> False
     | Some (res, w') \<Rightarrow> res = Returns True
         \<and> scanlines (added world_init w') = [[254, 0, 0, 255, 179, 176], [0, 80, 0, 42, 255, 200]]"
    by (simp add: run_simps trace_simps added_def camera_def)
  then obtain w' where y: "YUYV2JPEG camera VI_ready world_init = Some (Returns True, w')"
    and sc: "scanlines (added world_init w') = [[254, 0, 0, 255, 179, 176], [0, 80, 0, 42, 255, 200]]"
    by (cases "YUYV2JPEG camera VI_ready world_init") auto
  from encoder_hands_over_the_conversion[OF y]
  have "\<exists>mem. Sys (Read_buffer 4096 8) mem \<in> set (added world_init w')
          \<and> convert (take 8 (frame mem)) 2 2 = Some (scanlines (added world_init w'))"
    by (simp add: VI_ready_def VI_init_def)
  with y sc show ?thesis by blast
qed

end
